(* ===== verification/Prelude.thy ===== *)
theory Prelude
  imports Main "HOL-Library.Word" "HOL-Library.Code_Target_Nat" "HOL-Library.Char_ord" "HOL-Library.List_Lexorder"
begin

text \<open>
  The prelude: the rule collections of the development, the generic facts on lists, maps and
  machine integers its components share, and the Go \<open>int64\<close> arithmetic (two's complement
  wrap-around, division truncated towards zero) that the services compute with.
\<close>

section \<open>Rule collections\<close>

named_theorems go_defs \<open>definitions of the Go library functions\<close>
named_theorems key_simps \<open>the Redis key namespace: which keys are different\<close>
named_theorems script_refines \<open>what each Lua script does to the waiting room\<close>
named_theorems room_inv \<open>operations that keep the waiting-room invariant\<close>

section \<open>Lists\<close>

text \<open>The place of the first occurrence of \<open>x\<close>, counted from 0.\<close>

fun index_of :: "'a \<Rightarrow> 'a list \<Rightarrow> nat option" where
  "index_of x [] = None"
| "index_of x (y # ys) = (if y = x then Some 0 else map_option Suc (index_of x ys))"

lemma index_of_None [simp]: "index_of x xs = None \<longleftrightarrow> x \<notin> set xs"
  by (induction xs) auto

lemma index_of_Some_nth: "index_of x xs = Some i \<Longrightarrow> i < length xs \<and> xs ! i = x"
  by (induction xs arbitrary: i) (auto split: if_splits)

lemma index_of_Some_first: "index_of x xs = Some i \<Longrightarrow> j < i \<Longrightarrow> xs ! j \<noteq> x"
proof (induction xs arbitrary: i j)
  case (Cons y ys)
  then show ?case by (cases j) (auto split: if_splits)
qed simp

lemma index_of_append:
  "index_of x (xs @ ys) =
     (if x \<in> set xs then index_of x xs else map_option (\<lambda>i. length xs + i) (index_of x ys))"
proof (induction xs)
  case Nil
  show ?case by (simp add: map_option_idI)
next
  case (Cons z zs)
  then show ?case by (auto simp: option.map_comp o_def)
qed

text \<open>Deleting another element never moves \<open>x\<close> back.\<close>

lemma index_of_remove1:
  "y \<noteq> x \<Longrightarrow> index_of x xs = Some i \<Longrightarrow>
     \<exists>j \<le> i. index_of x (remove1 y xs) = Some j"
proof (induction xs arbitrary: i)
  case (Cons z zs)
  show ?case
  proof (cases "z = x")
    case True
    with Cons.prems show ?thesis by auto
  next
    case False
    with Cons.prems obtain i' where i': "index_of x zs = Some i'" "i = Suc i'" by auto
    from Cons.IH [OF Cons.prems(1) i'(1)]
    obtain j where "j \<le> i'" "index_of x (remove1 y zs) = Some j" by blast
    with i' False show ?thesis by auto
  qed
qed simp

lemma index_of_filter:
  "P x \<Longrightarrow> index_of x xs = Some i \<Longrightarrow> \<exists>j \<le> i. index_of x (filter P xs) = Some j"
proof (induction xs arbitrary: i)
  case (Cons z zs)
  show ?case
  proof (cases "z = x")
    case True
    with Cons.prems show ?thesis by auto
  next
    case False
    with Cons.prems obtain i' where i': "index_of x zs = Some i'" "i = Suc i'" by auto
    from Cons.IH [OF Cons.prems(1) i'(1)] i' False show ?thesis by fastforce
  qed
qed simp

lemma index_of_tl:
  "index_of x (y # ys) = Some i \<Longrightarrow> y \<noteq> x \<Longrightarrow> \<exists>j. index_of x ys = Some j \<and> i = Suc j"
  by auto

lemma length_remove1_less [simp]: "x \<in> set xs \<Longrightarrow> length (remove1 x xs) < length xs"
  using length_pos_if_in_set [of x xs] by (simp add: length_remove1)

text \<open>Removing every rejected occurrence one at a time filters the list.\<close>

lemma fold_remove1_Cons: "x \<notin> set ys \<Longrightarrow> fold remove1 ys (x # zs) = x # fold remove1 ys zs"
  by (induction ys arbitrary: zs) auto

lemma fold_remove1_filter: "fold remove1 (filter (\<lambda>x. \<not> P x) xs) xs = filter P xs"
  by (induction xs) (auto simp: fold_remove1_Cons)

lemma find_SomeD: "find P xs = Some y \<Longrightarrow> y \<in> set xs \<and> P y"
  by (auto simp: find_Some_iff)

section \<open>Machine integers\<close>

text \<open>
  Go's \<open>int\<close> and \<open>int64\<close> are 64 bits wide on the platforms the images are built for. A value
  is an \<open>int\<close> in that range, and \<open>wrap64\<close> is what the hardware keeps of a result.
\<close>

definition wrap64 :: "int \<Rightarrow> int" where
  "wrap64 x = (x + 2 ^ 63) mod 2 ^ 64 - 2 ^ 63"

definition in_int64 :: "int \<Rightarrow> bool" where
  "in_int64 x \<longleftrightarrow> - (2 ^ 63) \<le> x \<and> x < 2 ^ 63"

lemma wrap64_sint: "sint (word_of_int x :: 64 word) = wrap64 x"
  by (simp add: sint_sbintrunc' signed_take_bit_eq_take_bit_shift take_bit_eq_mod wrap64_def)

lemma wrap64_id [simp]: "in_int64 x \<Longrightarrow> wrap64 x = x"
  by (simp add: wrap64_def in_int64_def)

lemma wrap64_range [simp]: "in_int64 (wrap64 x)"
  by (simp add: wrap64_def in_int64_def pos_mod_bound [of "2 ^ 64", simplified])

lemma wrap64_cong: "x mod 2 ^ 64 = y mod 2 ^ 64 \<Longrightarrow> wrap64 x = wrap64 y"
  unfolding wrap64_def by (metis mod_add_left_eq)

lemma wrap64_mod: "wrap64 x mod 2 ^ 64 = x mod 2 ^ 64"
  unfolding wrap64_def by (metis add_diff_cancel_right' mod_diff_left_eq)

lemma wrap64_add_left [simp]: "wrap64 (wrap64 x + y) = wrap64 (x + y)"
  by (rule wrap64_cong) (metis mod_add_left_eq wrap64_mod)

text \<open>Go's \<open>/\<close> on integers truncates towards zero.\<close>

definition go_div :: "int \<Rightarrow> int \<Rightarrow> int" where
  "go_div a b = sgn a * sgn b * (\<bar>a\<bar> div \<bar>b\<bar>)"

lemma go_div_nonneg [simp]: "0 \<le> a \<Longrightarrow> 0 < b \<Longrightarrow> go_div a b = a div b"
  by (auto simp: go_div_def sgn_if)

end
