(* ===== verification/GoLib.thy ===== *)
theory GoLib
  imports Prelude
begin

text \<open>
  What the services use of Go's standard library on strings and numbers: \<open>strings\<close>
  (HasPrefix, TrimPrefix, Count, Join, TrimSpace, ToLower), \<open>strconv\<close> (ParseInt, Atoi,
  FormatInt) and the \<open>%06d\<close> of \<open>fmt\<close>. A Go string is a byte sequence, so it is a
  \<open>string\<close> of one \<open>char\<close> per byte.
\<close>

section \<open>strings\<close>

definition HasPrefix :: "string \<Rightarrow> string \<Rightarrow> bool" where
  "HasPrefix s p \<longleftrightarrow> take (length p) s = p"

definition TrimPrefix :: "string \<Rightarrow> string \<Rightarrow> string" where
  "TrimPrefix s p = (if HasPrefix s p then drop (length p) s else s)"

lemma HasPrefix_append [simp]: "HasPrefix (p @ s) p"
  by (simp add: HasPrefix_def)

lemma TrimPrefix_append [simp]: "TrimPrefix (p @ s) p = s"
  by (simp add: TrimPrefix_def)

lemma HasPrefix_iff: "HasPrefix s p \<longleftrightarrow> (\<exists>r. s = p @ r)"
  by (metis HasPrefix_def append_eq_conv_conj append_take_drop_id)

lemma TrimPrefix_split: "HasPrefix s p \<Longrightarrow> s = p @ TrimPrefix s p"
  by (auto simp: HasPrefix_iff)

text \<open>\<open>strings.Count\<close> for a one-byte separator.\<close>

definition CountByte :: "string \<Rightarrow> char \<Rightarrow> nat" where
  "CountByte s c = length (filter (\<lambda>x. x = c) s)"

fun Join :: "string list \<Rightarrow> string \<Rightarrow> string" where
  "Join [] sep = []"
| "Join [x] sep = x"
| "Join (x # y # ys) sep = x @ sep @ Join (y # ys) sep"

definition lower_byte :: "char \<Rightarrow> char" where
  "lower_byte c = (let n = of_char c :: nat in if 65 \<le> n \<and> n \<le> 90 then char_of (n + 32) else c)"

text \<open>\<open>strings.ToLower\<close> on ASCII strings.\<close>

definition ToLower :: "string \<Rightarrow> string" where
  "ToLower s = map lower_byte s"

text \<open>
  \<open>strings.TrimSpace\<close> cuts Unicode white space at both ends; these are the UTF-8 encodings
  of its 25 code points.
\<close>

definition byte_str :: "nat list \<Rightarrow> string" where
  "byte_str ns = map char_of ns"

definition white_space :: "string list" where
  "white_space =
     map byte_str ([[9], [10], [11], [12], [13], [32], [194, 133], [194, 160], [225, 154, 128]]
       @ map (\<lambda>n. [226, 128, n]) [128, 129, 130, 131, 132, 133, 134, 135, 136, 137, 138, 168, 169, 175]
       @ [[226, 129, 159], [227, 128, 128]])"

fun trim_left :: "nat \<Rightarrow> string list \<Rightarrow> string \<Rightarrow> string" where
  "trim_left 0 ws s = s"
| "trim_left (Suc n) ws s =
     (case find (HasPrefix s) ws of None \<Rightarrow> s | Some w \<Rightarrow> trim_left n ws (drop (length w) s))"

definition TrimSpace :: "string \<Rightarrow> string" where
  "TrimSpace s =
     (let l = trim_left (length s) white_space s
      in rev (trim_left (length l) (map rev white_space) (rev l)))"

section \<open>strconv\<close>

definition is_digit :: "char \<Rightarrow> bool" where
  "is_digit c \<longleftrightarrow> 48 \<le> (of_char c :: nat) \<and> (of_char c :: nat) \<le> 57"

definition digit_val :: "char \<Rightarrow> int" where
  "digit_val c = int (of_char c) - 48"

definition digits_val :: "string \<Rightarrow> int" where
  "digits_val ds = foldl (\<lambda>a c. 10 * a + digit_val c) 0 ds"

text \<open>
  \<open>strconv.ParseInt(s, 10, 64)\<close>, which \<open>strconv.Atoi\<close> agrees with on 64-bit platforms:
  an optional sign, at least one decimal digit, nothing else, and a value in range.
\<close>

definition ParseInt :: "string \<Rightarrow> int option" where
  "ParseInt s =
     (let neg = (take 1 s = ''-'');
          ds = (if neg \<or> take 1 s = ''+'' then drop 1 s else s);
          n = (if neg then - digits_val ds else digits_val ds)
      in if ds = [] \<or> \<not> list_all is_digit ds \<or> \<not> in_int64 n then None else Some n)"

definition digit_char :: "nat \<Rightarrow> char" where
  "digit_char d = char_of (48 + d)"

fun dec_nat :: "nat \<Rightarrow> string" where
  "dec_nat n = (if n < 10 then [digit_char n] else dec_nat (n div 10) @ [digit_char (n mod 10)])"

declare dec_nat.simps [simp del]

text \<open>\<open>strconv.FormatInt(n, 10)\<close> and \<open>strconv.Itoa\<close>.\<close>

definition FormatInt :: "int \<Rightarrow> string" where
  "FormatInt n = (if n < 0 then ''-'' @ dec_nat (nat (- n)) else dec_nat (nat n))"

text \<open>\<open>fmt.Sprintf("%06d", n)\<close> for a number that is not negative.\<close>

definition Sprintf_06d :: "nat \<Rightarrow> string" where
  "Sprintf_06d n = (let ds = dec_nat n in replicate (6 - length ds) CHR ''0'' @ ds)"

subsection \<open>Printing and parsing decimal numbers\<close>

lemma digit_char_simps [simp]:
  "d < 10 \<Longrightarrow> is_digit (digit_char d)"
  "d < 10 \<Longrightarrow> digit_val (digit_char d) = int d"
  by (simp_all add: is_digit_def digit_val_def digit_char_def)

lemma dec_nat_digits: "list_all is_digit (dec_nat n)"
proof (induction n rule: dec_nat.induct)
  case (1 n)
  then show ?case by (subst dec_nat.simps) auto
qed

lemma dec_nat_nonempty [simp]: "dec_nat n \<noteq> []"
  by (subst dec_nat.simps) simp

lemma digits_val_snoc: "digits_val (ds @ [c]) = 10 * digits_val ds + digit_val c"
  by (simp add: digits_val_def)

lemma digits_val_dec_nat: "digits_val (dec_nat n) = int n"
proof (induction n rule: dec_nat.induct)
  case (1 n)
  show ?case
  proof (cases "n < 10")
    case True
    then show ?thesis by (subst dec_nat.simps) (simp add: digits_val_def)
  next
    case False
    have "10 * int (n div 10) + int (n mod 10) = int n" by presburger
    with False "1.IH" show ?thesis
      by (subst dec_nat.simps) (simp add: digits_val_snoc)
  qed
qed

lemma hd_dec_nat_digit: "is_digit (hd (dec_nat n))"
  using dec_nat_digits [of n] by (cases "dec_nat n") auto

lemma dec_nat_no_sign: "take 1 (dec_nat n) \<noteq> ''-''" "take 1 (dec_nat n) \<noteq> ''+''"
  using hd_dec_nat_digit [of n] by (cases "dec_nat n"; auto simp: is_digit_def)+

theorem ParseInt_FormatInt: "in_int64 n \<Longrightarrow> ParseInt (FormatInt n) = Some n"
  using dec_nat_no_sign [of "nat n"] dec_nat_digits
  by (auto simp: ParseInt_def FormatInt_def Let_def digits_val_dec_nat)

lemma ParseInt_range: "ParseInt s = Some n \<Longrightarrow> in_int64 n"
  by (auto simp: ParseInt_def Let_def split: if_splits)

lemma length_dec_nat: "n < 10 ^ Suc k \<Longrightarrow> length (dec_nat n) \<le> Suc k"
proof (induction k arbitrary: n)
  case 0
  then show ?case by (subst dec_nat.simps) simp
next
  case (Suc k)
  then have "n div 10 < 10 ^ Suc k" by (simp add: div_less_iff_less_mult)
  with Suc.IH show ?case by (subst dec_nat.simps) simp
qed

lemma length_Sprintf_06d: "n < 10 ^ 6 \<Longrightarrow> length (Sprintf_06d n) = 6"
  using length_dec_nat [of n 5] by (simp add: Sprintf_06d_def Let_def)

text \<open>\<open>strings.Split\<close> for a one-byte separator.\<close>

fun Split :: "string \<Rightarrow> char \<Rightarrow> string list" where
  "Split [] sep = [[]]"
| "Split (c # s) sep =
     (if c = sep then [] # Split s sep
      else case Split s sep of [] \<Rightarrow> [[c]] | p # ps \<Rightarrow> (c # p) # ps)"

end
