(* ===== verification/Redis.thy ===== *)
theory Redis
  imports GoLib "HOL-Library.AList"
begin

text \<open>
  The Redis server is not part of the repository, so it is a parameter: a record of the
  commands the queue service sends, over an abstract server state \<open>'db\<close>. The locale
  \<open>redis_server\<close> states the documented behaviour of each command over a view of the keyspace
  (typed values with an optional remaining time to live). The last section interprets it with
  an executable in-memory keyspace, which the witnesses run on.
\<close>

section \<open>The commands\<close>

record 'db redis =
  GET :: "'db \<Rightarrow> string \<Rightarrow> string option"
  SET :: "'db \<Rightarrow> string \<Rightarrow> string \<Rightarrow> nat option \<Rightarrow> 'db"
  SETNX :: "'db \<Rightarrow> string \<Rightarrow> string \<Rightarrow> 'db"
  DEL :: "'db \<Rightarrow> string \<Rightarrow> 'db"
  EXISTS :: "'db \<Rightarrow> string \<Rightarrow> bool"
  EXPIRE :: "'db \<Rightarrow> string \<Rightarrow> nat \<Rightarrow> 'db"
  SADD :: "'db \<Rightarrow> string \<Rightarrow> string \<Rightarrow> 'db"
  SREM :: "'db \<Rightarrow> string \<Rightarrow> string \<Rightarrow> 'db \<times> int"
  SCARD :: "'db \<Rightarrow> string \<Rightarrow> int"
  SISMEMBER :: "'db \<Rightarrow> string \<Rightarrow> string \<Rightarrow> bool"
  SMEMBERS :: "'db \<Rightarrow> string \<Rightarrow> string list"
  SPOP :: "'db \<Rightarrow> string \<Rightarrow> 'db \<times> string option"
  LPUSH :: "'db \<Rightarrow> string \<Rightarrow> string \<Rightarrow> 'db"
  RPUSH :: "'db \<Rightarrow> string \<Rightarrow> string \<Rightarrow> 'db"
  LPOP :: "'db \<Rightarrow> string \<Rightarrow> 'db \<times> string option"
  LREM :: "'db \<Rightarrow> string \<Rightarrow> int \<Rightarrow> string \<Rightarrow> 'db"
  LTRIM :: "'db \<Rightarrow> string \<Rightarrow> int \<Rightarrow> int \<Rightarrow> 'db"
  LRANGE :: "'db \<Rightarrow> string \<Rightarrow> int \<Rightarrow> int \<Rightarrow> string list"
  LLEN :: "'db \<Rightarrow> string \<Rightarrow> int"
  HGET :: "'db \<Rightarrow> string \<Rightarrow> string \<Rightarrow> string option"
  HSET :: "'db \<Rightarrow> string \<Rightarrow> (string \<times> string) list \<Rightarrow> 'db"
  HEXISTS :: "'db \<Rightarrow> string \<Rightarrow> string \<Rightarrow> bool"
  ELAPSE :: "'db \<Rightarrow> nat \<Rightarrow> 'db"

section \<open>The keyspace the commands are documented on\<close>

datatype rvalue =
    RString string
  | RList "string list"
  | RSet "string set"
  | RHash "string \<rightharpoonup> string"

datatype rkind = KString | KList | KSet | KHash

fun kind_of :: "rvalue \<Rightarrow> rkind" where
  "kind_of (RString _) = KString"
| "kind_of (RList _) = KList"
| "kind_of (RSet _) = KSet"
| "kind_of (RHash _) = KHash"

type_synonym keyspace = "string \<rightharpoonup> rvalue \<times> nat option"

definition typed :: "keyspace \<Rightarrow> string \<Rightarrow> rkind \<Rightarrow> bool" where
  "typed v k K \<longleftrightarrow> (case v k of None \<Rightarrow> True | Some (x, _) \<Rightarrow> kind_of x = K)"

definition ttl_at :: "keyspace \<Rightarrow> string \<Rightarrow> nat option" where
  "ttl_at v k = (case v k of None \<Rightarrow> None | Some (_, t) \<Rightarrow> t)"

definition str_at :: "keyspace \<Rightarrow> string \<Rightarrow> string option" where
  "str_at v k = (case v k of Some (RString s, _) \<Rightarrow> Some s | _ \<Rightarrow> None)"

definition list_at :: "keyspace \<Rightarrow> string \<Rightarrow> string list" where
  "list_at v k = (case v k of Some (RList xs, _) \<Rightarrow> xs | _ \<Rightarrow> [])"

definition set_at :: "keyspace \<Rightarrow> string \<Rightarrow> string set" where
  "set_at v k = (case v k of Some (RSet X, _) \<Rightarrow> X | _ \<Rightarrow> {})"

definition hash_at :: "keyspace \<Rightarrow> string \<Rightarrow> string \<rightharpoonup> string" where
  "hash_at v k = (case v k of Some (RHash h, _) \<Rightarrow> h | _ \<Rightarrow> Map.empty)"

text \<open>A collection that becomes empty is removed, and writing keeps a key's time to live.\<close>

definition put_list :: "keyspace \<Rightarrow> string \<Rightarrow> string list \<Rightarrow> keyspace" where
  "put_list v k xs = v(k := if xs = [] then None else Some (RList xs, ttl_at v k))"

definition put_set :: "keyspace \<Rightarrow> string \<Rightarrow> string set \<Rightarrow> keyspace" where
  "put_set v k X = v(k := if X = {} then None else Some (RSet X, ttl_at v k))"

definition put_hash :: "keyspace \<Rightarrow> string \<Rightarrow> (string \<rightharpoonup> string) \<Rightarrow> keyspace" where
  "put_hash v k h = v(k \<mapsto> (RHash h, ttl_at v k))"

definition set_ttl :: "keyspace \<Rightarrow> string \<Rightarrow> nat \<Rightarrow> keyspace" where
  "set_ttl v k t = v(k := map_option (\<lambda>e. (fst e, Some t)) (v k))"

text \<open>\<open>age n\<close> lets \<open>n\<close> seconds pass: a key whose time to live is over is gone.\<close>

definition age :: "nat \<Rightarrow> keyspace \<Rightarrow> keyspace" where
  "age n v = (\<lambda>k. case v k of
      None \<Rightarrow> None
    | Some (x, None) \<Rightarrow> Some (x, None)
    | Some (x, Some t) \<Rightarrow> if t \<le> n then None else Some (x, Some (t - n)))"

subsection \<open>Reading after writing\<close>

named_theorems keyspace_simps \<open>reading a keyspace after a write\<close>

lemma at_cong [keyspace_simps]:
  "k' \<noteq> k \<Longrightarrow> put_list v k xs k' = v k'"
  "k' \<noteq> k \<Longrightarrow> put_set v k X k' = v k'"
  "k' \<noteq> k \<Longrightarrow> put_hash v k h k' = v k'"
  "k' \<noteq> k \<Longrightarrow> set_ttl v k t k' = v k'"
  by (simp_all add: put_list_def put_set_def put_hash_def set_ttl_def)

lemma at_eq_cong:
  assumes "v k = v' k"
  shows "str_at v k = str_at v' k" "list_at v k = list_at v' k" "set_at v k = set_at v' k"
    "hash_at v k = hash_at v' k" "typed v k K = typed v' k K" "ttl_at v k = ttl_at v' k"
  using assms by (simp_all add: str_at_def list_at_def set_at_def hash_at_def typed_def ttl_at_def)

lemma list_at_put [keyspace_simps]: "list_at (put_list v k xs) k = xs"
  by (simp add: list_at_def put_list_def)

lemma set_at_put [keyspace_simps]: "set_at (put_set v k X) k = X"
  by (simp add: set_at_def put_set_def)

lemma hash_at_put [keyspace_simps]: "hash_at (put_hash v k h) k = h"
  by (simp add: hash_at_def put_hash_def)

lemma hash_at_set_ttl [keyspace_simps]: "hash_at (set_ttl v k t) k = hash_at v k"
  by (auto simp: hash_at_def set_ttl_def split: option.splits prod.splits rvalue.splits)

lemma str_at_upd [keyspace_simps]: "str_at (v(k \<mapsto> (RString s, t))) k = Some s"
  by (simp add: str_at_def)

lemma at_del [keyspace_simps]:
  "list_at (v(k := None)) k = []" "set_at (v(k := None)) k = {}"
  "hash_at (v(k := None)) k = Map.empty" "str_at (v(k := None)) k = None"
  by (simp_all add: list_at_def set_at_def hash_at_def str_at_def)

lemma typed_put [keyspace_simps]:
  "typed (put_list v k xs) k KList" "typed (put_set v k X) k KSet"
  "typed (put_hash v k h) k KHash" "typed (v(k \<mapsto> (RString s, t))) k KString"
  "typed (v(k := None)) k K" "typed (set_ttl v k n) k K = typed v k K"
  by (auto simp: typed_def put_list_def put_set_def put_hash_def set_ttl_def
      split: option.splits prod.splits)

lemma age_typed [simp]: "typed v k K \<Longrightarrow> typed (age n v) k K"
  by (auto simp: typed_def age_def split: option.splits prod.splits)

lemma age_no_ttl: "ttl_at v k = None \<Longrightarrow> age n v k = v k"
  by (auto simp: ttl_at_def age_def split: option.splits prod.splits)

lemma frame_put [keyspace_simps]:
  assumes "k' \<noteq> k"
  shows
    "list_at (put_list v k xs) k' = list_at v k'" "list_at (put_set v k X) k' = list_at v k'"
    "list_at (put_hash v k h) k' = list_at v k'" "list_at (set_ttl v k n) k' = list_at v k'"
    "list_at (v(k := e)) k' = list_at v k'"
    "set_at (put_list v k xs) k' = set_at v k'" "set_at (put_set v k X) k' = set_at v k'"
    "set_at (put_hash v k h) k' = set_at v k'" "set_at (set_ttl v k n) k' = set_at v k'"
    "set_at (v(k := e)) k' = set_at v k'"
    "hash_at (put_list v k xs) k' = hash_at v k'" "hash_at (put_set v k X) k' = hash_at v k'"
    "hash_at (put_hash v k h) k' = hash_at v k'" "hash_at (set_ttl v k n) k' = hash_at v k'"
    "hash_at (v(k := e)) k' = hash_at v k'"
    "str_at (put_list v k xs) k' = str_at v k'" "str_at (put_set v k X) k' = str_at v k'"
    "str_at (put_hash v k h) k' = str_at v k'" "str_at (set_ttl v k n) k' = str_at v k'"
    "str_at (v(k := e)) k' = str_at v k'"
    "typed (put_list v k xs) k' K = typed v k' K" "typed (put_set v k X) k' K = typed v k' K"
    "typed (put_hash v k h) k' K = typed v k' K" "typed (set_ttl v k n) k' K = typed v k' K"
    "typed (v(k := e)) k' K = typed v k' K"
    "ttl_at (put_list v k xs) k' = ttl_at v k'" "ttl_at (put_set v k X) k' = ttl_at v k'"
    "ttl_at (put_hash v k h) k' = ttl_at v k'" "ttl_at (set_ttl v k n) k' = ttl_at v k'"
    "ttl_at (v(k := e)) k' = ttl_at v k'"
  using assms
  by (simp_all add: list_at_def set_at_def hash_at_def str_at_def typed_def ttl_at_def
      put_list_def put_set_def put_hash_def set_ttl_def)

section \<open>What the commands are documented to do\<close>

locale redis_server =
  fixes R :: "'db redis"
    and view :: "'db \<Rightarrow> keyspace"
  assumes get: "typed (view db) k KString \<Longrightarrow> GET R db k = str_at (view db) k"
    and set: "view (SET R db k s t) = (view db)(k \<mapsto> (RString s, t))"
    and setnx: "view (SETNX R db k s) =
        (if view db k = None then (view db)(k \<mapsto> (RString s, None)) else view db)"
    and del: "view (DEL R db k) = (view db)(k := None)"
    and exists: "EXISTS R db k \<longleftrightarrow> view db k \<noteq> None"
    and expire: "view (EXPIRE R db k secs) = set_ttl (view db) k secs"
    and sadd: "typed (view db) k KSet \<Longrightarrow>
        view (SADD R db k x) = put_set (view db) k (insert x (set_at (view db) k))"
    and srem: "typed (view db) k KSet \<Longrightarrow>
        view (fst (SREM R db k x)) = put_set (view db) k (set_at (view db) k - {x})"
    and srem_reply: "typed (view db) k KSet \<Longrightarrow>
        snd (SREM R db k x) = (if x \<in> set_at (view db) k then 1 else 0)"
    and scard: "typed (view db) k KSet \<Longrightarrow> SCARD R db k = int (card (set_at (view db) k))"
    and sismember: "typed (view db) k KSet \<Longrightarrow> SISMEMBER R db k x \<longleftrightarrow> x \<in> set_at (view db) k"
    and smembers: "typed (view db) k KSet \<Longrightarrow>
        set (SMEMBERS R db k) = set_at (view db) k \<and> distinct (SMEMBERS R db k)"
    and spop: "typed (view db) k KSet \<Longrightarrow>
        (case snd (SPOP R db k) of
           None \<Rightarrow> set_at (view db) k = {} \<and> view (fst (SPOP R db k)) = view db
         | Some x \<Rightarrow> x \<in> set_at (view db) k \<and>
             view (fst (SPOP R db k)) = put_set (view db) k (set_at (view db) k - {x}))"
    and finite_set: "finite (set_at (view db) k)"
    and lpush: "typed (view db) k KList \<Longrightarrow>
        view (LPUSH R db k x) = put_list (view db) k (x # list_at (view db) k)"
    and rpush: "typed (view db) k KList \<Longrightarrow>
        view (RPUSH R db k x) = put_list (view db) k (list_at (view db) k @ [x])"
    and lpop: "typed (view db) k KList \<Longrightarrow>
        view (fst (LPOP R db k)) = put_list (view db) k (tl (list_at (view db) k))"
    and lpop_reply: "typed (view db) k KList \<Longrightarrow>
        snd (LPOP R db k) = (case list_at (view db) k of [] \<Rightarrow> None | x # _ \<Rightarrow> Some x)"
    and lrem_one: "typed (view db) k KList \<Longrightarrow>
        view (LREM R db k 1 x) = put_list (view db) k (remove1 x (list_at (view db) k))"
    and ltrim: "typed (view db) k KList \<Longrightarrow> 0 \<le> stop \<Longrightarrow>
        view (LTRIM R db k 0 stop) = put_list (view db) k (take (Suc (nat stop)) (list_at (view db) k))"
    and lrange_all: "typed (view db) k KList \<Longrightarrow> LRANGE R db k 0 (-1) = list_at (view db) k"
    and llen: "typed (view db) k KList \<Longrightarrow> LLEN R db k = int (length (list_at (view db) k))"
    and hget: "typed (view db) k KHash \<Longrightarrow> HGET R db k f = hash_at (view db) k f"
    and hset: "typed (view db) k KHash \<Longrightarrow> fs \<noteq> [] \<Longrightarrow>
        view (HSET R db k fs) = put_hash (view db) k (hash_at (view db) k ++ map_of (rev fs))"
    and hexists: "typed (view db) k KHash \<Longrightarrow> HEXISTS R db k f \<longleftrightarrow> hash_at (view db) k f \<noteq> None"
    and elapse: "view (ELAPSE R db n) = age n (view db)"
begin

lemmas commands = get set setnx del exists expire sadd srem srem_reply scard sismember
  finite_set lpush rpush lpop lpop_reply lrem_one ltrim lrange_all llen hget hset hexists elapse

lemma spop_None:
  "typed (view db) k KSet \<Longrightarrow> SPOP R db k = (db', None) \<Longrightarrow>
     set_at (view db) k = {} \<and> view db' = view db"
  using spop [of db k] by simp

lemma spop_Some:
  "typed (view db) k KSet \<Longrightarrow> SPOP R db k = (db', Some x) \<Longrightarrow>
     x \<in> set_at (view db) k \<and> view db' = put_set (view db) k (set_at (view db) k - {x})"
  using spop [of db k] by simp

end

section \<open>An in-memory keyspace\<close>

datatype mvalue = MString string | MList "string list" | MSet "string list"
  | MHash "(string \<times> string) list"

text \<open>The keyspace is an association list, so that evaluating a run keeps it in normal form.\<close>

type_synonym mem = "(string \<times> mvalue \<times> nat option) list"

fun value_of :: "mvalue \<Rightarrow> rvalue" where
  "value_of (MString s) = RString s"
| "value_of (MList xs) = RList xs"
| "value_of (MSet xs) = RSet (set xs)"
| "value_of (MHash h) = RHash (map_of h)"

definition mem_view :: "mem \<Rightarrow> keyspace" where
  "mem_view m = (\<lambda>k. map_option (\<lambda>(x, t). (value_of x, t)) (map_of m k))"

definition m_ttl :: "mem \<Rightarrow> string \<Rightarrow> nat option" where
  "m_ttl m k = (case map_of m k of None \<Rightarrow> None | Some (_, t) \<Rightarrow> t)"

definition m_list :: "mem \<Rightarrow> string \<Rightarrow> string list" where
  "m_list m k = (case map_of m k of Some (MList xs, _) \<Rightarrow> xs | _ \<Rightarrow> [])"

definition m_set :: "mem \<Rightarrow> string \<Rightarrow> string list" where
  "m_set m k = (case map_of m k of Some (MSet xs, _) \<Rightarrow> xs | _ \<Rightarrow> [])"

definition m_hash :: "mem \<Rightarrow> string \<Rightarrow> (string \<times> string) list" where
  "m_hash m k = (case map_of m k of Some (MHash h, _) \<Rightarrow> h | _ \<Rightarrow> [])"

definition m_put_list :: "mem \<Rightarrow> string \<Rightarrow> string list \<Rightarrow> mem" where
  "m_put_list m k xs =
     (if xs = [] then AList.delete k m else AList.update k (MList xs, m_ttl m k) m)"

definition m_put_set :: "mem \<Rightarrow> string \<Rightarrow> string list \<Rightarrow> mem" where
  "m_put_set m k xs =
     (if xs = [] then AList.delete k m else AList.update k (MSet xs, m_ttl m k) m)"

definition m_aged :: "nat \<Rightarrow> mvalue \<times> nat option \<Rightarrow> (mvalue \<times> nat option) option" where
  "m_aged n e = (case snd e of None \<Rightarrow> Some e
     | Some t \<Rightarrow> if t \<le> n then None else Some (fst e, Some (t - n)))"

definition mem_redis :: "mem redis" where
  "mem_redis = \<lparr>
     GET = (\<lambda>m k. case map_of m k of Some (MString s, _) \<Rightarrow> Some s | _ \<Rightarrow> None),
     SET = (\<lambda>m k s t. AList.update k (MString s, t) m),
     SETNX = (\<lambda>m k s. case map_of m k of None \<Rightarrow> AList.update k (MString s, None) m | Some _ \<Rightarrow> m),
     DEL = (\<lambda>m k. AList.delete k m),
     EXISTS = (\<lambda>m k. case map_of m k of None \<Rightarrow> False | Some _ \<Rightarrow> True),
     EXPIRE = (\<lambda>m k t. case map_of m k of None \<Rightarrow> m | Some e \<Rightarrow> AList.update k (fst e, Some t) m),
     SADD = (\<lambda>m k x. m_put_set m k (List.insert x (m_set m k))),
     SREM = (\<lambda>m k x. (m_put_set m k (filter (\<lambda>y. y \<noteq> x) (m_set m k)),
                       if x \<in> set (m_set m k) then 1 else 0)),
     SCARD = (\<lambda>m k. int (length (remdups (m_set m k)))),
     SISMEMBER = (\<lambda>m k x. x \<in> set (m_set m k)),
     SMEMBERS = (\<lambda>m k. remdups (m_set m k)),
     SPOP = (\<lambda>m k. case m_set m k of [] \<Rightarrow> (m, None)
                     | x # xs \<Rightarrow> (m_put_set m k (filter (\<lambda>y. y \<noteq> x) xs), Some x)),
     LPUSH = (\<lambda>m k x. m_put_list m k (x # m_list m k)),
     RPUSH = (\<lambda>m k x. m_put_list m k (m_list m k @ [x])),
     LPOP = (\<lambda>m k. (m_put_list m k (tl (m_list m k)),
                     case m_list m k of [] \<Rightarrow> None | x # _ \<Rightarrow> Some x)),
     LREM = (\<lambda>m k n x. if n = 1 then m_put_list m k (remove1 x (m_list m k)) else m),
     LTRIM = (\<lambda>m k i j. m_put_list m k (drop (nat i) (take (Suc (nat j)) (m_list m k)))),
     LRANGE = (\<lambda>m k i j. if j = -1 then drop (nat i) (m_list m k)
                         else drop (nat i) (take (Suc (nat j)) (m_list m k))),
     LLEN = (\<lambda>m k. int (length (m_list m k))),
     HGET = (\<lambda>m k f. map_of (m_hash m k) f),
     HSET = (\<lambda>m k fs. AList.update k (MHash (rev fs @ m_hash m k), m_ttl m k) m),
     HEXISTS = (\<lambda>m k f. case map_of (m_hash m k) f of None \<Rightarrow> False | Some _ \<Rightarrow> True),
     ELAPSE = (\<lambda>m n. List.map_filter
        (\<lambda>(k, _). map_option (Pair k) (Option.bind (map_of m k) (m_aged n))) m)\<rparr>"

lemma mem_view_at [simp]:
  "ttl_at (mem_view m) k = m_ttl m k"
  "list_at (mem_view m) k = m_list m k"
  "hash_at (mem_view m) k = map_of (m_hash m k)"
  by (simp_all add: ttl_at_def m_ttl_def list_at_def m_list_def hash_at_def
      m_hash_def mem_view_def split: option.split prod.split mvalue.split)

lemma mem_view_set_at [simp]: "set_at (mem_view m) k = set (m_set m k)"
proof (cases "map_of m k")
  case None
  then show ?thesis by (simp add: set_at_def m_set_def mem_view_def)
next
  case (Some e)
  then show ?thesis
    by (cases e; cases "fst e") (simp_all add: set_at_def m_set_def mem_view_def)
qed

lemma mem_view_upd [simp]:
  "mem_view (AList.update k (x, t) m) = (mem_view m)(k \<mapsto> (value_of x, t))"
  "mem_view (AList.delete k m) = (mem_view m)(k := None)"
  by (simp_all add: mem_view_def fun_eq_iff update_conv' delete_conv')

lemma mem_view_put [simp]:
  "mem_view (m_put_list m k xs) = put_list (mem_view m) k xs"
  "mem_view (m_put_set m k xs) = put_set (mem_view m) k (set xs)"
  by (simp_all add: m_put_list_def m_put_set_def put_list_def put_set_def)

lemma mem_view_None [simp]: "mem_view m k = None \<longleftrightarrow> map_of m k = None"
  by (simp add: mem_view_def)

lemma map_of_map_filter:
  "map_of (List.map_filter (\<lambda>(k, _). map_option (Pair k) (g k)) m) k =
     (if k \<in> fst ` set m then g k else None)"
  by (induction m) (auto simp: map_filter_simps split: option.splits)

lemma mem_elapse: "mem_view (ELAPSE mem_redis m n) k = age n (mem_view m) k"
proof (cases "map_of m k")
  case None
  then show ?thesis
    by (simp add: mem_redis_def mem_view_def map_of_map_filter age_def)
next
  case (Some e)
  then have "k \<in> fst ` set m"
    by (metis map_of_eq_None_iff option.distinct(1))
  with Some show ?thesis
    by (cases e; cases "snd e")
      (simp_all add: mem_redis_def mem_view_def map_of_map_filter age_def m_aged_def)
qed

interpretation memdb: redis_server mem_redis mem_view
proof (unfold_locales, goal_cases)
  case (1 db k)
  then show ?case
    by (auto simp: mem_redis_def str_at_def typed_def mem_view_def
        split: option.splits prod.splits mvalue.splits)
next
  case (6 db k t)
  show ?case
    by (auto simp: mem_redis_def mem_view_def set_ttl_def fun_eq_iff update_conv'
        split: option.splits)
next
  case (13 db k)
  show ?case by (auto simp: mem_redis_def split: list.splits intro: arg_cong [where f = "put_set _ _"])
next
  case (26 db n)
  show ?case by (simp add: mem_elapse fun_eq_iff)
qed (auto simp: mem_redis_def put_hash_def length_remdups_card_conv set_diff_eq
    intro!: arg_cong [where f = "put_set _ _"] split: option.splits)

end
