(* ===== verification/QueueScripts.thy ===== *)
theory QueueScripts
  imports Redis
begin

text \<open>
  The atomic Lua scripts of the waiting room
  (\<open>queue-based-site-access/queue-service/internal/queue/scripts.go\<close>) and the key names of
  \<open>store.go\<close>. Each script is a function on the server state, because Redis runs a script
  without interruption; the arguments are the script's KEYS and ARGV in order. A script that
  raises a Lua error replies \<open>None\<close>.
\<close>

section \<open>Keys\<close>

definition keyQueueList :: string where "keyQueueList = ''queue:list''"
definition keyActive :: string where "keyActive = ''queue:active''"
definition keyCapacity :: string where "keyCapacity = ''queue:capacity''"
definition keyHistory :: string where "keyHistory = ''queue:timing_history''"

definition heartbeatTTL :: nat where "heartbeatTTL = 30"

definition sessionKey :: "string \<Rightarrow> string" where "sessionKey sid = ''session:'' @ sid"
definition heartbeatKey :: "string \<Rightarrow> string" where "heartbeatKey sid = ''heartbeat:'' @ sid"

section \<open>The scripts\<close>

text \<open>
  Lua's \<open>tonumber\<close> on a decimal integer, the only form the service stores: \<open>nil\<close> is \<open>None\<close>,
  and comparing with it is an error.
\<close>

definition lua_tonumber :: "string \<Rightarrow> int option" where
  "lua_tonumber s = ParseInt s"

definition lua_capacity :: "'db redis \<Rightarrow> string \<Rightarrow> 'db \<Rightarrow> int option" where
  "lua_capacity R kCapacity db =
     lua_tonumber (case GET R db kCapacity of Some s \<Rightarrow> s | None \<Rightarrow> ''3'')"

definition luaTryAdmit ::
  "'db redis \<Rightarrow> string \<Rightarrow> string \<Rightarrow> string \<Rightarrow> string \<Rightarrow> string \<Rightarrow> string \<Rightarrow> 'db \<Rightarrow> 'db \<times> int option" where
  "luaTryAdmit R kCapacity kActive kSession kHistory sid now db =
     (case lua_capacity R kCapacity db of
        None \<Rightarrow> (db, None)
      | Some capacity \<Rightarrow>
          let activeCount = SCARD R db kActive
          in if activeCount \<ge> capacity then (db, Some 0)
             else let db = SADD R db kActive sid;
                      db = HSET R db kSession [(''status'', ''active''), (''admitted_at'', now)];
                      db = EXPIRE R db kSession 86400;
                      db = LPUSH R db kHistory now;
                      db = LTRIM R db kHistory 0 99
                  in (db, Some 1))"

definition luaJoinQueue ::
  "'db redis \<Rightarrow> string \<Rightarrow> string \<Rightarrow> string \<Rightarrow> string \<Rightarrow> 'db \<Rightarrow> 'db \<times> int option" where
  "luaJoinQueue R kSession kQueue sid now db =
     (let existing = HGET R db kSession ''status''
      in if existing = Some ''queued'' \<or> existing = Some ''active'' then (db, Some 0)
         else let db = RPUSH R db kQueue sid;
                  db = HSET R db kSession [(''status'', ''queued''), (''joined_at'', now)];
                  db = EXPIRE R db kSession 86400
              in (db, Some 1))"

text \<open>The body of \<open>for _ = 1, 50\<close>, with the iterations that are left.\<close>

fun luaAdmitNext_loop ::
  "nat \<Rightarrow> 'db redis \<Rightarrow> int \<Rightarrow> string \<Rightarrow> string \<Rightarrow> string \<Rightarrow> string \<Rightarrow> 'db \<Rightarrow> 'db \<times> string option" where
  "luaAdmitNext_loop 0 R capacity kActive kQueue kHistory now db = (db, None)"
| "luaAdmitNext_loop (Suc n) R capacity kActive kQueue kHistory now db =
     (if SCARD R db kActive \<ge> capacity then (db, None)
      else case LPOP R db kQueue of
             (db, None) \<Rightarrow> (db, None)
           | (db, Some sid) \<Rightarrow>
               if HEXISTS R db (''session:'' @ sid) ''status''
               then let db = SADD R db kActive sid;
                        db = HSET R db (''session:'' @ sid)
                               [(''status'', ''active''), (''admitted_at'', now)];
                        db = LPUSH R db kHistory now;
                        db = LTRIM R db kHistory 0 99
                    in (db, Some sid)
               else luaAdmitNext_loop n R capacity kActive kQueue kHistory now db)"

definition luaAdmitNext ::
  "'db redis \<Rightarrow> string \<Rightarrow> string \<Rightarrow> string \<Rightarrow> string \<Rightarrow> string \<Rightarrow> 'db \<Rightarrow> 'db \<times> string option option" where
  "luaAdmitNext R kCapacity kActive kQueue kHistory now db =
     (case lua_capacity R kCapacity db of
        None \<Rightarrow> (db, None)
      | Some capacity \<Rightarrow>
          apsnd Some (luaAdmitNext_loop 50 R capacity kActive kQueue kHistory now db))"

fun luaRelease_loop :: "nat \<Rightarrow> 'db redis \<Rightarrow> string \<Rightarrow> int \<Rightarrow> 'db \<Rightarrow> 'db \<times> int" where
  "luaRelease_loop 0 R kActive released db = (db, released)"
| "luaRelease_loop (Suc n) R kActive released db =
     (case SPOP R db kActive of
        (db, None) \<Rightarrow> (db, released)
      | (db, Some sid) \<Rightarrow>
          let db = DEL R db (''session:'' @ sid);
              db = DEL R db (''heartbeat:'' @ sid)
          in luaRelease_loop n R kActive (released + 1) db)"

definition luaRelease :: "'db redis \<Rightarrow> string \<Rightarrow> string \<Rightarrow> 'db \<Rightarrow> 'db \<times> int option" where
  "luaRelease R kActive count db =
     (case lua_tonumber count of
        None \<Rightarrow> (db, None)
      | Some n \<Rightarrow> apsnd Some (luaRelease_loop (nat n) R kActive 0 db))"

definition luaLeave :: "'db redis \<Rightarrow> string \<Rightarrow> string \<Rightarrow> string \<Rightarrow> 'db \<Rightarrow> 'db \<times> int option" where
  "luaLeave R kActive kQueue sid db =
     (let (db, wasActive) = SREM R db kActive sid;
          db = (if wasActive = 0 then LREM R db kQueue 1 sid else db);
          db = DEL R db (''session:'' @ sid);
          db = DEL R db (''heartbeat:'' @ sid)
      in (db, Some wasActive))"

fun reap_active :: "'db redis \<Rightarrow> string \<Rightarrow> string list \<Rightarrow> 'db \<Rightarrow> int \<Rightarrow> 'db \<times> int" where
  "reap_active R kActive [] db evicted = (db, evicted)"
| "reap_active R kActive (sid # sids) db evicted =
     (if \<not> EXISTS R db (''heartbeat:'' @ sid)
      then let db = fst (SREM R db kActive sid);
               db = DEL R db (''session:'' @ sid)
           in reap_active R kActive sids db (evicted + 1)
      else reap_active R kActive sids db evicted)"

fun reap_queue :: "'db redis \<Rightarrow> string \<Rightarrow> string list \<Rightarrow> 'db \<Rightarrow> int \<Rightarrow> 'db \<times> int" where
  "reap_queue R kQueue [] db evicted = (db, evicted)"
| "reap_queue R kQueue (sid # sids) db evicted =
     (if \<not> EXISTS R db (''heartbeat:'' @ sid)
      then let db = LREM R db kQueue 1 sid;
               db = DEL R db (''session:'' @ sid)
           in reap_queue R kQueue sids db (evicted + 1)
      else reap_queue R kQueue sids db evicted)"

definition luaReapStale :: "'db redis \<Rightarrow> string \<Rightarrow> string \<Rightarrow> 'db \<Rightarrow> 'db \<times> int option" where
  "luaReapStale R kActive kQueue db =
     (let (db, evicted) = reap_active R kActive (SMEMBERS R db kActive) db 0;
          (db, evicted) = reap_queue R kQueue (LRANGE R db kQueue 0 (-1)) db evicted
      in (db, Some evicted))"

section \<open>The key namespace\<close>

text \<open>
  Session identifiers come from a cookie the client controls; no identifier can make a session
  or heartbeat key collide with another kind of key.
\<close>

lemmas key_defs = keyQueueList_def keyActive_def keyCapacity_def keyHistory_def
  sessionKey_def heartbeatKey_def

lemma keys_differ [key_simps]:
  "keyQueueList \<noteq> keyActive" "keyQueueList \<noteq> keyCapacity" "keyQueueList \<noteq> keyHistory"
  "keyActive \<noteq> keyCapacity" "keyActive \<noteq> keyHistory" "keyCapacity \<noteq> keyHistory"
  "sessionKey s \<noteq> keyQueueList" "sessionKey s \<noteq> keyActive" "sessionKey s \<noteq> keyCapacity"
  "sessionKey s \<noteq> keyHistory" "heartbeatKey s \<noteq> keyQueueList" "heartbeatKey s \<noteq> keyActive"
  "heartbeatKey s \<noteq> keyCapacity" "heartbeatKey s \<noteq> keyHistory"
  "sessionKey s \<noteq> heartbeatKey t"
  "sessionKey s = sessionKey t \<longleftrightarrow> s = t" "heartbeatKey s = heartbeatKey t \<longleftrightarrow> s = t"
  by (simp_all add: key_defs)

lemmas keys_differ_sym [key_simps] = keys_differ(1-15) [THEN not_sym]

text \<open>The scripts' equations with the key functions of \<open>store.go\<close> in place of the concatenations.\<close>

lemmas script_eqs =
  luaAdmitNext_loop.simps [folded sessionKey_def] luaRelease_loop.simps [folded key_defs]
  luaLeave_def [folded sessionKey_def heartbeatKey_def]
  reap_active.simps [folded sessionKey_def heartbeatKey_def]
  reap_queue.simps [folded sessionKey_def heartbeatKey_def]

declare luaAdmitNext_loop.simps [simp del] luaRelease_loop.simps [simp del]
  reap_active.simps [simp del] reap_queue.simps [simp del]

end
