(* ===== verification/WaitingRoom.thy ===== *)
theory WaitingRoom
  imports QueueScripts
begin

text \<open>
  The contract of the waiting room, and that the Lua scripts implement it. A \<open>room\<close> is what
  the keyspace means to the service: the capacity, who holds a slot, who waits in which order,
  the recorded status of each session, whose heartbeat is still there, and the admission
  history. \<open>room_of\<close> reads it off the keyspace; \<open>room_ok\<close> is the well-formedness that every
  script keeps. The refinement lemmas are proved once for every server that obeys the laws of
  \<open>redis_server\<close>.
\<close>

section \<open>The abstract waiting room\<close>

record room =
  capacity :: int
  active :: "string set"
  waiting :: "string list"
  status :: "string \<rightharpoonup> string"
  alive :: "string \<Rightarrow> bool"
  history :: "string list"

definition full :: "room \<Rightarrow> bool" where
  "full r \<longleftrightarrow> int (card (active r)) \<ge> capacity r"

definition admit :: "string \<Rightarrow> string \<Rightarrow> room \<Rightarrow> room" where
  "admit sid now r = r\<lparr>active := insert sid (active r), status := (status r)(sid \<mapsto> ''active''),
     history := take 100 (now # history r)\<rparr>"

definition try_admit :: "string \<Rightarrow> string \<Rightarrow> room \<Rightarrow> room \<times> bool" where
  "try_admit sid now r = (if full r then (r, False) else (admit sid now r, True))"

definition join :: "string \<Rightarrow> room \<Rightarrow> room \<times> bool" where
  "join sid r =
     (if status r sid = Some ''queued'' \<or> status r sid = Some ''active'' then (r, False)
      else (r\<lparr>waiting := waiting r @ [sid], status := (status r)(sid \<mapsto> ''queued'')\<rparr>, True))"

text \<open>At most \<open>n\<close> entries whose session is gone are skipped in one attempt.\<close>

fun admit_next :: "nat \<Rightarrow> string \<Rightarrow> room \<Rightarrow> room \<times> string option" where
  "admit_next 0 now r = (r, None)"
| "admit_next (Suc n) now r =
     (if full r then (r, None)
      else case waiting r of
             [] \<Rightarrow> (r, None)
           | sid # rest \<Rightarrow>
               let r = r\<lparr>waiting := rest\<rparr>
               in if status r sid \<noteq> None then (admit sid now r, Some sid)
                  else admit_next n now r)"

definition forget :: "string set \<Rightarrow> room \<Rightarrow> room" where
  "forget E r = r\<lparr>status := status r |` (- E)\<rparr>"

definition silence :: "string set \<Rightarrow> room \<Rightarrow> room" where
  "silence E r = r\<lparr>alive := (\<lambda>s. alive r s \<and> s \<notin> E)\<rparr>"

definition vacate :: "string set \<Rightarrow> room \<Rightarrow> room" where
  "vacate E r = r\<lparr>active := active r - E\<rparr>"

definition leave :: "string \<Rightarrow> room \<Rightarrow> room \<times> bool" where
  "leave sid r =
     (silence {sid} (forget {sid}
        (if sid \<in> active r then vacate {sid} r else r\<lparr>waiting := remove1 sid (waiting r)\<rparr>)),
      sid \<in> active r)"

definition evict :: "string set \<Rightarrow> room \<Rightarrow> room" where
  "evict E r = silence E (forget E (vacate E r))"

definition stale :: "room \<Rightarrow> string set" where
  "stale r = {s \<in> active r \<union> set (waiting r). \<not> alive r s}"

definition reap :: "room \<Rightarrow> room \<times> nat" where
  "reap r =
     (forget (stale r) (r\<lparr>active := {s \<in> active r. alive r s}, waiting := filter (alive r) (waiting r)\<rparr>),
      card {s \<in> active r. \<not> alive r s} + length (filter (\<lambda>s. \<not> alive r s) (waiting r)))"

subsection \<open>Algebra of the room updates\<close>

lemmas room_update_defs = forget_def silence_def vacate_def evict_def

lemma restrict_map_UNIV [simp]: "m |` UNIV = m"
  by (simp add: restrict_map_def fun_eq_iff)

lemma room_update_empty [simp]:
  "forget {} r = r" "silence {} r = r" "vacate {} r = r" "evict {} r = r"
  by (simp_all add: room_update_defs)

lemma room_update_fields [simp]:
  "active (forget E r) = active r" "waiting (forget E r) = waiting r" "alive (forget E r) = alive r"
  "capacity (forget E r) = capacity r" "history (forget E r) = history r"
  "active (silence E r) = active r" "waiting (silence E r) = waiting r" "status (silence E r) = status r"
  "capacity (silence E r) = capacity r" "history (silence E r) = history r"
  "active (vacate E r) = active r - E" "waiting (vacate E r) = waiting r" "alive (vacate E r) = alive r"
  "capacity (vacate E r) = capacity r" "history (vacate E r) = history r" "status (vacate E r) = status r"
  "active (evict E r) = active r - E" "waiting (evict E r) = waiting r"
  "capacity (evict E r) = capacity r" "history (evict E r) = history r"
  by (simp_all add: room_update_defs)

lemma forget_vacate_twice:
  "forget A (vacate A (forget B (vacate B r))) = forget (B \<union> A) (vacate (B \<union> A) r)"
  by (rule room.equality) (auto simp: room_update_defs restrict_map_def)

lemma evict_twice: "evict A (evict B r) = evict (B \<union> A) r"
  by (rule room.equality) (auto simp: room_update_defs restrict_map_def)

lemma forget_twice: "forget A (forget B r) = forget (B \<union> A) r"
  by (rule room.equality) (auto simp: room_update_defs restrict_map_def)

lemma forget_waiting: "(forget B r)\<lparr>waiting := ws\<rparr> = forget B (r\<lparr>waiting := ws\<rparr>)"
  by (simp add: forget_def)

section \<open>Reading the room off the keyspace\<close>

definition room_of :: "keyspace \<Rightarrow> room" where
  "room_of v = \<lparr>
     capacity = (case str_at v keyCapacity of None \<Rightarrow> 3 | Some s \<Rightarrow> the (ParseInt s)),
     active = set_at v keyActive,
     waiting = list_at v keyQueueList,
     status = (\<lambda>sid. hash_at v (sessionKey sid) ''status''),
     alive = (\<lambda>sid. v (heartbeatKey sid) \<noteq> None),
     history = list_at v keyHistory\<rparr>"

definition capacity_ok :: "keyspace \<Rightarrow> bool" where
  "capacity_ok v \<longleftrightarrow> (\<forall>s. str_at v keyCapacity = Some s \<longrightarrow> (\<exists>n > 0. ParseInt s = Some n))"

text \<open>
  Every key of the service holds its own kind of value, the shared keys never expire, the
  stored capacity is a positive number and the history has at most 100 entries.
\<close>

definition room_ok :: "keyspace \<Rightarrow> bool" where
  "room_ok v \<longleftrightarrow>
     typed v keyCapacity KString \<and> typed v keyActive KSet \<and> typed v keyQueueList KList \<and>
     typed v keyHistory KList \<and> (\<forall>s. typed v (sessionKey s) KHash) \<and>
     (\<forall>s. typed v (heartbeatKey s) KString) \<and>
     ttl_at v keyCapacity = None \<and> ttl_at v keyActive = None \<and>
     ttl_at v keyQueueList = None \<and> ttl_at v keyHistory = None \<and>
     capacity_ok v \<and> length (list_at v keyHistory) \<le> 100"

lemma room_okD:
  assumes "room_ok v"
  shows "typed v keyCapacity KString" "typed v keyActive KSet" "typed v keyQueueList KList"
    "typed v keyHistory KList" "typed v (sessionKey s) KHash" "typed v (heartbeatKey s) KString"
    "ttl_at v keyCapacity = None" "ttl_at v keyActive = None" "ttl_at v keyQueueList = None"
    "ttl_at v keyHistory = None" "capacity_ok v" "length (list_at v keyHistory) \<le> 100"
  using assms by (auto simp: room_ok_def)

lemma capacity_positive: "room_ok v \<Longrightarrow> 0 < capacity (room_of v)"
  by (auto simp: room_ok_def capacity_ok_def room_of_def split: option.splits)

subsection \<open>How the keyspace writes read as room updates\<close>

named_theorems room_writes \<open>what a keyspace write does to the room\<close>
named_theorems room_ok_writes \<open>keyspace writes that keep the well-formedness\<close>

lemma room_of_put_active [room_writes]:
  "room_of (put_set v keyActive X) = (room_of v)\<lparr>active := X\<rparr>"
  by (simp add: room_of_def keyspace_simps key_simps)

lemma room_of_put_waiting [room_writes]:
  "room_of (put_list v keyQueueList xs) = (room_of v)\<lparr>waiting := xs\<rparr>"
  by (simp add: room_of_def keyspace_simps key_simps)

lemma room_of_put_history [room_writes]:
  "room_of (put_list v keyHistory xs) = (room_of v)\<lparr>history := xs\<rparr>"
  by (simp add: room_of_def keyspace_simps key_simps)

lemma room_of_put_session [room_writes]:
  "room_of (put_hash v (sessionKey s) h) =
     (room_of v)\<lparr>status := (status (room_of v))(s := h ''status'')\<rparr>"
  by (auto simp: room_of_def keyspace_simps key_simps fun_eq_iff frame_put(13))

lemma room_of_ttl_session [room_writes]: "room_of (set_ttl v (sessionKey s) n) = room_of v"
proof -
  have "hash_at (set_ttl v (sessionKey s) n) (sessionKey s') = hash_at v (sessionKey s')" for s'
    by (cases "s' = s") (simp_all add: keyspace_simps key_simps)
  then show ?thesis by (simp add: room_of_def keyspace_simps key_simps)
qed

lemma room_of_del_session [room_writes]:
  "room_of (v(sessionKey s := None)) = forget {s} (room_of v)"
  by (auto simp: room_of_def forget_def keyspace_simps key_simps fun_eq_iff restrict_map_def)

lemma room_of_del_heartbeat [room_writes]:
  "room_of (v(heartbeatKey s := None)) = silence {s} (room_of v)"
  by (auto simp: room_of_def silence_def keyspace_simps key_simps fun_eq_iff)

lemma room_of_set_heartbeat [room_writes]:
  "room_of (v(heartbeatKey s \<mapsto> e)) = (room_of v)\<lparr>alive := (alive (room_of v))(s := True)\<rparr>"
  by (auto simp: room_of_def keyspace_simps key_simps fun_eq_iff)

lemma room_of_set_capacity [room_writes]:
  "ParseInt c = Some n \<Longrightarrow>
     room_of (v(keyCapacity \<mapsto> (RString c, None))) = (room_of v)\<lparr>capacity := n\<rparr>"
  by (auto simp: room_of_def keyspace_simps key_simps fun_eq_iff)

subsection \<open>Writes that keep the well-formedness\<close>

lemma ttl_at_put [keyspace_simps]:
  "ttl_at v k = None \<Longrightarrow> ttl_at (put_list v k xs) k = None"
  "ttl_at v k = None \<Longrightarrow> ttl_at (put_set v k X) k = None"
  "ttl_at (v(k \<mapsto> (x, t))) k = t"
  by (simp_all add: ttl_at_def put_list_def put_set_def)

lemma capacity_ok_cong: "str_at v keyCapacity = str_at v' keyCapacity \<Longrightarrow> capacity_ok v = capacity_ok v'"
  by (simp add: capacity_ok_def)

lemma typed_sessions [keyspace_simps]:
  assumes "\<forall>s. typed v (sessionKey s) KHash"
  shows "typed (put_hash v (sessionKey t) h) (sessionKey s) KHash"
    "typed (set_ttl v (sessionKey t) n) (sessionKey s) KHash"
    "typed (v(sessionKey t := None)) (sessionKey s) KHash"
  using assms by (cases "s = t"; simp add: keyspace_simps key_simps)+

lemma typed_heartbeats [keyspace_simps]:
  assumes "\<forall>s. typed v (heartbeatKey s) KString"
  shows "typed (v(heartbeatKey t := None)) (heartbeatKey s) KString"
    "typed (v(heartbeatKey t \<mapsto> (RString x, n))) (heartbeatKey s) KString"
  using assms by (cases "s = t"; simp add: keyspace_simps key_simps)+

lemma room_ok_put_active [room_ok_writes]: "room_ok v \<Longrightarrow> room_ok (put_set v keyActive X)"
  by (simp add: room_ok_def keyspace_simps key_simps capacity_ok_def)

lemma room_ok_put_waiting [room_ok_writes]: "room_ok v \<Longrightarrow> room_ok (put_list v keyQueueList xs)"
  by (simp add: room_ok_def keyspace_simps key_simps capacity_ok_def)

lemma room_ok_put_history [room_ok_writes]:
  "room_ok v \<Longrightarrow> length xs \<le> 100 \<Longrightarrow> room_ok (put_list v keyHistory xs)"
  by (simp add: room_ok_def keyspace_simps key_simps capacity_ok_def)

lemma room_ok_put_session [room_ok_writes]: "room_ok v \<Longrightarrow> room_ok (put_hash v (sessionKey s) h)"
  by (simp add: room_ok_def keyspace_simps key_simps capacity_ok_def)

lemma room_ok_ttl_session [room_ok_writes]: "room_ok v \<Longrightarrow> room_ok (set_ttl v (sessionKey s) n)"
  by (simp add: room_ok_def keyspace_simps key_simps capacity_ok_def)

lemma room_ok_del_session [room_ok_writes]: "room_ok v \<Longrightarrow> room_ok (v(sessionKey s := None))"
  by (simp add: room_ok_def keyspace_simps key_simps capacity_ok_def)

lemma room_ok_del_heartbeat [room_ok_writes]: "room_ok v \<Longrightarrow> room_ok (v(heartbeatKey s := None))"
  by (simp add: room_ok_def keyspace_simps key_simps capacity_ok_def)

lemma room_ok_set_heartbeat [room_ok_writes]:
  "room_ok v \<Longrightarrow> room_ok (v(heartbeatKey s \<mapsto> (RString x, t)))"
  by (simp add: room_ok_def keyspace_simps key_simps capacity_ok_def)

lemma room_ok_set_capacity [room_ok_writes]:
  "room_ok v \<Longrightarrow> ParseInt c = Some n \<Longrightarrow> 0 < n \<Longrightarrow> room_ok (v(keyCapacity \<mapsto> (RString c, None)))"
  by (simp add: room_ok_def keyspace_simps key_simps capacity_ok_def)

lemma age_shared:
  assumes "room_ok v"
  shows "age n v keyCapacity = v keyCapacity" "age n v keyActive = v keyActive"
    "age n v keyQueueList = v keyQueueList" "age n v keyHistory = v keyHistory"
  using room_okD(7-10) [OF assms] by (auto intro: age_no_ttl)

lemma age_shared_at:
  assumes "room_ok v"
  shows "str_at (age n v) keyCapacity = str_at v keyCapacity"
    "set_at (age n v) keyActive = set_at v keyActive"
    "list_at (age n v) keyQueueList = list_at v keyQueueList"
    "list_at (age n v) keyHistory = list_at v keyHistory"
    "ttl_at (age n v) keyCapacity = ttl_at v keyCapacity"
    "ttl_at (age n v) keyActive = ttl_at v keyActive"
    "ttl_at (age n v) keyQueueList = ttl_at v keyQueueList"
    "ttl_at (age n v) keyHistory = ttl_at v keyHistory"
  using age_shared [OF assms] by (simp_all add: str_at_def set_at_def list_at_def ttl_at_def)

lemma room_ok_age [room_ok_writes]:
  assumes "room_ok v"
  shows "room_ok (age n v)"
  using assms age_shared_at [OF assms]
  by (simp add: room_ok_def capacity_ok_def)

text \<open>Time only makes sessions and heartbeats disappear.\<close>

lemma room_of_age:
  assumes "room_ok v"
  shows "\<exists>S H. room_of (age n v) = silence H (forget S (room_of v))"
proof -
  have gone: "hash_at (age n v) k = (if age n v k = None then Map.empty else hash_at v k)" for k
    by (auto simp: age_def hash_at_def split: option.splits prod.splits)
  have live: "age n v k \<noteq> None \<longleftrightarrow> v k \<noteq> None \<and> age n v k \<noteq> None" for k
    by (auto simp: age_def split: option.splits prod.splits)
  have "room_of (age n v) =
      silence {s. age n v (heartbeatKey s) = None} (forget {s. age n v (sessionKey s) = None} (room_of v))"
    using live
    by (auto simp: room_of_def silence_def forget_def age_shared_at [OF assms] gone restrict_map_def
        fun_eq_iff)
  then show ?thesis by blast
qed

end
