(* ===== verification/QueueRefinement.thy ===== *)
theory QueueRefinement
  imports WaitingRoom
begin

text \<open>
  The scripts implement the waiting room: for every server that obeys the laws of
  \<open>redis_server\<close>, each Lua script keeps \<open>room_ok\<close>, moves the room exactly as the abstract
  operation does, and replies what the abstract operation says.
\<close>

section \<open>Single commands on a well-formed keyspace\<close>

context redis_server
begin

abbreviation ok :: "'db \<Rightarrow> bool" where "ok db \<equiv> room_ok (view db)"
abbreviation room :: "'db \<Rightarrow> room" where "room db \<equiv> room_of (view db)"

lemma room_simps:
  "active (room_of v) = set_at v keyActive" "waiting (room_of v) = list_at v keyQueueList"
  "history (room_of v) = list_at v keyHistory"
  "status (room_of v) s = hash_at v (sessionKey s) ''status''"
  "alive (room_of v) s \<longleftrightarrow> v (heartbeatKey s) \<noteq> None"
  by (simp_all add: room_of_def)

lemma ok_reads:
  assumes "ok db"
  shows "SCARD R db keyActive = int (card (active (room db)))"
    "SISMEMBER R db keyActive s \<longleftrightarrow> s \<in> active (room db)"
    "LRANGE R db keyQueueList 0 (-1) = waiting (room db)"
    "LRANGE R db keyHistory 0 (-1) = history (room db)"
    "LLEN R db keyQueueList = int (length (waiting (room db)))"
    "LLEN R db keyHistory = int (length (history (room db)))"
    "HGET R db (sessionKey s) ''status'' = status (room db) s"
    "HEXISTS R db (sessionKey s) ''status'' \<longleftrightarrow> status (room db) s \<noteq> None"
    "EXISTS R db (heartbeatKey s) \<longleftrightarrow> alive (room db) s"
    "set (SMEMBERS R db keyActive) = active (room db)" "distinct (SMEMBERS R db keyActive)"
    "finite (active (room db))"
  using room_okD [OF assms] smembers [of db keyActive]
  by (simp_all add: commands room_simps)

lemma capacity_read: "ok db \<Longrightarrow> lua_capacity R keyCapacity db = Some (capacity (room db))"
  using room_okD(1,11) [of "view db"]
  by (auto simp: lua_capacity_def lua_tonumber_def commands room_of_def capacity_ok_def
      ParseInt_def digits_val_def digit_val_def is_digit_def in_int64_def split: option.splits)

lemma ok_sadd:
  assumes "ok db"
  shows "ok (SADD R db keyActive s)"
    "room (SADD R db keyActive s) = (room db)\<lparr>active := insert s (active (room db))\<rparr>"
  using assms room_okD(2) [OF assms] by (simp_all add: commands room_ok_writes room_writes room_simps)

lemma ok_srem:
  assumes "ok db"
  shows "ok (fst (SREM R db keyActive s))"
    "room (fst (SREM R db keyActive s)) = vacate {s} (room db)"
    "snd (SREM R db keyActive s) = (if s \<in> active (room db) then 1 else 0)"
  using assms room_okD(2) [OF assms]
  by (simp_all add: commands room_ok_writes room_writes room_simps vacate_def)

lemma ok_lrem:
  assumes "ok db"
  shows "ok (LREM R db keyQueueList 1 s)"
    "room (LREM R db keyQueueList 1 s) = (room db)\<lparr>waiting := remove1 s (waiting (room db))\<rparr>"
  using assms room_okD(3) [OF assms] by (simp_all add: commands room_ok_writes room_writes room_simps)

lemma ok_rpush:
  assumes "ok db"
  shows "ok (RPUSH R db keyQueueList s)"
    "room (RPUSH R db keyQueueList s) = (room db)\<lparr>waiting := waiting (room db) @ [s]\<rparr>"
  using assms room_okD(3) [OF assms] by (simp_all add: commands room_ok_writes room_writes room_simps)

lemma ok_lpop:
  assumes "ok db"
  shows "ok (fst (LPOP R db keyQueueList))"
    "room (fst (LPOP R db keyQueueList)) = (room db)\<lparr>waiting := tl (waiting (room db))\<rparr>"
    "snd (LPOP R db keyQueueList) = (case waiting (room db) of [] \<Rightarrow> None | x # _ \<Rightarrow> Some x)"
  using assms room_okD(3) [OF assms] by (simp_all add: commands room_ok_writes room_writes room_simps)

lemma ok_hset:
  assumes "ok db" and "map_of (rev fs) ''status'' = Some st"
  shows "ok (HSET R db (sessionKey s) fs)"
    "room (HSET R db (sessionKey s) fs) = (room db)\<lparr>status := (status (room db))(s \<mapsto> st)\<rparr>"
proof -
  have "fs \<noteq> []" using assms(2) by auto
  then have v: "view (HSET R db (sessionKey s) fs) =
      put_hash (view db) (sessionKey s) (hash_at (view db) (sessionKey s) ++ map_of (rev fs))"
    using room_okD(5) [OF assms(1)] by (simp add: commands)
  show "ok (HSET R db (sessionKey s) fs)" using assms(1) by (simp add: v room_ok_writes)
  show "room (HSET R db (sessionKey s) fs) = (room db)\<lparr>status := (status (room db))(s \<mapsto> st)\<rparr>"
    using assms(2) by (simp add: v room_writes)
qed

lemma ok_expire:
  "ok db \<Longrightarrow> ok (EXPIRE R db (sessionKey s) n)"
  "room (EXPIRE R db (sessionKey s) n) = room db"
  by (simp_all add: commands room_ok_writes room_writes)

lemma ok_del:
  "ok db \<Longrightarrow> ok (DEL R db (sessionKey s))" "room (DEL R db (sessionKey s)) = forget {s} (room db)"
  "ok db \<Longrightarrow> ok (DEL R db (heartbeatKey s))" "room (DEL R db (heartbeatKey s)) = silence {s} (room db)"
  by (simp_all add: commands room_ok_writes room_writes)

lemma ok_set_heartbeat:
  "ok db \<Longrightarrow> ok (SET R db (heartbeatKey s) x t)"
  "room (SET R db (heartbeatKey s) x t) = (room db)\<lparr>alive := (alive (room db))(s := True)\<rparr>"
  by (simp_all add: commands room_ok_writes room_writes)

text \<open>\<open>LPUSH\<close> followed by \<open>LTRIM 0 99\<close> keeps the 100 newest entries.\<close>

lemma ok_record:
  assumes "ok db"
  shows "ok (LTRIM R (LPUSH R db keyHistory x) keyHistory 0 99)"
    "room (LTRIM R (LPUSH R db keyHistory x) keyHistory 0 99) =
       (room db)\<lparr>history := take 100 (x # history (room db))\<rparr>"
proof -
  have t: "typed (view db) keyHistory KList" using assms by (rule room_okD)
  have "put_list (put_list (view db) keyHistory ys) keyHistory xs = put_list (view db) keyHistory xs" for xs ys
    using room_okD(10) [OF assms] by (simp add: put_list_def fun_eq_iff ttl_at_def)
  then have v: "view (LTRIM R (LPUSH R db keyHistory x) keyHistory 0 99) =
      put_list (view db) keyHistory (take 100 (x # list_at (view db) keyHistory))"
    using t by (simp add: commands keyspace_simps)
  show "ok (LTRIM R (LPUSH R db keyHistory x) keyHistory 0 99)"
    using assms by (simp add: v room_ok_writes)
  show "room (LTRIM R (LPUSH R db keyHistory x) keyHistory 0 99) =
       (room db)\<lparr>history := take 100 (x # history (room db))\<rparr>"
    by (simp add: v room_writes room_simps)
qed

lemmas ok_commands = ok_sadd ok_srem ok_lrem ok_rpush ok_lpop ok_hset ok_expire ok_del
  ok_set_heartbeat ok_record

section \<open>The scripts\<close>

abbreviation "TryAdmit_script \<equiv> luaTryAdmit R keyCapacity keyActive"
abbreviation "AdmitNext_script \<equiv> luaAdmitNext R keyCapacity keyActive keyQueueList keyHistory"

lemma admit_refines:
  assumes "ok db"
  shows "room (LTRIM R (LPUSH R (HSET R (SADD R db keyActive sid) (sessionKey sid)
           [(''status'', ''active''), (''admitted_at'', now)]) keyHistory now) keyHistory 0 99) =
         admit sid now (room db)"
    "ok (LTRIM R (LPUSH R (HSET R (SADD R db keyActive sid) (sessionKey sid)
           [(''status'', ''active''), (''admitted_at'', now)]) keyHistory now) keyHistory 0 99)"
  using assms by (simp_all add: ok_commands admit_def)

lemma luaTryAdmit_refines:
  assumes "ok db"
  shows "room (fst (luaTryAdmit R keyCapacity keyActive (sessionKey sid) keyHistory sid now db)) =
           fst (try_admit sid now (room db))"
    "snd (luaTryAdmit R keyCapacity keyActive (sessionKey sid) keyHistory sid now db) =
           Some (if snd (try_admit sid now (room db)) then 1 else 0)"
    "ok (fst (luaTryAdmit R keyCapacity keyActive (sessionKey sid) keyHistory sid now db))"
  using assms
  by (simp_all add: luaTryAdmit_def try_admit_def full_def capacity_read ok_reads Let_def
      ok_commands admit_def)

lemma luaJoinQueue_refines:
  assumes "ok db"
  shows "room (fst (luaJoinQueue R (sessionKey sid) keyQueueList sid now db)) = fst (join sid (room db))"
    "snd (luaJoinQueue R (sessionKey sid) keyQueueList sid now db) =
           Some (if snd (join sid (room db)) then 1 else 0)"
    "ok (fst (luaJoinQueue R (sessionKey sid) keyQueueList sid now db))"
  using assms by (simp_all add: luaJoinQueue_def join_def ok_reads Let_def ok_commands)

lemma luaAdmitNext_loop_refines:
  assumes "ok db" and "cap = capacity (room db)"
  shows "room (fst (luaAdmitNext_loop n R cap keyActive keyQueueList keyHistory now db)) =
           fst (admit_next n now (room db)) \<and>
         snd (luaAdmitNext_loop n R cap keyActive keyQueueList keyHistory now db) =
           snd (admit_next n now (room db)) \<and>
         ok (fst (luaAdmitNext_loop n R cap keyActive keyQueueList keyHistory now db))"
  using assms
proof (induction n arbitrary: db)
  case 0
  then show ?case by (simp add: script_eqs)
next
  case (Suc n)
  note ok = Suc.prems(1)
  obtain db1 popped where pop: "LPOP R db keyQueueList = (db1, popped)" by fastforce
  have db1: "ok db1" "room db1 = (room db)\<lparr>waiting := tl (waiting (room db))\<rparr>"
    "popped = (case waiting (room db) of [] \<Rightarrow> None | x # _ \<Rightarrow> Some x)"
    using ok_lpop [OF ok] by (simp_all add: pop)
  show ?case
  proof (cases "full (room db)")
    case True
    with Suc.prems show ?thesis by (simp add: full_def ok_reads script_eqs)
  next
    case False
    then have free: "\<not> cap \<le> SCARD R db keyActive"
      using Suc.prems by (simp add: full_def ok_reads)
    show ?thesis
    proof (cases "waiting (room db)")
      case Nil
      with False free db1 ok show ?thesis by (simp add: pop script_eqs)
    next
      case (Cons sid rest)
      with db1 have p: "popped = Some sid" and r1: "room db1 = (room db)\<lparr>waiting := rest\<rparr>" by simp_all
      have IH: "room (fst (luaAdmitNext_loop n R cap keyActive keyQueueList keyHistory now db1)) =
           fst (admit_next n now (room db1)) \<and>
         snd (luaAdmitNext_loop n R cap keyActive keyQueueList keyHistory now db1) =
           snd (admit_next n now (room db1)) \<and>
         ok (fst (luaAdmitNext_loop n R cap keyActive keyQueueList keyHistory now db1))"
        using Suc.IH [OF db1(1)] Suc.prems(2) r1 by simp
      show ?thesis
        using False free Cons IH ok_reads(8) [OF db1(1), of sid] admit_refines [OF db1(1), of sid now]
        by (simp add: pop p r1 Let_def script_eqs)
    qed
  qed
qed

lemma luaAdmitNext_refines:
  assumes "ok db"
  shows "room (fst (luaAdmitNext R keyCapacity keyActive keyQueueList keyHistory now db)) =
           fst (admit_next 50 now (room db))"
    "snd (luaAdmitNext R keyCapacity keyActive keyQueueList keyHistory now db) =
           Some (snd (admit_next 50 now (room db)))"
    "ok (fst (luaAdmitNext R keyCapacity keyActive keyQueueList keyHistory now db))"
  using luaAdmitNext_loop_refines [OF assms refl, of 50 now]
  by (simp_all add: luaAdmitNext_def capacity_read assms)

lemma luaLeave_refines:
  assumes "ok db"
  shows "room (fst (luaLeave R keyActive keyQueueList sid db)) = fst (leave sid (room db))"
    "snd (luaLeave R keyActive keyQueueList sid db) = Some (if snd (leave sid (room db)) then 1 else 0)"
    "ok (fst (luaLeave R keyActive keyQueueList sid db))"
proof -
  obtain db1 was where s: "SREM R db keyActive sid = (db1, was)" by fastforce
  have db1: "ok db1" "room db1 = vacate {sid} (room db)" "was = (if sid \<in> active (room db) then 1 else 0)"
    using ok_srem [OF assms, of sid] by (simp_all add: s)
  have nop: "sid \<notin> active (room db) \<Longrightarrow> vacate {sid} (room db) = room db" by (simp add: vacate_def)
  show "room (fst (luaLeave R keyActive keyQueueList sid db)) = fst (leave sid (room db))"
    "snd (luaLeave R keyActive keyQueueList sid db) = Some (if snd (leave sid (room db)) then 1 else 0)"
    "ok (fst (luaLeave R keyActive keyQueueList sid db))"
    using db1 by (simp_all add: script_eqs leave_def s Let_def ok_commands nop)
qed

lemma luaRelease_loop_refines:
  assumes "ok db"
  shows "\<exists>E \<subseteq> active (room db). card E = min n (card (active (room db))) \<and>
    snd (luaRelease_loop n R keyActive k db) = k + int (card E) \<and>
    room (fst (luaRelease_loop n R keyActive k db)) = evict E (room db) \<and>
    ok (fst (luaRelease_loop n R keyActive k db))"
  using assms
proof (induction n arbitrary: db k)
  case 0
  then show ?case
    by (intro exI [of _ "{}"]) (simp add: script_eqs)
next
  case (Suc n)
  note ok = Suc.prems
  note kset = room_okD(2) [OF ok]
  obtain db1 popped where pop: "SPOP R db keyActive = (db1, popped)" by fastforce
  show ?case
  proof (cases popped)
    case None
    with pop spop_None [OF kset] have "active (room db) = {}" "view db1 = view db"
      by (simp_all add: room_simps)
    with ok show ?thesis
      by (intro exI [of _ "{}"]) (simp add: script_eqs pop None)
  next
    case (Some sid)
    let ?db2 = "DEL R (DEL R db1 (sessionKey sid)) (heartbeatKey sid)"
    from pop Some spop_Some [OF kset] have sid: "sid \<in> active (room db)"
      and v: "view db1 = put_set (view db) keyActive (active (room db) - {sid})"
      by (simp_all add: room_simps)
    have ok2: "ok ?db2" and r2: "room ?db2 = evict {sid} (room db)"
      using ok by (simp_all add: v ok_commands room_ok_writes room_writes evict_def vacate_def)
    from Suc.IH [OF ok2, of "k + 1", unfolded r2] obtain E where E: "E \<subseteq> active (room db) - {sid}"
      "card E = min n (card (active (room db) - {sid}))"
      and res: "snd (luaRelease_loop n R keyActive (k + 1) ?db2) = k + 1 + int (card E)"
        "room (fst (luaRelease_loop n R keyActive (k + 1) ?db2)) = evict E (evict {sid} (room db))"
        "ok (fst (luaRelease_loop n R keyActive (k + 1) ?db2))"
      by auto
    have fin: "finite (active (room db))" using ok by (rule ok_reads)
    have "card (insert sid E) = Suc (card E)"
      using E(1) fin finite_subset by (subst card_insert_disjoint) auto
    then have c: "card (insert sid E) = min (Suc n) (card (active (room db)))"
      unfolding card_Suc_Diff1 [OF fin sid, symmetric] by (simp only: E(2) min_Suc_Suc)
    have e: "evict E (evict {sid} (room db)) = evict (insert sid E) (room db)"
      by (simp add: evict_twice)
    have loop: "luaRelease_loop (Suc n) R keyActive k db = luaRelease_loop n R keyActive (k + 1) ?db2"
      by (simp add: script_eqs pop Some Let_def)
    have "k + 1 + int (card E) = k + int (card (insert sid E))"
      using \<open>card (insert sid E) = Suc (card E)\<close> by simp
    with res c e E(1) sid show ?thesis
      unfolding loop by (intro exI [of _ "insert sid E"] conjI) auto
  qed
qed

lemma luaRelease_refines:
  assumes "ok db" and "in_int64 n"
  shows "\<exists>E \<subseteq> active (room db). card E = min (nat n) (card (active (room db))) \<and>
    snd (luaRelease R keyActive (FormatInt n) db) = Some (int (card E)) \<and>
    room (fst (luaRelease R keyActive (FormatInt n) db)) = evict E (room db) \<and>
    ok (fst (luaRelease R keyActive (FormatInt n) db))"
proof -
  obtain db' k where l: "luaRelease_loop (nat n) R keyActive 0 db = (db', k)" by fastforce
  then have "luaRelease R keyActive (FormatInt n) db = (db', Some k)"
    using assms(2) by (simp add: luaRelease_def lua_tonumber_def ParseInt_FormatInt)
  with luaRelease_loop_refines [OF assms(1), of "nat n" 0] show ?thesis by (simp add: l)
qed

lemma reap_active_refines:
  assumes "ok db" and "distinct sids"
  shows "room (fst (reap_active R keyActive sids db k)) =
      forget {s \<in> set sids. \<not> alive (room db) s} (vacate {s \<in> set sids. \<not> alive (room db) s} (room db)) \<and>
    snd (reap_active R keyActive sids db k) = k + int (card {s \<in> set sids. \<not> alive (room db) s}) \<and>
    ok (fst (reap_active R keyActive sids db k))"
  using assms
proof (induction sids arbitrary: db k)
  case Nil
  then show ?case by (simp add: script_eqs)
next
  case (Cons sid sids)
  show ?case
  proof (cases "alive (room db) sid")
    case True
    then have "{s \<in> set (sid # sids). \<not> alive (room db) s} = {s \<in> set sids. \<not> alive (room db) s}"
      by auto
    with True Cons show ?thesis by (simp add: script_eqs ok_reads)
  next
    case False
    let ?db' = "DEL R (fst (SREM R db keyActive sid)) (sessionKey sid)"
    let ?D = "{s \<in> set sids. \<not> alive (room db) s}"
    have ok': "ok ?db'" and r': "room ?db' = forget {sid} (vacate {sid} (room db))"
      using Cons.prems(1) by (simp_all add: ok_commands)
    then have al: "alive (room ?db') = alive (room db)" by simp
    from False have D: "{s \<in> set (sid # sids). \<not> alive (room db) s} = insert sid ?D" by auto
    have "sid \<notin> ?D" using Cons.prems(2) by simp
    moreover have "forget ?D (vacate ?D (forget {sid} (vacate {sid} (room db)))) =
        forget (insert sid ?D) (vacate (insert sid ?D) (room db))"
      by (simp add: forget_vacate_twice)
    ultimately show ?thesis
      unfolding D using Cons.IH [OF ok'] Cons.prems False al r'
      by (simp add: script_eqs ok_reads Let_def)
  qed
qed

lemma reap_queue_refines:
  assumes "ok db"
  shows "room (fst (reap_queue R keyQueueList sids db k)) =
      forget {s \<in> set sids. \<not> alive (room db) s}
        ((room db)\<lparr>waiting := fold remove1 (filter (\<lambda>s. \<not> alive (room db) s) sids) (waiting (room db))\<rparr>) \<and>
    snd (reap_queue R keyQueueList sids db k) =
      k + int (length (filter (\<lambda>s. \<not> alive (room db) s) sids)) \<and>
    ok (fst (reap_queue R keyQueueList sids db k))"
  using assms
proof (induction sids arbitrary: db k)
  case Nil
  then show ?case by (simp add: script_eqs)
next
  case (Cons sid sids)
  show ?case
  proof (cases "alive (room db) sid")
    case True
    then have "{s \<in> set (sid # sids). \<not> alive (room db) s} = {s \<in> set sids. \<not> alive (room db) s}"
      by auto
    with True Cons show ?thesis by (simp add: script_eqs ok_reads)
  next
    case False
    let ?db' = "DEL R (LREM R db keyQueueList 1 sid) (sessionKey sid)"
    let ?D = "{s \<in> set sids. \<not> alive (room db) s}"
    have ok': "ok ?db'"
      and r': "room ?db' = forget {sid} ((room db)\<lparr>waiting := remove1 sid (waiting (room db))\<rparr>)"
      using Cons.prems(1) by (simp_all add: ok_commands)
    then have al: "alive (room ?db') = alive (room db)"
      and w': "waiting (room ?db') = remove1 sid (waiting (room db))"
      by simp_all
    from False have D: "{s \<in> set (sid # sids). \<not> alive (room db) s} = insert sid ?D" by auto
    show ?thesis
      unfolding D using Cons.IH [OF ok'] Cons.prems False al r' w'
      by (simp add: script_eqs ok_reads Let_def forget_waiting forget_twice)
  qed
qed

lemma luaReapStale_refines:
  assumes "ok db"
  shows "room (fst (luaReapStale R keyActive keyQueueList db)) = fst (reap (room db))"
    "snd (luaReapStale R keyActive keyQueueList db) = Some (int (snd (reap (room db))))"
    "ok (fst (luaReapStale R keyActive keyQueueList db))"
proof -
  obtain db1 k1 where a: "reap_active R keyActive (SMEMBERS R db keyActive) db 0 = (db1, k1)"
    by fastforce
  let ?D = "{s \<in> active (room db). \<not> alive (room db) s}"
  have ok1: "ok db1" and r1: "room db1 = forget ?D (vacate ?D (room db))" and k1: "k1 = int (card ?D)"
    using reap_active_refines [OF assms ok_reads(11) [OF assms], of 0]
    by (simp_all add: a ok_reads [OF assms])
  have same: "alive (room db1) = alive (room db)" "waiting (room db1) = waiting (room db)"
    by (simp_all add: r1)
  obtain db2 k2 where q: "reap_queue R keyQueueList (LRANGE R db1 keyQueueList 0 (-1)) db1 k1 = (db2, k2)"
    by fastforce
  note q2 = reap_queue_refines [OF ok1, of "waiting (room db)" k1, unfolded same fold_remove1_filter]
  have ok2: "ok db2"
    and r2: "room db2 = forget {s \<in> set (waiting (room db)). \<not> alive (room db) s}
      ((room db1)\<lparr>waiting := filter (alive (room db)) (waiting (room db))\<rparr>)"
    and k2: "k2 = k1 + int (length (filter (\<lambda>s. \<not> alive (room db) s) (waiting (room db))))"
    using q2 q by (simp_all add: ok_reads [OF ok1] same)
  have st: "stale (room db) = ?D \<union> {s \<in> set (waiting (room db)). \<not> alive (room db) s}"
    by (auto simp: stale_def)
  have "room db2 = fst (reap (room db))"
    unfolding r2 r1 reap_def st
    by (intro room.equality) (auto simp: room_update_defs restrict_map_def)
  then show "room (fst (luaReapStale R keyActive keyQueueList db)) = fst (reap (room db))"
    "snd (luaReapStale R keyActive keyQueueList db) = Some (int (snd (reap (room db))))"
    "ok (fst (luaReapStale R keyActive keyQueueList db))"
    using ok2 k2 k1 by (simp_all add: luaReapStale_def a q [simplified k1] reap_def)
qed

lemmas script_refinements = luaTryAdmit_refines luaJoinQueue_refines luaAdmitNext_refines
  luaLeave_refines luaReapStale_refines

end

end
