(* ===== verification/QueueStore.thy ===== *)
theory QueueStore
  imports QueueRefinement
begin

text \<open>
  The Go side of the queue: \<open>Store\<close> (\<open>internal/queue/store.go\<close>) and the background worker
  (\<open>worker.go\<close>). The world is the server state, the fate of the requests still to be sent and
  the clock. The client library may retry: a request is carried out any number of times before
  its reply arrives (\<open>Reply n\<close>: \<open>n\<close> times before the one that is answered) or the call fails
  (\<open>Fail n\<close>); an empty list of fates is a healthy connection.
\<close>

section \<open>Sending requests\<close>

datatype delivery = Reply nat | Fail nat

record 'db world =
  server :: 'db
  net :: "delivery list"
  clock :: int

definition call :: "('db \<Rightarrow> 'db \<times> 'a) \<Rightarrow> 'db world \<Rightarrow> 'db world \<times> 'a option" where
  "call f w = (case net w of
      [] \<Rightarrow> (case f (server w) of (d, a) \<Rightarrow> (w\<lparr>server := d\<rparr>, Some a))
    | Reply n # ds \<Rightarrow>
        (case f (((fst \<circ> f) ^^ n) (server w)) of (d, a) \<Rightarrow> (w\<lparr>server := d, net := ds\<rparr>, Some a))
    | Fail n # ds \<Rightarrow> (w\<lparr>server := ((fst \<circ> f) ^^ n) (server w), net := ds\<rparr>, None))"

text \<open>\<open>Script.Run\<close>: a Lua error is an error of the call.\<close>

definition run_script :: "('db \<Rightarrow> 'db \<times> 'a option) \<Rightarrow> 'db world \<Rightarrow> 'db world \<times> 'a option" where
  "run_script f w = (case call f w of (w, Some r) \<Rightarrow> (w, r) | (w, None) \<Rightarrow> (w, None))"

section \<open>Store\<close>

definition InitCapacity :: "'db redis \<Rightarrow> int \<Rightarrow> 'db world \<Rightarrow> 'db world" where
  "InitCapacity R initial w = fst (call (\<lambda>d. (SETNX R d keyCapacity (FormatInt initial), ())) w)"

definition Ping :: "'db world \<Rightarrow> 'db world \<times> bool" where
  "Ping w = (case call (\<lambda>d. (d, ())) w of (w, r) \<Rightarrow> (w, r \<noteq> None))"

definition GetStatus :: "'db redis \<Rightarrow> string \<Rightarrow> 'db world \<Rightarrow> 'db world \<times> string" where
  "GetStatus R sid w =
     (case call (\<lambda>d. (d, HGET R d (sessionKey sid) ''status'')) w of
        (w, Some (Some s)) \<Rightarrow> (w, s)
      | (w, _) \<Rightarrow> (w, ''''))"

definition IsInActiveSet :: "'db redis \<Rightarrow> string \<Rightarrow> 'db world \<Rightarrow> 'db world \<times> bool" where
  "IsInActiveSet R sid w =
     (case call (\<lambda>d. (d, SISMEMBER R d keyActive sid)) w of
        (w, Some ok) \<Rightarrow> (w, ok)
      | (w, None) \<Rightarrow> (w, False))"

definition DeleteSession :: "'db redis \<Rightarrow> string \<Rightarrow> 'db world \<Rightarrow> 'db world" where
  "DeleteSession R sid w = fst (call (\<lambda>d. (DEL R d (sessionKey sid), ())) w)"

definition SetHeartbeat :: "'db redis \<Rightarrow> string \<Rightarrow> 'db world \<Rightarrow> 'db world" where
  "SetHeartbeat R sid w =
     fst (call (\<lambda>d. (SET R d (heartbeatKey sid) ''1'' (Some heartbeatTTL), ())) w)"

definition TryAdmit :: "'db redis \<Rightarrow> string \<Rightarrow> string \<Rightarrow> 'db world \<Rightarrow> 'db world \<times> bool" where
  "TryAdmit R sid now w =
     (case run_script (luaTryAdmit R keyCapacity keyActive (sessionKey sid) keyHistory sid now) w of
        (w, Some n) \<Rightarrow> (w, n = 1)
      | (w, None) \<Rightarrow> (w, False))"

definition JoinQueue :: "'db redis \<Rightarrow> string \<Rightarrow> string \<Rightarrow> 'db world \<Rightarrow> 'db world" where
  "JoinQueue R sid now w =
     fst (run_script (luaJoinQueue R (sessionKey sid) keyQueueList sid now) w)"

subsection \<open>The worker's admission loop\<close>

text \<open>\<open>None\<close> would be a loop that never returns.\<close>

partial_function (option) admitPending_loop ::
  "'db redis \<Rightarrow> string \<Rightarrow> 'db world \<Rightarrow> 'db world option" where
  "admitPending_loop R now w =
     (case run_script (luaAdmitNext R keyCapacity keyActive keyQueueList keyHistory now) w of
        (w, Some (Some sid)) \<Rightarrow> admitPending_loop R now (SetHeartbeat R sid w)
      | (w, Some None) \<Rightarrow> Some w
      | (w, None) \<Rightarrow> Some w)"

declare admitPending_loop.simps [code]

definition admitPending :: "'db redis \<Rightarrow> 'db world \<Rightarrow> 'db world option" where
  "admitPending R w = (let now = FormatInt (clock w) in admitPending_loop R now w)"

definition reapStale :: "'db redis \<Rightarrow> 'db world \<Rightarrow> 'db world option" where
  "reapStale R w =
     (case run_script (luaReapStale R keyActive keyQueueList) w of
        (w, Some evicted) \<Rightarrow> if evicted > 0 then admitPending R w else Some w
      | (w, None) \<Rightarrow> Some w)"

text \<open>One turn of \<open>RunWorker\<close>'s select, by the ticker that fired; the loop itself never ends.\<close>

datatype tick = AdmitTick | ReaperTick

fun RunWorker_tick :: "'db redis \<Rightarrow> tick \<Rightarrow> 'db world \<Rightarrow> 'db world option" where
  "RunWorker_tick R AdmitTick w = admitPending R w"
| "RunWorker_tick R ReaperTick w = reapStale R w"

definition Leave :: "'db redis \<Rightarrow> string \<Rightarrow> 'db world \<Rightarrow> ('db world \<times> bool) option" where
  "Leave R sid w =
     (case run_script (luaLeave R keyActive keyQueueList sid) w of (w, r) \<Rightarrow>
        let wasActive = (case r of Some n \<Rightarrow> n | None \<Rightarrow> 0)
        in if wasActive > 0 then map_option (\<lambda>w. (w, True)) (admitPending R w)
           else Some (w, False))"

subsection \<open>Position and estimated wait\<close>

record position =
  Pos :: int
  Total :: int

fun find_position :: "string \<Rightarrow> int \<Rightarrow> string list \<Rightarrow> int \<Rightarrow> position option" where
  "find_position sid i [] len = None"
| "find_position sid i (x # xs) len =
     (if x = sid then Some \<lparr>Pos = i + 1, Total = len\<rparr> else find_position sid (i + 1) xs len)"

definition GetPosition :: "'db redis \<Rightarrow> string \<Rightarrow> 'db world \<Rightarrow> 'db world \<times> position option" where
  "GetPosition R sid w =
     (case call (\<lambda>d. (d, LRANGE R d keyQueueList 0 (-1))) w of (w, r) \<Rightarrow>
        let list = (case r of Some xs \<Rightarrow> xs | None \<Rightarrow> [])
        in (w, find_position sid 0 list (int (length list))))"

text \<open>The loop that adds up the differences of neighbouring timestamps.\<close>

fun sum_gaps :: "int \<Rightarrow> int list \<Rightarrow> int" where
  "sum_gaps acc (a # b # ts) = sum_gaps (wrap64 (acc + wrap64 (b - a))) (b # ts)"
| "sum_gaps acc _ = acc"

definition eta_seconds :: "int \<Rightarrow> string list \<Rightarrow> int" where
  "eta_seconds position hist =
     (if length hist < 5 then -1
      else let timestamps = sort (List.map_filter ParseInt hist)
           in if length timestamps < 2 then -1
              else let total = sum_gaps 0 timestamps;
                       avg = go_div total (int (length timestamps) - 1)
                   in if avg = 0 then 0 else wrap64 (avg * wrap64 (position - 1)))"

definition CalculateETA :: "'db redis \<Rightarrow> int \<Rightarrow> 'db world \<Rightarrow> 'db world \<times> int" where
  "CalculateETA R position w =
     (case call (\<lambda>d. (d, LRANGE R d keyHistory 0 (-1))) w of
        (w, Some hist) \<Rightarrow> (w, eta_seconds position hist)
      | (w, None) \<Rightarrow> (w, -1))"

subsection \<open>Admin operations\<close>

record snapshot =
  snap_capacity :: int
  snap_active :: int
  snap_queued :: int
  snap_history :: int

definition reply_int :: "int option \<Rightarrow> int" where
  "reply_int r = (case r of Some n \<Rightarrow> n | None \<Rightarrow> 0)"

definition Snapshot :: "'db redis \<Rightarrow> 'db world \<Rightarrow> 'db world \<times> snapshot" where
  "Snapshot R w =
     (let (w, c) = call (\<lambda>d. (d, GET R d keyCapacity)) w;
          (w, a) = call (\<lambda>d. (d, SCARD R d keyActive)) w;
          (w, q) = call (\<lambda>d. (d, LLEN R d keyQueueList)) w;
          (w, h) = call (\<lambda>d. (d, LLEN R d keyHistory)) w
      in (w, \<lparr>snap_capacity = reply_int (Option.bind (Option.bind c id) ParseInt),
              snap_active = reply_int a, snap_queued = reply_int q, snap_history = reply_int h\<rparr>))"

definition SetCapacity :: "'db redis \<Rightarrow> int \<Rightarrow> 'db world \<Rightarrow> ('db world \<times> snapshot) option" where
  "SetCapacity R n w =
     (let w = fst (call (\<lambda>d. (SET R d keyCapacity (FormatInt n) None, ())) w)
      in map_option (Snapshot R) (admitPending R w))"

definition ReleaseSlots ::
  "'db redis \<Rightarrow> int \<Rightarrow> 'db world \<Rightarrow> ('db world \<times> int \<times> snapshot) option" where
  "ReleaseSlots R n w =
     (case run_script (luaRelease R keyActive (FormatInt n)) w of (w, r) \<Rightarrow>
        map_option (\<lambda>w. case Snapshot R w of (w, snap) \<Rightarrow> (w, reply_int r, snap)) (admitPending R w))"

end
