(* ===== verification/QueueSteps.thy ===== *)
theory QueueSteps
  imports QueueStore
begin

text \<open>
  The waiting room as a transition system. A step is one atomic request of the service, in any
  order and from any number of handlers and workers, or time passing on the server. Facts that
  every step keeps therefore hold under every interleaving of the handlers and of the worker.
  The theory also shows that the admission loop returns and what it leaves behind.
\<close>

section \<open>Calls\<close>

lemma call_server: "\<exists>n. server (fst (call f w)) = ((fst \<circ> f) ^^ n) (server w)"
proof (cases "net w")
  case Nil
  then show ?thesis by (intro exI [of _ 1]) (simp add: call_def split: prod.split)
next
  case (Cons d ds)
  show ?thesis
  proof (cases d)
    case (Reply n)
    with Cons show ?thesis by (intro exI [of _ "Suc n"]) (simp add: call_def split: prod.split)
  next
    case (Fail n)
    with Cons show ?thesis by (intro exI [of _ n]) (simp add: call_def)
  qed
qed

lemma funpow_inv: "(\<And>d. I d \<Longrightarrow> I (g d)) \<Longrightarrow> I d \<Longrightarrow> I ((g ^^ n) d)"
  by (induction n) auto

lemma call_inv: "(\<And>d. I d \<Longrightarrow> I (fst (f d))) \<Longrightarrow> I (server w) \<Longrightarrow> I (server (fst (call f w)))"
  using call_server [of f w] funpow_inv [of I "fst \<circ> f" "server w"] by auto

lemma call_reply:
  assumes "call f w = (w', Some a)"
  shows "\<exists>n. f (((fst \<circ> f) ^^ n) (server w)) = (server w', a)"
proof (cases "net w")
  case Nil
  with assms show ?thesis by (intro exI [of _ 0]) (auto simp: call_def split: prod.splits)
next
  case (Cons d ds)
  with assms obtain n where "d = Reply n" by (cases d) (auto simp: call_def)
  with Cons assms show ?thesis by (intro exI [of _ n]) (auto simp: call_def split: prod.splits)
qed

lemma call_read:
  assumes "\<And>d. fst (f d) = d" and "call f w = (w', r)"
  shows "server w' = server w" "\<And>a. r = Some a \<Longrightarrow> a = snd (f (server w))"
proof -
  have id: "((fst \<circ> f) ^^ n) d = d" for n d by (induction n) (simp_all add: assms(1))
  show "server w' = server w" using call_server [of f w] assms(2) by (simp add: id)
  fix a assume "r = Some a"
  with assms(2) call_reply [of f w w' a] show "a = snd (f (server w))" by (auto simp: id)
qed

lemma call_clock [simp]: "clock (fst (call f w)) = clock w"
  by (simp add: call_def split: list.split delivery.split prod.split)

lemma call_healthy:
  "net w = [] \<Longrightarrow> call f w = (w\<lparr>server := fst (f (server w))\<rparr>, Some (snd (f (server w))))"
  by (simp add: call_def split: prod.split)

lemma run_script_inv:
  assumes "\<And>d. I d \<Longrightarrow> I (fst (f d))" and "I (server w)"
  shows "I (server (fst (run_script f w)))"
  using call_inv [of I f w] assms
  by (auto simp: run_script_def split: prod.splits option.splits)

lemma run_script_reply:
  "run_script f w = (w', Some a) \<Longrightarrow> \<exists>n. f (((fst \<circ> f) ^^ n) (server w)) = (server w', Some a)"
  by (auto simp: run_script_def split: prod.splits option.splits dest!: call_reply)

lemma run_script_healthy:
  "net w = [] \<Longrightarrow> run_script f w = (w\<lparr>server := fst (f (server w))\<rparr>, snd (f (server w)))"
  by (simp add: run_script_def call_healthy)

lemma run_script_clock [simp]: "clock (fst (run_script f w)) = clock w"
  using call_clock [of f w]
  by (cases "call f w"; cases "snd (call f w)") (simp_all add: run_script_def)

section \<open>Facts about the abstract admission\<close>

lemma admit_fields [simp]:
  "active (admit s now r) = insert s (active r)" "waiting (admit s now r) = waiting r"
  "capacity (admit s now r) = capacity r" "alive (admit s now r) = alive r"
  "status (admit s now r) = (status r)(s \<mapsto> ''active'')"
  by (simp_all add: admit_def)

lemma admit_next_waiting: "\<exists>xs. waiting r = xs @ waiting (fst (admit_next n now r)) \<and> length xs \<le> n"
proof (induction n arbitrary: r)
  case (Suc n)
  show ?case
  proof (cases "full r \<or> waiting r = []")
    case True
    then show ?thesis by (intro exI [of _ "[]"]) auto
  next
    case False
    then obtain s ws where w: "waiting r = s # ws" by (cases "waiting r") auto
    from Suc [of "r\<lparr>waiting := ws\<rparr>"] obtain xs where
      "ws = xs @ waiting (fst (admit_next n now (r\<lparr>waiting := ws\<rparr>)))" "length xs \<le> n" by auto
    with False w show ?thesis
      by (cases "status r s") (auto intro: exI [of _ "[s]"] exI [of _ "s # xs"])
  qed
qed simp

lemma admit_next_Some:
  "admit_next n now r = (r', Some s) \<Longrightarrow>
     length (waiting r') < length (waiting r) \<and> s \<in> set (waiting r) \<and> s \<in> active r' \<and> status r s \<noteq> None"
proof (induction n arbitrary: r)
  case (Suc n)
  then show ?case
    by (cases "waiting r") (fastforce simp: Let_def split: if_splits)+
qed simp

lemma admit_next_None:
  "admit_next n now r = (r', None) \<Longrightarrow>
     full r' \<or> waiting r' = [] \<or> length (waiting r) = length (waiting r') + n"
proof (induction n arbitrary: r)
  case (Suc n)
  then show ?case
    by (cases "waiting r") (fastforce simp: Let_def split: if_splits)+
qed simp

lemma admit_next_fields [simp]:
  "capacity (fst (admit_next n now r)) = capacity r" "alive (fst (admit_next n now r)) = alive r"
  by (induction n arbitrary: r; simp add: Let_def split: list.split)+

text \<open>An attempt admits the first waiting session that is still known, and nobody else.\<close>

lemma admit_next_active:
  "active (fst (admit_next n now r)) =
     (case snd (admit_next n now r) of None \<Rightarrow> active r | Some s \<Rightarrow> insert s (active r))"
  by (induction n arbitrary: r) (simp_all add: Let_def split: list.split option.split)

lemma admit_next_not_full: "snd (admit_next n now r) \<noteq> None \<Longrightarrow> \<not> full r"
proof (induction n arbitrary: r)
  case (Suc n)
  then show ?case by (auto simp: full_def Let_def split: if_splits list.splits)
qed simp

lemma admit_next_status:
  "status (fst (admit_next n now r)) =
     (case snd (admit_next n now r) of None \<Rightarrow> status r | Some s \<Rightarrow> (status r)(s \<mapsto> ''active''))"
  by (induction n arbitrary: r) (simp_all add: Let_def split: list.split option.split)

section \<open>The step relation\<close>

inductive service_step :: "'db redis \<Rightarrow> 'db \<Rightarrow> 'db \<Rightarrow> bool" for R where
  step_try_admit: "service_step R d
      (fst (luaTryAdmit R keyCapacity keyActive (sessionKey sid) keyHistory sid now d))"
| step_join: "service_step R d (fst (luaJoinQueue R (sessionKey sid) keyQueueList sid now d))"
| step_admit_next: "service_step R d
      (fst (luaAdmitNext R keyCapacity keyActive keyQueueList keyHistory now d))"
| step_leave: "service_step R d (fst (luaLeave R keyActive keyQueueList sid d))"
| step_release: "in_int64 n \<Longrightarrow> service_step R d (fst (luaRelease R keyActive (FormatInt n) d))"
| step_reap: "service_step R d (fst (luaReapStale R keyActive keyQueueList d))"
| step_delete_session: "service_step R d (DEL R d (sessionKey sid))"
| step_heartbeat: "service_step R d (SET R d (heartbeatKey sid) ''1'' (Some heartbeatTTL))"
| step_set_capacity: "0 < n \<Longrightarrow> in_int64 n \<Longrightarrow>
      service_step R d (SET R d keyCapacity (FormatInt n) None)"
| step_init_capacity: "0 < n \<Longrightarrow> in_int64 n \<Longrightarrow>
      service_step R d (SETNX R d keyCapacity (FormatInt n))"
| step_elapse: "service_step R d (ELAPSE R d secs)"

inductive_cases service_stepE: "service_step R d d'"

text \<open>\<open>reached R d d'\<close>: the service gets from \<open>d\<close> to \<open>d'\<close> in some number of steps.\<close>

abbreviation reached :: "'db redis \<Rightarrow> 'db \<Rightarrow> 'db \<Rightarrow> bool" where
  "reached R \<equiv> (service_step R)\<^sup>*\<^sup>*"

text \<open>Runs in which the capacity in force never exceeds \<open>C\<close>.\<close>

inductive run_within :: "'db redis \<Rightarrow> ('db \<Rightarrow> keyspace) \<Rightarrow> int \<Rightarrow> 'db \<Rightarrow> 'db \<Rightarrow> bool"
  for R view C d0 where
  run_start: "run_within R view C d0 d0"
| run_next: "run_within R view C d0 d \<Longrightarrow> service_step R d d' \<Longrightarrow>
    capacity (room_of (view d')) \<le> C \<Longrightarrow> run_within R view C d0 d'"

lemma reached_call:
  assumes "\<And>d. reached R d (fst (f d))"
  shows "reached R (server w) (server (fst (call f w)))"
  by (rule call_inv [where I = "reached R (server w)"]) (auto intro: rtranclp_trans assms)

lemma reached_run_script:
  assumes "\<And>d. reached R d (fst (f d))"
  shows "reached R (server w) (server (fst (run_script f w)))"
  by (rule run_script_inv [where I = "reached R (server w)"]) (auto intro: rtranclp_trans assms)

context redis_server
begin

subsection \<open>What one step does to the room\<close>

lemma set_capacity_room:
  assumes "0 < n" and "in_int64 n"
  shows "ok d \<Longrightarrow> ok (SET R d keyCapacity (FormatInt n) None)"
    "room (SET R d keyCapacity (FormatInt n) None) = (room d)\<lparr>capacity := n\<rparr>"
  using assms by (auto simp: commands ParseInt_FormatInt room_writes intro!: room_ok_writes)

lemma init_capacity_room:
  assumes "0 < n" and "in_int64 n" and "ok d"
  shows "ok (SETNX R d keyCapacity (FormatInt n))"
    "room (SETNX R d keyCapacity (FormatInt n)) =
       (if view d keyCapacity = None then (room d)\<lparr>capacity := n\<rparr> else room d)"
  using assms by (auto simp: commands ParseInt_FormatInt room_writes intro!: room_ok_writes)

lemma service_step_ok: "service_step R d d' \<Longrightarrow> ok d \<Longrightarrow> ok d'"
proof (erule service_step.cases, goal_cases)
  case (5 n d)
  then show ?case using luaRelease_refines [of d n] by auto
qed (simp_all add: script_refinements ok_commands set_capacity_room init_capacity_room elapse
    room_ok_writes)

lemma reached_ok: "reached R d d' \<Longrightarrow> ok d \<Longrightarrow> ok d'"
  by (induction rule: rtranclp_induct) (auto intro: service_step_ok)

text \<open>A step only takes one more slot, and only where one is free.\<close>

lemma admit_card:
  assumes "\<not> full r" and "finite (active r)"
  shows "int (card (insert s (active r))) \<le> capacity r"
  using assms card_insert_le_m1 by (auto simp: full_def card_insert_if)

lemma service_step_slots:
  assumes "service_step R d d'" and "ok d"
  shows "int (card (active (room d'))) \<le> max (int (card (active (room d)))) (capacity (room d'))"
  using assms
proof (cases rule: service_step.cases)
  case (step_try_admit sid now)
  show ?thesis
    unfolding step_try_admit luaTryAdmit_refines(1) [OF assms(2)]
    using admit_card [of "room d" sid] ok_reads(12) [OF assms(2)] by (auto simp: try_admit_def)
next
  case (step_admit_next now)
  show ?thesis
    unfolding step_admit_next luaAdmitNext_refines(1) [OF assms(2)] admit_next_active
    using admit_card [of "room d"] ok_reads(12) [OF assms(2)] admit_next_not_full [of 50 now "room d"]
    by (auto simp: le_max_iff_disj split: option.split)
next
  case (step_release n)
  with luaRelease_refines [OF assms(2)] obtain E where "active (room d') = active (room d) - E"
    by (metis room_update_fields(17))
  then show ?thesis using ok_reads(12) [OF assms(2)] by (simp add: card_mono le_max_iff_disj)
next
  case (step_elapse secs)
  with room_of_age [OF assms(2), of secs] show ?thesis by (auto simp: commands le_max_iff_disj)
qed (use assms(2) ok_reads(12) [OF assms(2)] in \<open>auto simp: script_refinements join_def leave_def
      reap_def ok_commands set_capacity_room init_capacity_room card_mono le_max_iff_disj
      card_Diff1_le\<close>)

lemma run_within_slots:
  assumes "run_within R view C d0 d" and "ok d0" and "int (card (active (room d0))) \<le> C"
  shows "ok d \<and> int (card (active (room d))) \<le> C"
  using assms
proof (induction rule: run_within.induct)
  case (run_next d d')
  then show ?case using service_step_ok [of d d'] service_step_slots [of d d'] by (auto simp: max_def split: if_splits)
qed simp

subsection \<open>The order of the queue\<close>

text \<open>
  A session that is recorded as waiting after a step is no further back in the list than before:
  its first entry goes only with an admission, a departure or an eviction, which change the record.
\<close>

lemma admit_next_queued:
  "status (fst (admit_next n now r)) s = Some ''queued'' \<Longrightarrow> status r s = Some ''queued''"
  by (auto simp: admit_next_status split: option.splits if_splits)

lemma admit_next_position:
  "index_of s (waiting r) = Some i \<Longrightarrow> status (fst (admit_next n now r)) s = Some ''queued'' \<Longrightarrow>
     \<exists>j \<le> i. index_of s (waiting (fst (admit_next n now r))) = Some j"
proof (induction n arbitrary: r i)
  case (Suc n)
  show ?case
  proof (cases "full r")
    case False
    obtain t ws where w: "waiting r = t # ws" using Suc.prems(1) by (cases "waiting r") auto
    let ?r = "r\<lparr>waiting := ws\<rparr>"
    have queued: "status r s = Some ''queued''" using admit_next_queued [OF Suc.prems(2)] .
    have "t \<noteq> s"
    proof
      assume "t = s"
      with queued False w Suc.prems(2) show False by (simp add: admit_def)
    qed
    with Suc.prems(1) w obtain k where k: "index_of s ws = Some k" "i = Suc k" by auto
    show ?thesis
    proof (cases "status r t")
      case None
      with Suc.prems(2) False w Suc.IH [of ?r k] k show ?thesis by auto
    next
      case (Some st)
      with False w k show ?thesis by (auto simp: admit_def)
    qed
  qed (use Suc.prems in auto)
qed simp

lemma service_step_position:
  assumes "service_step R d d'" and "ok d" and "index_of s (waiting (room d)) = Some i"
    and "status (room d') s = Some ''queued''"
  shows "\<exists>j \<le> i. index_of s (waiting (room d')) = Some j"
  using assms(1)
proof (cases rule: service_step.cases)
  case (step_admit_next now)
  with assms luaAdmitNext_refines(1) [OF assms(2), of now] show ?thesis
    using admit_next_position [OF assms(3), of 50 now] by simp
next
  case (step_release n)
  with luaRelease_refines [OF assms(2)] have "waiting (room d') = waiting (room d)"
    by (metis room_update_fields(18))
  with assms(3) show ?thesis by auto
next
  case (step_elapse secs)
  with room_of_age [OF assms(2), of secs] assms(3) show ?thesis by (auto simp: elapse)
next
  case (step_join sid now)
  then have "waiting (room d') = waiting (room d) \<or> waiting (room d') = waiting (room d) @ [sid]"
    using luaJoinQueue_refines(1) [OF assms(2), of sid now] by (auto simp: join_def)
  with assms(3) show ?thesis by (metis index_of_None index_of_append option.distinct(1) order_refl)
next
  case (step_leave sid)
  then have room: "room d' = fst (leave sid (room d))" using luaLeave_refines(1) [OF assms(2), of sid] by simp
  with assms(4) have "sid \<noteq> s" by (auto simp: leave_def forget_def)
  with room assms(3) index_of_remove1 [of sid s "waiting (room d)" i] show ?thesis by (auto simp: leave_def)
next
  case step_reap
  then have room: "room d' = fst (reap (room d))" using luaReapStale_refines(1) [OF assms(2)] by simp
  have "s \<in> set (waiting (room d))" using assms(3) by (metis index_of_None option.distinct(1))
  with room assms(4) have "alive (room d) s" by (auto simp: reap_def forget_def stale_def restrict_map_def split: if_splits)
  with room assms(3) index_of_filter [of "alive (room d)" s "waiting (room d)" i] show ?thesis by (simp add: reap_def)
qed (use assms(2,3) in \<open>auto simp: script_refinements try_admit_def admit_def ok_commands
      set_capacity_room init_capacity_room\<close>)

text \<open>An attempt admits the first entry that is still known; what it skips is forgotten sessions.\<close>

lemma admit_next_first:
  "admit_next n now r = (r', Some s) \<Longrightarrow>
     \<exists>xs. waiting r = xs @ s # waiting r' \<and> (\<forall>x \<in> set xs. status r x = None) \<and> length xs < n"
proof (induction n arbitrary: r)
  case (Suc n)
  then obtain t ws where w: "waiting r = t # ws" and nf: "\<not> full r"
    by (cases "waiting r") (auto split: if_splits)
  show ?case
  proof (cases "status r t")
    case None
    with Suc.prems w nf have "admit_next n now (r\<lparr>waiting := ws\<rparr>) = (r', Some s)" by simp
    from Suc.IH [OF this] obtain xs where
      "ws = xs @ s # waiting r'" "\<forall>x \<in> set xs. status r x = None" "length xs < n" by auto
    with w None show ?thesis by (intro exI [of _ "t # xs"]) simp
  next
    case (Some st)
    with Suc.prems w nf show ?thesis by (intro exI [of _ "[]"]) auto
  qed
qed simp

subsection \<open>The admission loop returns\<close>

abbreviation "admit_next_call now \<equiv>
  run_script (luaAdmitNext R keyCapacity keyActive keyQueueList keyHistory now)"

lemma SetHeartbeat_room:
  assumes "ok (server w)"
  shows "ok (server (SetHeartbeat R sid w))"
    "\<exists>H. room (server (SetHeartbeat R sid w)) = (room (server w))\<lparr>alive := H\<rparr>"
proof -
  let ?I = "\<lambda>d. ok d \<and> (\<exists>H. room d = (room (server w))\<lparr>alive := H\<rparr>)"
  have "?I (server (SetHeartbeat R sid w))"
    unfolding SetHeartbeat_def
  proof (rule call_inv [where I = ?I])
    show "?I (server w)" using assms by (intro conjI exI [of _ "alive (room (server w))"]) simp_all
    fix d assume "?I d"
    then show "?I (fst (SET R d (heartbeatKey sid) ''1'' (Some heartbeatTTL), ()))"
      by (auto simp: ok_commands)
  qed
  then show "ok (server (SetHeartbeat R sid w))"
    "\<exists>H. room (server (SetHeartbeat R sid w)) = (room (server w))\<lparr>alive := H\<rparr>" by blast+
qed

lemma admit_next_call_ok: "ok (server w) \<Longrightarrow> ok (server (fst (admit_next_call now w)))"
  by (rule run_script_inv [where I = ok]) (simp_all add: luaAdmitNext_refines)

lemma admit_next_call_shrinks:
  assumes "ok (server w)" and "admit_next_call now w = (w', Some (Some sid))"
  shows "length (waiting (room (server w'))) < length (waiting (room (server w)))"
proof -
  let ?f = "luaAdmitNext R keyCapacity keyActive keyQueueList keyHistory now"
  from run_script_reply [OF assms(2)] obtain n where
    n: "?f (((fst \<circ> ?f) ^^ n) (server w)) = (server w', Some (Some sid))" by blast
  let ?d = "((fst \<circ> ?f) ^^ n) (server w)"
  have "ok ?d \<and> length (waiting (room ?d)) \<le> length (waiting (room (server w)))"
  proof (rule funpow_inv [where I = "\<lambda>d. ok d \<and> length (waiting (room d)) \<le> length (waiting (room (server w)))"])
    fix d assume "ok d \<and> length (waiting (room d)) \<le> length (waiting (room (server w)))"
    then show "ok ((fst \<circ> ?f) d) \<and> length (waiting (room ((fst \<circ> ?f) d))) \<le> length (waiting (room (server w)))"
      using admit_next_waiting [of "room d" 50 now] by (auto simp: luaAdmitNext_refines)
  qed (use assms(1) in simp)
  moreover from this have "length (waiting (room (server w'))) < length (waiting (room ?d))"
    using luaAdmitNext_refines [of ?d now] admit_next_Some [of 50 now "room ?d" "room (server w')" sid]
    by (simp add: n prod_eq_iff)
  ultimately show ?thesis by linarith
qed

lemma admitPending_loop_returns:
  assumes "ok (server w)"
  shows "\<exists>w'. admitPending_loop R now w = Some w' \<and> ok (server w')"
  using assms
proof (induction "length (waiting (room (server w)))" arbitrary: w rule: less_induct)
  case less
  obtain w1 r where c: "admit_next_call now w = (w1, r)" by fastforce
  have ok1: "ok (server w1)" using admit_next_call_ok [OF less.prems, of now] by (simp add: c)
  show ?case
  proof (cases "\<exists>sid. r = Some (Some sid)")
    case True
    then obtain sid where r: "r = Some (Some sid)" by blast
    have "length (waiting (room (server (SetHeartbeat R sid w1)))) < length (waiting (room (server w)))"
      using SetHeartbeat_room(2) [OF ok1, of sid] admit_next_call_shrinks [OF less.prems c [unfolded r]]
      by auto
    from less.hyps [OF this SetHeartbeat_room(1) [OF ok1]] show ?thesis
      by (subst admitPending_loop.simps) (simp add: c r)
  next
    case False
    with ok1 show ?thesis
      by (subst admitPending_loop.simps) (auto simp: c split: option.splits)
  qed
qed

lemma admitPending_returns:
  "ok (server w) \<Longrightarrow> \<exists>w'. admitPending R w = Some w' \<and> ok (server w')"
  by (simp add: admitPending_def admitPending_loop_returns)

text \<open>On a healthy connection the loop ends with an attempt that admits nobody.\<close>

lemma admitPending_loop_last:
  assumes "ok (server w)" and "net w = []" and "admitPending_loop R now w = Some w'"
  shows "\<exists>d. ok d \<and> set (waiting (room d)) \<subseteq> set (waiting (room (server w))) \<and>
    dom (status (room (server w))) \<subseteq> dom (status (room d)) \<and>
    admit_next 50 now (room d) = (room (server w'), None)"
  using assms
proof (induction "length (waiting (room (server w)))" arbitrary: w rule: less_induct)
  case less
  note ok = less.prems(1)
  let ?d1 = "fst (luaAdmitNext R keyCapacity keyActive keyQueueList keyHistory now (server w))"
  let ?w1 = "w\<lparr>server := ?d1\<rparr>"
  have c: "admit_next_call now w = (?w1, Some (snd (admit_next 50 now (room (server w)))))"
    using less.prems(2) luaAdmitNext_refines(2) [OF ok] by (simp add: run_script_healthy)
  note loop = less.prems(3) [unfolded admitPending_loop.simps [of R now w] c]
  show ?case
  proof (cases "snd (admit_next 50 now (room (server w)))")
    case None
    with loop less.prems(1) luaAdmitNext_refines(1) [OF ok] show ?thesis
      by (intro exI [of _ "server w"]) (auto simp: prod_eq_iff)
  next
    case (Some sid)
    let ?w2 = "SetHeartbeat R sid ?w1"
    have ok1: "ok (server ?w1)" using luaAdmitNext_refines(3) [OF ok] by simp
    obtain H where H: "room (server ?w2) = (room ?d1)\<lparr>alive := H\<rparr>"
      using SetHeartbeat_room(2) [OF ok1, of sid] by auto
    have r1: "room ?d1 = fst (admit_next 50 now (room (server w)))" by (rule luaAdmitNext_refines [OF ok])
    have short: "length (waiting (room (server ?w2))) < length (waiting (room (server w)))"
      using admit_next_Some [of 50 now "room (server w)" "room ?d1" sid] Some H
      by (simp add: r1 prod_eq_iff)
    have net: "net ?w2 = []"
      using less.prems(2) by (simp add: SetHeartbeat_def call_healthy)
    have rest: "admitPending_loop R now ?w2 = Some w'" using loop Some by simp
    have sub: "set (waiting (room (server ?w2))) \<subseteq> set (waiting (room (server w)))"
      using admit_next_waiting [of "room (server w)" 50 now] H by (auto simp: r1)
    have dom: "dom (status (room (server w))) \<subseteq> dom (status (room (server ?w2)))"
      using Some H by (auto simp: r1 admit_next_status)
    from less.hyps [OF short SetHeartbeat_room(1) [OF ok1] net rest] sub dom
    show ?thesis by blast
  qed
qed

end

end
