(* ===== verification/Http.thy ===== *)
theory Http
  imports GoLib
begin

text \<open>
  What the handlers use of \<open>net/http\<close> and \<open>encoding/json\<close>: header maps with canonical keys,
  the cookie and query lookups of a request, JSON values and decoding them into struct fields,
  and the responses written by \<open>http.Error\<close>, \<open>http.Redirect\<close> and the services' \<open>writeJSON\<close>.
  A request carries its body as the first JSON value of the stream, \<open>None\<close> when the text has
  none (the decoder then reports a syntax error).
\<close>

section \<open>Headers\<close>

definition upper_byte :: "char \<Rightarrow> char" where
  "upper_byte c = (let n = of_char c :: nat in if 97 \<le> n \<and> n \<le> 122 then char_of (n - 32) else c)"

text \<open>\<open>textproto.CanonicalMIMEHeaderKey\<close> on a valid header field name.\<close>

fun canonical_from :: "bool \<Rightarrow> string \<Rightarrow> string" where
  "canonical_from up [] = []"
| "canonical_from up (c # cs) =
     (if up then upper_byte c else lower_byte c) # canonical_from (c = CHR ''-'') cs"

definition CanonicalHeaderKey :: "string \<Rightarrow> string" where
  "CanonicalHeaderKey k = canonical_from True k"

type_synonym header = "string \<rightharpoonup> string list"

definition header_Set :: "header \<Rightarrow> string \<Rightarrow> string \<Rightarrow> header" where
  "header_Set h k v = h(CanonicalHeaderKey k \<mapsto> [v])"

definition header_Add :: "header \<Rightarrow> string \<Rightarrow> string \<Rightarrow> header" where
  "header_Add h k v = h(CanonicalHeaderKey k \<mapsto>
     (case h (CanonicalHeaderKey k) of None \<Rightarrow> [] | Some vs \<Rightarrow> vs) @ [v])"

definition header_Get :: "header \<Rightarrow> string \<Rightarrow> string" where
  "header_Get h k = (case h (CanonicalHeaderKey k) of Some (v # _) \<Rightarrow> v | _ \<Rightarrow> '''')"

lemma header_Get_Set [simp]:
  "header_Get (header_Set h k v) k' =
     (if CanonicalHeaderKey k' = CanonicalHeaderKey k then v else header_Get h k')"
  by (simp add: header_Get_def header_Set_def)

lemma header_Get_empty [simp]: "header_Get Map.empty k = ''''"
  by (simp add: header_Get_def)

section \<open>JSON\<close>

text \<open>A number keeps its literal, since decoding into an \<open>int\<close> looks at the literal.\<close>

datatype json = JNull | JBool bool | JNum string | JStr string
  | JArr "json list" | JObj "(string \<times> json) list"

definition field_matches :: "string \<Rightarrow> string \<Rightarrow> bool" where
  "field_matches name key \<longleftrightarrow> key = name \<or> ToLower key = ToLower name"

text \<open>
  Decoding an object into a struct with one field: the members are taken in order, a \<open>null\<close>
  leaves the field alone, a value of the wrong type is an error that does not stop the rest.
  The result is whether decoding succeeded and the field's final value.
\<close>

fun decode_members :: "(json \<Rightarrow> 'a option) \<Rightarrow> string \<Rightarrow> (string \<times> json) list \<Rightarrow> bool \<times> 'a \<Rightarrow> bool \<times> 'a" where
  "decode_members conv name [] acc = acc"
| "decode_members conv name ((k, v) # ms) (good, x) =
     decode_members conv name ms
       (if \<not> field_matches name k \<or> v = JNull then (good, x)
        else case conv v of None \<Rightarrow> (False, x) | Some y \<Rightarrow> (good, y))"

definition decode_field :: "(json \<Rightarrow> 'a option) \<Rightarrow> string \<Rightarrow> 'a \<Rightarrow> json option \<Rightarrow> bool \<times> 'a" where
  "decode_field conv name zero body =
     (case body of
        None \<Rightarrow> (False, zero)
      | Some JNull \<Rightarrow> (True, zero)
      | Some (JObj ms) \<Rightarrow> decode_members conv name ms (True, zero)
      | Some _ \<Rightarrow> (False, zero))"

fun json_int :: "json \<Rightarrow> int option" where
  "json_int (JNum lit) = (if take 1 lit = ''+'' then None else ParseInt lit)"
| "json_int _ = None"

fun json_string :: "json \<Rightarrow> string option" where
  "json_string (JStr s) = Some s"
| "json_string _ = None"

lemma decode_members_fst: "fst (decode_members conv name ms (False, x)) = False"
proof (induction ms arbitrary: x)
  case (Cons m ms)
  then show ?case by (cases m) (auto split: option.splits)
qed simp

definition JInt :: "int \<Rightarrow> json" where
  "JInt n = JNum (FormatInt n)"

section \<open>Requests and responses\<close>

record request =
  req_method :: string
  req_path :: string
  req_cookies :: "(string \<times> string) list"
  req_header :: header
  req_rawquery :: string
  req_body :: "json option"

text \<open>
  \<open>url.ParseQuery\<close> with its error ignored, as \<open>r.URL.Query()\<close> does: a pair with a semicolon or a
  bad escape is left out. \<open>Get\<close> takes the first pair of a name.
\<close>

definition unhex :: "char \<Rightarrow> nat option" where
  "unhex c = (let n = of_char c :: nat in
     if 48 \<le> n \<and> n \<le> 57 then Some (n - 48) else if 97 \<le> n \<and> n \<le> 102 then Some (n - 87)
     else if 65 \<le> n \<and> n \<le> 70 then Some (n - 55) else None)"

fun QueryUnescape :: "string \<Rightarrow> string option" where
  "QueryUnescape [] = Some []"
| "QueryUnescape (c # s) =
     (if c = CHR ''%'' then
        (case s of
           a # b # s \<Rightarrow>
             (case (unhex a, unhex b) of
                (Some x, Some y) \<Rightarrow> map_option (\<lambda>t. char_of (16 * x + y) # t) (QueryUnescape s)
              | _ \<Rightarrow> None)
         | _ \<Rightarrow> None)
      else map_option (\<lambda>t. (if c = CHR ''+'' then CHR '' '' else c) # t) (QueryUnescape s))"

definition query_pair :: "string \<Rightarrow> (string \<times> string) option" where
  "query_pair p =
     (if CHR '';'' \<in> set p \<or> p = [] then None
      else case (QueryUnescape (takeWhile (\<lambda>c. c \<noteq> CHR ''='') p), QueryUnescape (drop 1 (dropWhile (\<lambda>c. c \<noteq> CHR ''='') p))) of
             (Some k, Some v) \<Rightarrow> Some (k, v)
           | _ \<Rightarrow> None)"

definition ParseQuery :: "string \<Rightarrow> (string \<times> string) list" where
  "ParseQuery q = List.map_filter query_pair (Split q CHR ''&'')"

definition Query_Get :: "request \<Rightarrow> string \<Rightarrow> string" where
  "Query_Get r key = (case map_of (ParseQuery (req_rawquery r)) key of Some v \<Rightarrow> v | None \<Rightarrow> '''')"

text \<open>\<open>r.Cookie(name)\<close>: the first cookie of that name, or \<open>ErrNoCookie\<close>.\<close>

definition req_Cookie :: "request \<Rightarrow> string \<Rightarrow> string option" where
  "req_Cookie r name = map_of (req_cookies r) name"

datatype body = NoBody | JsonBody json | TextBody string | FileBody string

record response =
  resp_status :: nat
  resp_header :: header
  resp_body :: body

text \<open>
  What a handler ends with: it wrote a response, it handed the request (with the response
  headers set so far) to the reverse proxy, or it panicked.
\<close>

datatype served = Served response | Proxied header request | Panicked string

definition write_json :: "header \<Rightarrow> nat \<Rightarrow> json \<Rightarrow> served" where
  "write_json h code v = Served \<lparr>resp_status = code,
     resp_header = header_Set h ''Content-Type'' ''application/json'', resp_body = JsonBody v\<rparr>"

definition http_Error :: "header \<Rightarrow> string \<Rightarrow> nat \<Rightarrow> served" where
  "http_Error h msg code = Served \<lparr>resp_status = code,
     resp_header = header_Set (header_Set h ''Content-Type'' ''text/plain; charset=utf-8'')
       ''X-Content-Type-Options'' ''nosniff'',
     resp_body = TextBody (msg @ [CHR 0x0A])\<rparr>"

text \<open>\<open>http.Redirect\<close> to an absolute path with status 302.\<close>

definition http_Redirect :: "header \<Rightarrow> request \<Rightarrow> string \<Rightarrow> served" where
  "http_Redirect h r url =
     (let h1 = header_Set h ''Location'' url;
          html = (req_method r = ''GET'' \<or> req_method r = ''HEAD'')
      in Served \<lparr>resp_status = 302,
           resp_header = (if html then header_Set h1 ''Content-Type'' ''text/html; charset=utf-8'' else h1),
           resp_body = (if req_method r = ''GET''
             then TextBody (''<a href=\"'' @ url @ ''\">Found</a>.'' @ [CHR 0x0A, CHR 0x0A])
             else NoBody)\<rparr>)"

text \<open>
  \<open>ServeMux\<close>'s own redirect of a subtree's root to the path with the trailing slash, which keeps
  the query. The address is escaped for the header and for the page.
\<close>

definition hexEscapeNonASCII :: "string \<Rightarrow> string" where
  "hexEscapeNonASCII s = concat (map (\<lambda>c. let n = of_char c :: nat in
     if n < 128 then [c] else [CHR ''%'', ''0123456789abcdef'' ! (n div 16), ''0123456789abcdef'' ! (n mod 16)]) s)"

definition htmlEscape :: "string \<Rightarrow> string" where
  "htmlEscape s = concat (map (\<lambda>c.
     if c = CHR ''&'' then ''&amp;'' else if c = CHR ''<'' then ''&lt;'' else if c = CHR ''>'' then ''&gt;''
     else if c = CHR 0x22 then ''&#34;'' else if c = CHR 0x27 then ''&#39;'' else [c]) s)"

definition mux_redirect :: "request \<Rightarrow> string \<Rightarrow> served" where
  "mux_redirect r path =
     (let url = path @ (if req_rawquery r = '''' then '''' else ''?'' @ req_rawquery r)
      in Served \<lparr>resp_status = 301,
           resp_header = (let h = header_Set Map.empty ''Location'' (hexEscapeNonASCII url)
             in if req_method r = ''GET'' \<or> req_method r = ''HEAD''
                then header_Set h ''Content-Type'' ''text/html; charset=utf-8'' else h),
           resp_body = (if req_method r = ''GET''
             then TextBody (''<a href=\"'' @ htmlEscape url @ ''\">Moved Permanently</a>.'' @ [CHR 0x0A, CHR 0x0A])
             else NoBody)\<rparr>)"

definition write_status :: "header \<Rightarrow> nat \<Rightarrow> served" where
  "write_status h code = Served \<lparr>resp_status = code, resp_header = h, resp_body = NoBody\<rparr>"

definition serve_file :: "header \<Rightarrow> string \<Rightarrow> served" where
  "serve_file h path = Served \<lparr>resp_status = 200, resp_header = h, resp_body = FileBody path\<rparr>"

lemma response_not_proxied [simp]:
  "write_json h c v \<noteq> Proxied h' r'" "http_Error h m c \<noteq> Proxied h' r'"
  "http_Redirect h r u \<noteq> Proxied h' r'" "write_status h c \<noteq> Proxied h' r'"
  "serve_file h p \<noteq> Proxied h' r'" "mux_redirect r u \<noteq> Proxied h' r'"
  by (simp_all add: write_json_def http_Error_def http_Redirect_def write_status_def serve_file_def
      mux_redirect_def Let_def)

end
