(* ===== verification/QueueHandlers.thy ===== *)
theory QueueHandlers
  imports QueueSteps Http
begin

text \<open>
  The HTTP side of the queue service: its configuration (\<open>internal/config/config.go\<close>), the
  gate in front of the target (\<open>internal/handler/gate.go\<close>), the session and admin endpoints
  (\<open>session.go\<close>, \<open>admin.go\<close>) and the routing of \<open>handler.go\<close>. A handler takes the
  request and the world and returns the world it leaves behind and how it ended; \<open>None\<close> would
  be a handler that does not return. The identifier \<open>uuid.New()\<close> makes is an argument.
\<close>

section \<open>Configuration\<close>

record queue_config =
  RedisAddr :: string
  TargetURL :: string
  Capacity :: int
  Port :: string
  WebDir :: string

definition orDefault :: "(string \<Rightarrow> string) \<Rightarrow> string \<Rightarrow> string \<Rightarrow> string" where
  "orDefault getenv key dflt = (let v = getenv key in if v \<noteq> '''' then v else dflt)"

definition queue_Load :: "(string \<Rightarrow> string) \<Rightarrow> queue_config" where
  "queue_Load getenv =
     (let v = getenv ''QUEUE_CAPACITY'';
          n = (if v \<noteq> '''' then (case ParseInt v of Some n \<Rightarrow> if n > 0 then n else 3 | None \<Rightarrow> 3) else 3)
      in \<lparr>RedisAddr = orDefault getenv ''REDIS_ADDR'' ''localhost:6379'',
          TargetURL = orDefault getenv ''TARGET_URL'' ''http://target:80'',
          Capacity = n,
          Port = orDefault getenv ''PORT'' ''8080'',
          WebDir = orDefault getenv ''WEB_DIR'' ''./web''\<rparr>)"

section \<open>Sessions\<close>

definition cookieName :: string where "cookieName = ''qsid''"

text \<open>The session identifier and the response headers after a possible \<open>Set-Cookie\<close>.\<close>

definition getOrCreateSession :: "string \<Rightarrow> request \<Rightarrow> string \<times> header" where
  "getOrCreateSession uuid r =
     (let fresh = (uuid, header_Add Map.empty ''Set-Cookie''
            (cookieName @ ''='' @ uuid @ ''; Path=/; Max-Age=86400; HttpOnly; SameSite=Lax''))
      in case req_Cookie r cookieName of
           Some v \<Rightarrow> if v \<noteq> '''' then (v, Map.empty) else fresh
         | None \<Rightarrow> fresh)"

definition sessionID :: "request \<Rightarrow> string" where
  "sessionID r = (case req_Cookie r cookieName of Some v \<Rightarrow> v | None \<Rightarrow> '''')"

section \<open>The gate\<close>

text \<open>The part of \<open>rootHandler\<close> for a session that holds no slot.\<close>

definition rootHandler_admit ::
  "'db redis \<Rightarrow> string \<Rightarrow> header \<Rightarrow> request \<Rightarrow> 'db world \<Rightarrow> 'db world \<times> served" where
  "rootHandler_admit R sid h r w =
     (if req_path r \<noteq> ''/'' then (w, http_Redirect h r ''/'')
      else let now = FormatInt (clock w);
               (w, admitted) = TryAdmit R sid now w
           in if admitted then (SetHeartbeat R sid w, Proxied h r)
              else let w = JoinQueue R sid now w;
                       w = SetHeartbeat R sid w
                   in (w, http_Redirect h r ''/queue''))"

definition rootHandler ::
  "'db redis \<Rightarrow> string \<Rightarrow> request \<Rightarrow> 'db world \<Rightarrow> 'db world \<times> served" where
  "rootHandler R uuid r w =
     (let (sid, h) = getOrCreateSession uuid r;
          (w, st) = GetStatus R sid w
      in if st = ''active''
         then let (w, held) = IsInActiveSet R sid w
              in if held then (w, Proxied h r)
                 else rootHandler_admit R sid h r (DeleteSession R sid w)
         else rootHandler_admit R sid h r w)"

definition queuePageHandler ::
  "'db redis \<Rightarrow> queue_config \<Rightarrow> request \<Rightarrow> 'db world \<Rightarrow> 'db world \<times> served" where
  "queuePageHandler R cfg r w =
     (let sid = sessionID r
      in if sid = '''' then (w, http_Redirect Map.empty r ''/'')
         else let (w, st) = GetStatus R sid w;
                  (w, held) = (if st = ''active'' then IsInActiveSet R sid w else (w, False))
              in if held then (w, http_Redirect Map.empty r ''/'')
                 else (SetHeartbeat R sid w, serve_file Map.empty (WebDir cfg @ ''/queue.html'')))"

definition doneHandler :: "queue_config \<Rightarrow> 'db world \<Rightarrow> 'db world \<times> served" where
  "doneHandler cfg w = (w, serve_file Map.empty (WebDir cfg @ ''/done.html''))"

text \<open>Maps are encoded with their keys in order.\<close>

definition position_lookup ::
  "'db redis \<Rightarrow> string \<Rightarrow> 'db world \<Rightarrow> 'db world \<times> served" where
  "position_lookup R sid w =
     (let (w, pos) = GetPosition R sid w
      in case pos of
           None \<Rightarrow> (w, write_json Map.empty 200 (JObj [(''status'', JStr ''unknown'')]))
         | Some p \<Rightarrow>
             let (w, eta) = CalculateETA R (Pos p) w
             in (w, write_json Map.empty 200 (JObj [(''eta_seconds'', JInt eta), (''position'', JInt (Pos p)),
                      (''status'', JStr ''queued''), (''total'', JInt (Total p))])))"

definition positionHandler :: "'db redis \<Rightarrow> request \<Rightarrow> 'db world \<Rightarrow> 'db world \<times> served" where
  "positionHandler R r w =
     (let sid = sessionID r
      in if sid = '''' then (w, write_json Map.empty 200 (JObj [(''status'', JStr ''no_session'')]))
         else let (w, st) = GetStatus R sid w
              in if st = ''active''
                 then let (w, held) = IsInActiveSet R sid w
                      in if held
                         then (w, write_json Map.empty 200
                                (JObj [(''redirect'', JStr ''/''), (''status'', JStr ''active'')]))
                         else position_lookup R sid (DeleteSession R sid w)
                 else position_lookup R sid w)"

definition healthHandler :: "'db world \<Rightarrow> 'db world \<times> served" where
  "healthHandler w =
     (let (w, up) = Ping w
      in if up then (w, write_json Map.empty 200 (JObj [(''status'', JStr ''ok'')]))
         else (w, write_json Map.empty 503 (JObj [(''status'', JStr ''redis_unavailable'')])))"

section \<open>Session lifecycle\<close>

definition sessionHeartbeatHandler :: "'db redis \<Rightarrow> request \<Rightarrow> 'db world \<Rightarrow> 'db world \<times> served" where
  "sessionHeartbeatHandler R r w =
     (let sid = sessionID r
      in if sid = '''' then (w, write_status Map.empty 200)
         else let (w, st) = GetStatus R sid w;
                  w = (if st = ''active'' \<or> st = ''queued'' then SetHeartbeat R sid w else w)
              in (w, write_status Map.empty 200))"

text \<open>The log line slices \<open>sid[:8]\<close>, which panics on a shorter identifier.\<close>

definition sessionLeaveHandler ::
  "'db redis \<Rightarrow> request \<Rightarrow> 'db world \<Rightarrow> ('db world \<times> served) option" where
  "sessionLeaveHandler R r w =
     (let sid = sessionID r
      in if sid = '''' then Some (w, write_status Map.empty 200)
         else map_option
                (\<lambda>(w, wasActive).
                   (w, if length sid < 8 then Panicked ''slice bounds out of range''
                       else write_status Map.empty 200))
                (Leave R sid w))"

section \<open>Admin\<close>

definition snapshot_json :: "snapshot \<Rightarrow> json" where
  "snapshot_json s = JObj [(''capacity'', JInt (snap_capacity s)), (''active'', JInt (snap_active s)),
     (''queued'', JInt (snap_queued s)), (''history_entries'', JInt (snap_history s))]"

definition adminCapacityHandler ::
  "'db redis \<Rightarrow> request \<Rightarrow> 'db world \<Rightarrow> ('db world \<times> served) option" where
  "adminCapacityHandler R r w =
     (let (decoded, n) = decode_field json_int ''capacity'' 0 (req_body r)
      in if \<not> decoded \<or> n \<le> 0
         then Some (w, http_Error Map.empty ''{\"error\":\"capacity must be a positive integer\"}'' 400)
         else map_option (\<lambda>(w, snap). (w, write_json Map.empty 200 (snapshot_json snap)))
                (SetCapacity R n w))"

definition adminReleaseHandler ::
  "'db redis \<Rightarrow> request \<Rightarrow> 'db world \<Rightarrow> ('db world \<times> served) option" where
  "adminReleaseHandler R r w =
     (let (_, n) = decode_field json_int ''count'' 0 (req_body r);
          n = (if n \<le> 0 then 1 else n);
          n = (if n > 100 then 100 else n)
      in map_option
           (\<lambda>(w, released, snap).
              (w, write_json Map.empty 200 (JObj [(''active'', JInt (snap_active snap)),
                    (''capacity'', JInt (snap_capacity snap)), (''queued'', JInt (snap_queued snap)),
                    (''released'', JInt released)])))
           (ReleaseSlots R n w))"

definition adminStatusHandler :: "'db redis \<Rightarrow> 'db world \<Rightarrow> 'db world \<times> served" where
  "adminStatusHandler R w =
     (case Snapshot R w of (w, snap) \<Rightarrow> (w, write_json Map.empty 200 (snapshot_json snap)))"

section \<open>Routing\<close>

text \<open>
  \<open>ServeMux\<close>: a pattern with method GET also serves HEAD, \<open>GET /static/\<close> matches by prefix and
  redirects its root without the slash, and the pattern \<open>/\<close> takes every request no other
  pattern matches, whatever its method. The path of a request is a clean one: the multiplexer
  redirects any other before it looks for a handler.
\<close>

definition is_get :: "request \<Rightarrow> bool" where
  "is_get r \<longleftrightarrow> req_method r = ''GET'' \<or> req_method r = ''HEAD''"

definition Routes ::
  "'db redis \<Rightarrow> queue_config \<Rightarrow> string \<Rightarrow> request \<Rightarrow> 'db world \<Rightarrow> ('db world \<times> served) option" where
  "Routes R cfg uuid r w =
     (let p = req_path r; post = (req_method r = ''POST'')
      in if is_get r \<and> p = ''/health'' then Some (healthHandler w)
         else if is_get r \<and> p = ''/queue'' then Some (queuePageHandler R cfg r w)
         else if is_get r \<and> p = ''/api/queue/position'' then Some (positionHandler R r w)
         else if is_get r \<and> p = ''/done'' then Some (doneHandler cfg w)
         else if post \<and> p = ''/api/session/heartbeat'' then Some (sessionHeartbeatHandler R r w)
         else if post \<and> p = ''/api/session/leave'' then sessionLeaveHandler R r w
         else if post \<and> p = ''/api/admin/capacity'' then adminCapacityHandler R r w
         else if post \<and> p = ''/api/admin/release'' then adminReleaseHandler R r w
         else if is_get r \<and> p = ''/api/admin/status'' then Some (adminStatusHandler R w)
         else if is_get r \<and> p = ''/static'' then Some (w, mux_redirect r ''/static/'')
         else if is_get r \<and> HasPrefix p ''/static/''
         then Some (w, serve_file Map.empty (WebDir cfg @ ''/static/'' @ TrimPrefix p ''/static/''))
         else Some (rootHandler R uuid r w))"

section \<open>Start-up\<close>

text \<open>
  \<open>connectRedis\<close>: up to 30 attempts with a second between them, and the client is returned
  whether or not the server ever answered. \<open>main\<close> then seeds the capacity; from there on the
  worker and the routes run concurrently, which is the transition system of the service.
\<close>

fun connectRedis_loop :: "nat \<Rightarrow> 'db redis \<Rightarrow> 'db world \<Rightarrow> 'db world" where
  "connectRedis_loop 0 R w = w"
| "connectRedis_loop (Suc n) R w =
     (let (w, up) = Ping w
      in if up then w
         else connectRedis_loop n R (w\<lparr>server := ELAPSE R (server w) 1, clock := clock w + 1\<rparr>))"

definition connectRedis :: "'db redis \<Rightarrow> 'db world \<Rightarrow> 'db world" where
  "connectRedis R w = connectRedis_loop 30 R w"

definition queue_main :: "'db redis \<Rightarrow> (string \<Rightarrow> string) \<Rightarrow> 'db world \<Rightarrow> queue_config \<times> 'db world" where
  "queue_main R getenv w =
     (let cfg = queue_Load getenv;
          w = connectRedis R w
      in (cfg, InitCapacity R (Capacity cfg) w))"

end
