(* ===== verification/QueueGate.thy ===== *)
theory QueueGate
  imports QueueHandlers
begin

text \<open>
  What holds of the queue service's handlers: they change the server only by steps of the
  transition system, they always return, and only sessions that hold a slot reach the target,
  whatever the connection to Redis does.
\<close>

section \<open>Every store operation is a sequence of service steps\<close>

named_theorems store_reads \<open>store operations that leave the server alone\<close>
named_theorems store_steps \<open>store operations as service steps\<close>

lemma call_read_server [simp]: "server (fst (call (\<lambda>d. (d, g d)) w)) = server w"
  using call_read(1) [of "\<lambda>d. (d, g d)" w] by (cases "call (\<lambda>d. (d, g d)) w") auto

lemma call_read_pair: "call (\<lambda>d. (d, g d)) w = (w', r) \<Longrightarrow> server w' = server w"
  using call_read_server [of g w] by simp

lemma store_read_server [store_reads]:
  "GetStatus R sid w = (w', st) \<Longrightarrow> server w' = server w"
  "IsInActiveSet R sid w = (w', b) \<Longrightarrow> server w' = server w"
  "GetPosition R sid w = (w', p) \<Longrightarrow> server w' = server w"
  "CalculateETA R n w = (w', e) \<Longrightarrow> server w' = server w"
  "Ping w = (w', b) \<Longrightarrow> server w' = server w"
  by (auto simp: GetStatus_def IsInActiveSet_def GetPosition_def CalculateETA_def Ping_def Let_def
      split: prod.splits option.splits dest: call_read_pair)

lemma Snapshot_server [store_reads]: "Snapshot R w = (w', s) \<Longrightarrow> server w' = server w"
  by (auto simp: Snapshot_def Let_def split: prod.splits dest!: call_read_pair)

lemma reached_write:
  "(\<And>d. service_step R d (g d)) \<Longrightarrow> reached R (server w) (server (fst (call (\<lambda>d. (g d, ())) w)))"
  by (rule reached_call) auto

lemma store_write_reached [store_steps]:
  "reached R (server w) (server (DeleteSession R sid w))"
  "reached R (server w) (server (SetHeartbeat R sid w))"
  "0 < n \<Longrightarrow> in_int64 n \<Longrightarrow> reached R (server w) (server (InitCapacity R n w))"
  "0 < n \<Longrightarrow> in_int64 n \<Longrightarrow> reached R (server w)
     (server (fst (call (\<lambda>d. (SET R d keyCapacity (FormatInt n) None, ())) w)))"
  by (auto simp: DeleteSession_def SetHeartbeat_def InitCapacity_def
      intro!: reached_write intro: service_step.intros)

lemma script_reached:
  "(\<And>d. service_step R d (fst (f d))) \<Longrightarrow> run_script f w = (w', r) \<Longrightarrow> reached R (server w) (server w')"
  using reached_run_script [of R f w] by auto

lemma TryAdmit_reached [store_steps]:
  "TryAdmit R sid now w = (w', b) \<Longrightarrow> reached R (server w) (server w')"
  by (auto simp: TryAdmit_def split: prod.splits option.splits
      elim!: script_reached [rotated] intro: service_step.intros)

lemma JoinQueue_reached [store_steps]: "reached R (server w) (server (JoinQueue R sid now w))"
  unfolding JoinQueue_def by (rule reached_run_script) (auto intro: service_step.intros)

text \<open>What an attempt and a heartbeat keep, the admission loop keeps.\<close>

lemma admitPending_loop_inv:
  assumes "admitPending_loop R now w = Some w'" and "I (server w)"
    and next_inv: "\<And>d. I d \<Longrightarrow> I (fst (luaAdmitNext R keyCapacity keyActive keyQueueList keyHistory now d))"
    and beat_inv: "\<And>d sid. I d \<Longrightarrow> I (SET R d (heartbeatKey sid) ''1'' (Some heartbeatTTL))"
  shows "I (server w')"
proof -
  let ?P = "\<lambda>R' now' (w :: 'a world) w'. R' = R \<longrightarrow> now' = now \<longrightarrow> I (server w) \<longrightarrow> I (server w')"
  have "?P R now w w'"
  proof (rule admitPending_loop.raw_induct [where P = ?P, OF _ assms(1)], intro impI)
    fix loop R' now' and w w' :: "'a world"
    assume IH: "\<And>R' now' (w :: 'a world) w'. loop R' now' w = Some w' \<Longrightarrow> ?P R' now' w w'"
      and eq: "(case run_script (luaAdmitNext R' keyCapacity keyActive keyQueueList keyHistory now') w of
          (w, Some (Some sid)) \<Rightarrow> loop R' now' (SetHeartbeat R' sid w)
        | (w, Some None) \<Rightarrow> Some w
        | (w, None) \<Rightarrow> Some w) = Some w'"
      and same: "R' = R" "now' = now" and start: "I (server w)"
    obtain w1 r where c: "run_script (luaAdmitNext R keyCapacity keyActive keyQueueList keyHistory now) w = (w1, r)"
      by fastforce
    have one: "I (server w1)"
      using run_script_inv [of I "luaAdmitNext R keyCapacity keyActive keyQueueList keyHistory now" w]
        next_inv start by (simp add: c)
    have beat: "I (server (SetHeartbeat R sid w1))" for sid
      unfolding SetHeartbeat_def by (rule call_inv) (simp_all add: beat_inv one)
    show "I (server w')"
      using eq c one beat IH [of R now "SetHeartbeat R _ w1" w'] same
      by (auto split: option.splits)
  qed
  with assms(2) show ?thesis by simp
qed

lemma admitPending_loop_reached [store_steps]:
  assumes "admitPending_loop R now w = Some w'"
  shows "reached R (server w) (server w')"
  by (rule admitPending_loop_inv [where I = "reached R (server w)", OF assms])
    (auto intro: service_step.intros rtranclp.rtrancl_into_rtrancl)

lemma admitPending_reached [store_steps]:
  "admitPending R w = Some w' \<Longrightarrow> reached R (server w) (server w')"
  by (auto simp: admitPending_def Let_def intro: admitPending_loop_reached)

lemma reapStale_reached [store_steps]:
  assumes "reapStale R w = Some w'"
  shows "reached R (server w) (server w')"
proof -
  obtain w1 r where c: "run_script (luaReapStale R keyActive keyQueueList) w = (w1, r)" by fastforce
  have "reached R (server w) (server w1)"
    by (rule script_reached [OF _ c]) (rule service_step.intros)
  with assms admitPending_reached [of R w1] show ?thesis
    by (auto simp: reapStale_def c split: option.splits if_splits intro: rtranclp_trans)
qed

lemma Leave_reached [store_steps]:
  assumes "Leave R sid w = Some (w', b)"
  shows "reached R (server w) (server w')"
proof -
  obtain w1 r where c: "run_script (luaLeave R keyActive keyQueueList sid) w = (w1, r)" by fastforce
  have "reached R (server w) (server w1)"
    by (rule script_reached [OF _ c]) (rule service_step.intros)
  with assms admitPending_reached [of R w1] show ?thesis
    by (auto simp: Leave_def c Let_def split: if_splits intro: rtranclp_trans)
qed

lemma SetCapacity_reached [store_steps]:
  assumes "SetCapacity R n w = Some (w', s)" and "0 < n" and "in_int64 n"
  shows "reached R (server w) (server w')"
proof -
  let ?w1 = "fst (call (\<lambda>d. (SET R d keyCapacity (FormatInt n) None, ())) w)"
  from assms(1) obtain w2 where "admitPending R ?w1 = Some w2" "Snapshot R w2 = (w', s)"
    by (auto simp: SetCapacity_def Let_def)
  with admitPending_reached [of R ?w1 w2] Snapshot_server [of R w2 w' s]
    store_write_reached(4) [OF assms(2,3), of R w]
  show ?thesis by (auto intro: rtranclp_trans)
qed

lemma ReleaseSlots_reached [store_steps]:
  assumes "ReleaseSlots R n w = Some (w', k, s)" and "in_int64 n"
  shows "reached R (server w) (server w')"
proof -
  obtain w1 r where c: "run_script (luaRelease R keyActive (FormatInt n)) w = (w1, r)" by fastforce
  have one: "reached R (server w) (server w1)"
    by (rule script_reached [OF _ c]) (rule service_step.intros, rule assms(2))
  from assms(1) obtain w2 where "admitPending R w1 = Some w2" "Snapshot R w2 = (w', s)"
    by (cases "admitPending R w1") (auto simp: ReleaseSlots_def c split: prod.splits)
  with admitPending_reached [of R w1 w2] Snapshot_server [of R w2 w' s] one
  show ?thesis by (auto intro: rtranclp_trans)
qed

section \<open>Every handler is a sequence of service steps\<close>

lemma decode_members_int64:
  "in_int64 x \<Longrightarrow> in_int64 (snd (decode_members json_int name ms (good, x)))"
proof (induction ms arbitrary: good x)
  case (Cons m ms)
  obtain k v where m: "m = (k, v)" by fastforce
  have "json_int v = Some y \<Longrightarrow> in_int64 y" for y
    by (cases v) (auto split: if_splits dest: ParseInt_range)
  with Cons show ?case by (auto simp: m split: option.splits)
qed simp

lemma decode_int64: "in_int64 (snd (decode_field json_int name 0 b))"
  by (auto simp: decode_field_def decode_members_int64 in_int64_def [of 0]
      split: option.splits json.splits)

lemma rootHandler_admit_reached:
  assumes "rootHandler_admit R sid h r w = (w', out)"
  shows "reached R (server w) (server w')"
proof -
  obtain w1 b where t: "TryAdmit R sid (FormatInt (clock w)) w = (w1, b)" by fastforce
  note steps = TryAdmit_reached [OF t] JoinQueue_reached [of R w1 sid "FormatInt (clock w)"]
    store_write_reached(2) [of R w1 sid]
    store_write_reached(2) [of R "JoinQueue R sid (FormatInt (clock w)) w1" sid]
  from assms show ?thesis
    by (auto simp: rootHandler_admit_def Let_def t split: if_splits
        intro: steps rtranclp_trans [OF steps(1)] rtranclp_trans [OF rtranclp_trans [OF steps(1,2)]])
qed

lemma rootHandler_reached:
  assumes "rootHandler R uuid r w = (w', out)"
  shows "reached R (server w) (server w')"
proof -
  obtain sid h where s: "getOrCreateSession uuid r = (sid, h)" by fastforce
  obtain w1 st where g: "GetStatus R sid w = (w1, st)" by fastforce
  obtain w2 held where i: "IsInActiveSet R sid w1 = (w2, held)" by fastforce
  have "server w1 = server w" "server w2 = server w"
    using store_reads(1) [OF g] store_reads(2) [OF i] by simp_all
  with assms store_write_reached(1) [of R w2 sid] show ?thesis
    by (auto simp: rootHandler_def s g i split: if_splits
        dest!: rootHandler_admit_reached intro: rtranclp_trans)
qed

lemma queuePageHandler_reached:
  assumes "queuePageHandler R cfg r w = (w', out)"
  shows "reached R (server w) (server w')"
proof -
  let ?sid = "sessionID r"
  obtain w1 st where g: "GetStatus R ?sid w = (w1, st)" by fastforce
  obtain w2 held where i: "IsInActiveSet R ?sid w1 = (w2, held)" by fastforce
  have same: "server w1 = server w" "server w2 = server w"
    using store_reads(1) [OF g] store_reads(2) [OF i] by simp_all
  from assms same store_write_reached(2) [of R w1 ?sid] store_write_reached(2) [of R w2 ?sid]
  show ?thesis by (auto simp: queuePageHandler_def Let_def g i split: if_splits)
qed

lemma position_lookup_server: "position_lookup R sid w = (w', out) \<Longrightarrow> server w' = server w"
  by (auto simp: position_lookup_def Let_def split: prod.splits option.splits dest!: store_reads)

lemma positionHandler_reached:
  assumes "positionHandler R r w = (w', out)"
  shows "reached R (server w) (server w')"
proof -
  let ?sid = "sessionID r"
  obtain w1 st where g: "GetStatus R ?sid w = (w1, st)" by fastforce
  obtain w2 held where i: "IsInActiveSet R ?sid w1 = (w2, held)" by fastforce
  have same: "server w1 = server w" "server w2 = server w"
    using store_reads(1) [OF g] store_reads(2) [OF i] by simp_all
  from assms same store_write_reached(1) [of R w2 ?sid]
  show ?thesis
    by (auto simp: positionHandler_def Let_def g i split: if_splits dest: position_lookup_server)
qed

lemma sessionHeartbeatHandler_reached:
  assumes "sessionHeartbeatHandler R r w = (w', out)"
  shows "reached R (server w) (server w')"
proof -
  let ?sid = "sessionID r"
  obtain w1 st where g: "GetStatus R ?sid w = (w1, st)" by fastforce
  from assms store_reads(1) [OF g] store_write_reached(2) [of R w1 ?sid]
  show ?thesis by (auto simp: sessionHeartbeatHandler_def Let_def g split: if_splits)
qed

lemma sessionLeaveHandler_reached:
  "sessionLeaveHandler R r w = Some (w', out) \<Longrightarrow> reached R (server w) (server w')"
  by (auto simp: sessionLeaveHandler_def Let_def split: if_splits prod.splits dest: Leave_reached)

lemma adminCapacityHandler_reached:
  "adminCapacityHandler R r w = Some (w', out) \<Longrightarrow> reached R (server w) (server w')"
  using decode_int64 [of "''capacity''" "req_body r"]
  by (auto simp: adminCapacityHandler_def Let_def split: if_splits prod.splits
      dest: SetCapacity_reached)

lemma adminReleaseHandler_reached:
  "adminReleaseHandler R r w = Some (w', out) \<Longrightarrow> reached R (server w) (server w')"
  by (auto simp: adminReleaseHandler_def Let_def in_int64_def split: if_splits prod.splits
      dest!: ReleaseSlots_reached)

lemmas handlers_reached = rootHandler_reached queuePageHandler_reached positionHandler_reached
  sessionHeartbeatHandler_reached sessionLeaveHandler_reached adminCapacityHandler_reached
  adminReleaseHandler_reached

lemma Routes_steps:
  assumes "Routes R cfg uuid r w = Some (w', out)"
  shows "reached R (server w) (server w')"
proof -
  have health: "healthHandler w = (w', out) \<Longrightarrow> server w' = server w"
    by (auto simp: healthHandler_def Let_def split: prod.splits if_splits dest!: store_reads(5))
  have stat: "adminStatusHandler R w = (w', out) \<Longrightarrow> server w' = server w"
    by (auto simp: adminStatusHandler_def split: prod.splits dest!: Snapshot_server)
  show ?thesis
    using assms handlers_reached [of R] health stat
    by (simp add: Routes_def Let_def doneHandler_def split: if_splits)
qed

section \<open>Handlers return\<close>

context redis_server
begin

lemma script_ok:
  "(\<And>d. ok d \<Longrightarrow> ok (fst (f d))) \<Longrightarrow> ok (server w) \<Longrightarrow> run_script f w = (w', r) \<Longrightarrow> ok (server w')"
  using run_script_inv [of ok f w] by simp

lemma Leave_returns: "ok (server w) \<Longrightarrow> \<exists>w' b. Leave R sid w = Some (w', b)"
proof -
  assume "ok (server w)"
  obtain w1 r where c: "run_script (luaLeave R keyActive keyQueueList sid) w = (w1, r)" by fastforce
  have "ok (server w1)"
    by (rule script_ok [OF _ \<open>ok (server w)\<close> c]) (simp add: luaLeave_refines)
  from admitPending_returns [OF this] show ?thesis by (auto simp: Leave_def c Let_def)
qed

lemma SetCapacity_returns:
  assumes "ok (server w)" and "0 < n" and "in_int64 n"
  shows "\<exists>w' s. SetCapacity R n w = Some (w', s)"
proof -
  let ?w1 = "fst (call (\<lambda>d. (SET R d keyCapacity (FormatInt n) None, ())) w)"
  have "ok (server ?w1)"
    by (rule call_inv [where I = ok]) (use assms in \<open>simp_all add: set_capacity_room\<close>)
  from admitPending_returns [OF this] show ?thesis
    by (auto simp: SetCapacity_def Let_def)
qed

lemma ReleaseSlots_returns:
  assumes "ok (server w)" and "in_int64 n"
  shows "\<exists>w' k s. ReleaseSlots R n w = Some (w', k, s)"
proof -
  obtain w1 r where c: "run_script (luaRelease R keyActive (FormatInt n)) w = (w1, r)" by fastforce
  have "ok (server w1)"
    by (rule script_ok [OF _ assms(1) c]) (use luaRelease_refines assms(2) in blast)
  from admitPending_returns [OF this] obtain w2 where "admitPending R w1 = Some w2" by blast
  then show ?thesis by (cases "Snapshot R w2") (simp add: ReleaseSlots_def c)
qed

lemma reapStale_returns: "ok (server w) \<Longrightarrow> \<exists>w'. reapStale R w = Some w'"
proof -
  assume "ok (server w)"
  obtain w1 r where c: "run_script (luaReapStale R keyActive keyQueueList) w = (w1, r)" by fastforce
  have "ok (server w1)"
    by (rule script_ok [OF _ \<open>ok (server w)\<close> c]) (simp add: luaReapStale_refines)
  from admitPending_returns [OF this] show ?thesis by (auto simp: reapStale_def c split: option.split)
qed

lemma Routes_returns:
  assumes "ok (server w)"
  shows "\<exists>w' out. Routes R cfg uuid r w = Some (w', out)"
proof -
  have lv: "\<exists>w' out. sessionLeaveHandler R r w = Some (w', out)"
    using Leave_returns [OF assms, of "sessionID r"] by (auto simp: sessionLeaveHandler_def Let_def)
  have cp: "\<exists>w' out. adminCapacityHandler R r w = Some (w', out)"
    using SetCapacity_returns [OF assms] decode_int64 [of "''capacity''" "req_body r"]
    by (fastforce simp: adminCapacityHandler_def Let_def split: prod.split)
  have rl: "\<exists>w' out. adminReleaseHandler R r w = Some (w', out)"
    using ReleaseSlots_returns [OF assms]
    by (fastforce simp: adminReleaseHandler_def Let_def in_int64_def split: prod.split)
  from lv cp rl show ?thesis by (simp add: Routes_def Let_def)
qed

section \<open>Only a session with a slot reaches the target\<close>

lemma IsInActiveSet_true:
  assumes "ok (server w)" and "IsInActiveSet R sid w = (w', True)"
  shows "sid \<in> active (room (server w'))"
proof -
  obtain w1 r where c: "call (\<lambda>d. (d, SISMEMBER R d keyActive sid)) w = (w1, r)" by fastforce
  with assms(2) have "r = Some True" "w1 = w'" by (auto simp: IsInActiveSet_def split: option.splits)
  with call_read [OF _ c] assms(1) show ?thesis by (simp add: ok_reads)
qed

lemma TryAdmit_true:
  assumes "ok (server w)" and "TryAdmit R sid now w = (w', True)"
  shows "sid \<in> active (room (server w'))" "ok (server w')"
proof -
  let ?f = "luaTryAdmit R keyCapacity keyActive (sessionKey sid) keyHistory sid now"
  from assms(2) have "run_script ?f w = (w', Some 1)"
    by (auto simp: TryAdmit_def split: prod.splits option.splits)
  from run_script_reply [OF this] obtain n where
    n: "?f (((fst \<circ> ?f) ^^ n) (server w)) = (server w', Some 1)" by blast
  let ?d = "((fst \<circ> ?f) ^^ n) (server w)"
  have ok: "ok ?d" by (rule funpow_inv [where I = ok]) (simp_all add: luaTryAdmit_refines assms(1))
  from luaTryAdmit_refines [OF ok, of sid now] n
  show "sid \<in> active (room (server w'))" "ok (server w')"
    by (auto simp: try_admit_def split: if_splits)
qed

lemma rootHandler_admit_proxied:
  assumes "ok (server w)" and "rootHandler_admit R sid h r w = (w', Proxied h' r')"
  shows "r' = r \<and> sid \<in> active (room (server w'))"
proof -
  obtain w1 b where t: "TryAdmit R sid (FormatInt (clock w)) w = (w1, b)" by fastforce
  with assms(2) have "b" "w' = SetHeartbeat R sid w1" "r' = r"
    by (auto simp: rootHandler_admit_def Let_def split: if_splits)
  with t TryAdmit_true [OF assms(1)] SetHeartbeat_room [of w1 sid] show ?thesis by auto
qed

lemma rootHandler_proxied:
  assumes "ok (server w)" and "rootHandler R uuid r w = (w', Proxied h r')"
  shows "r' = r \<and> fst (getOrCreateSession uuid r) \<in> active (room (server w'))"
proof -
  obtain sid h0 where s: "getOrCreateSession uuid r = (sid, h0)" by fastforce
  obtain w1 st where g: "GetStatus R sid w = (w1, st)" by fastforce
  obtain w2 held where i: "IsInActiveSet R sid w1 = (w2, held)" by fastforce
  have ok1: "ok (server w1)" and ok2: "ok (server w2)"
    using store_reads(1) [OF g] store_reads(2) [OF i] assms(1) by simp_all
  have ok3: "ok (server (DeleteSession R sid w2))"
    using reached_ok [OF store_write_reached(1) ok2] .
  from assms(2) show ?thesis
    using IsInActiveSet_true [OF ok1, of sid w2] rootHandler_admit_proxied [OF ok1, of sid h0 r w']
      rootHandler_admit_proxied [OF ok3, of sid h0 r w']
    by (auto simp: rootHandler_def s g i split: if_splits)
qed

end

end
