(* ===== verification/QueueEffects.thy ===== *)
theory QueueEffects
  imports QueueGate
begin

text \<open>
  What the store operations achieve on a healthy connection: the admission loop fills the free
  slots, leaving gives a slot back for good, a new capacity is in force, a position is the place
  in the list, and the estimated wait is the mean gap between admissions.
\<close>

section \<open>Estimated wait\<close>

lemma wrap64_add_right [simp]: "wrap64 (x + wrap64 y) = wrap64 (x + y)"
  by (metis add.commute wrap64_add_left)

lemma sum_gaps_telescopes: "in_int64 acc \<Longrightarrow> sum_gaps acc (a # ts) = wrap64 (acc + (last (a # ts) - a))"
proof (induction ts arbitrary: acc a)
  case (Cons b ts)
  have "sum_gaps acc (a # b # ts) = wrap64 (wrap64 (acc + (b - a)) + (last (b # ts) - b))"
    using Cons.IH [of "wrap64 (acc + (b - a))" b] by simp
  also have "\<dots> = wrap64 ((acc + (b - a)) + (last (b # ts) - b))" by (rule wrap64_add_left)
  finally show ?case by (simp add: algebra_simps)
qed simp

lemma sorted_hd_Min: "xs \<noteq> [] \<Longrightarrow> sorted xs \<Longrightarrow> hd xs = Min (set xs)"
  by (induction xs) (auto intro!: antisym Min.boundedI)

lemma sorted_last_Max: "xs \<noteq> [] \<Longrightarrow> sorted xs \<Longrightarrow> last xs = Max (set xs)"
proof (induction xs rule: rev_induct)
  case (snoc x xs)
  then show ?case by (auto simp: sorted_append intro!: antisym Max.boundedI)
qed simp

lemma sum_gaps_sort:
  assumes "ts \<noteq> []"
  shows "sum_gaps 0 (sort ts) = wrap64 (Max (set ts) - Min (set ts))"
proof -
  obtain a as where s: "sort ts = a # as" using assms by (cases "sort ts") (auto dest: arg_cong [of _ _ length])
  have "a = Min (set ts)" "last (a # as) = Max (set ts)"
    using sorted_hd_Min [of "sort ts"] sorted_last_Max [of "sort ts"] s by (metis list.sel(1) list.discI set_sort sorted_sort)+
  then show ?thesis using sum_gaps_telescopes [of 0 a as] by (simp add: s in_int64_def)
qed

section \<open>Position\<close>

lemma find_position_index:
  "find_position sid i xs n = map_option (\<lambda>k. \<lparr>Pos = i + int k + 1, Total = n\<rparr>) (index_of sid xs)"
  by (induction xs arbitrary: i) (auto simp: option.map_comp o_def algebra_simps intro!: option.map_cong0)

section \<open>Room facts\<close>

text \<open>A forgotten session is never admitted from the list.\<close>

lemma admit_next_forgotten:
  "status r s = None \<Longrightarrow> s \<notin> active r \<Longrightarrow>
     status (fst (admit_next n now r)) s = None \<and> s \<notin> active (fst (admit_next n now r))"
proof (induction n arbitrary: r)
  case (Suc n)
  then show ?case by (cases "waiting r") (auto simp: admit_def Let_def)
qed simp

text \<open>Where every waiting session is known, an attempt admits nobody only if it has to.\<close>

lemma admit_next_known:
  assumes "admit_next (Suc n) now r = (r', None)" and "\<forall>s \<in> set (waiting r). status r s \<noteq> None"
  shows "full r' \<or> waiting r' = []"
  using assms by (auto simp: Let_def split: if_splits list.splits)

text \<open>The script's bound: after 50 forgotten entries it gives up.\<close>

lemma admit_next_gives_up:
  "waiting r = xs @ ys \<Longrightarrow> length xs = n \<Longrightarrow> \<forall>x \<in> set xs. status r x = None \<Longrightarrow> \<not> full r \<Longrightarrow>
     admit_next n now r = (r\<lparr>waiting := ys\<rparr>, None)"
proof (induction n arbitrary: r xs)
  case 0
  then show ?case by simp
next
  case (Suc n)
  then obtain x xs' where xs: "xs = x # xs'" by (cases xs) auto
  have "admit_next n now (r\<lparr>waiting := xs' @ ys\<rparr>) = (r\<lparr>waiting := xs' @ ys, waiting := ys\<rparr>, None)"
    by (rule Suc.IH [of _ xs']) (use Suc.prems xs in \<open>auto simp: full_def\<close>)
  with Suc.prems xs show ?case by (simp add: Let_def)
qed

section \<open>Start-up\<close>

lemma queue_Load_capacity: "0 < Capacity (queue_Load getenv) \<and> in_int64 (Capacity (queue_Load getenv))"
  by (auto simp: queue_Load_def Let_def in_int64_def split: option.split dest: ParseInt_range)

lemma connectRedis_loop_reached: "reached R (server w) (server (connectRedis_loop n R w))"
proof (induction n arbitrary: w)
  case (Suc n)
  obtain w1 up where p: "Ping w = (w1, up)" by fastforce
  have same: "server w1 = server w" using store_read_server(5) [OF p] .
  let ?w2 = "w1\<lparr>server := ELAPSE R (server w1) 1, clock := clock w1 + 1\<rparr>"
  have "service_step R (server w) (server ?w2)" using same by (simp add: step_elapse)
  with Suc.IH [of ?w2] same show ?case by (simp add: p converse_rtranclp_into_rtranclp)
qed simp

lemma queue_main_reached: "queue_main R getenv w = (cfg, w') \<Longrightarrow> reached R (server w) (server w')"
  using queue_Load_capacity [of getenv] connectRedis_loop_reached [of R w 30]
    store_write_reached(3) [of "Capacity (queue_Load getenv)" R "connectRedis R w"]
  by (auto simp: queue_main_def connectRedis_def Let_def intro: rtranclp_trans)

section \<open>Operations on a healthy connection\<close>

context redis_server
begin

lemma GetPosition_healthy:
  assumes "ok (server w)" and "net w = []"
  shows "GetPosition R sid w = (w, map_option
     (\<lambda>k. \<lparr>Pos = int k + 1, Total = int (length (waiting (room (server w))))\<rparr>)
     (index_of sid (waiting (room (server w)))))"
  using assms by (simp add: GetPosition_def call_healthy ok_reads find_position_index Let_def)

lemma admitPending_fills:
  assumes "ok (server w)" and "net w = []"
    and "\<forall>s \<in> set (waiting (room (server w))). status (room (server w)) s \<noteq> None"
  shows "\<exists>w'. admitPending R w = Some w' \<and>
    (full (room (server w')) \<or> waiting (room (server w')) = [])"
proof -
  from admitPending_returns [OF assms(1)] obtain w' where w': "admitPending R w = Some w'" by blast
  then have "admitPending_loop R (FormatInt (clock w)) w = Some w'" by (simp add: admitPending_def)
  from admitPending_loop_last [OF assms(1,2) this] obtain d where
    d: "set (waiting (room d)) \<subseteq> set (waiting (room (server w)))"
      "dom (status (room (server w))) \<subseteq> dom (status (room d))"
      "admit_next 50 (FormatInt (clock w)) (room d) = (room (server w'), None)" by blast
  have "status (room d) s \<noteq> None" if "s \<in> set (waiting (room d))" for s
    using that d(1,2) assms(3) by (metis domI domIff option.exhaust subsetD)
  with d(3) admit_next_known [of 49] w' show ?thesis by (simp add: numeral_eq_Suc)
qed

lemma admitPending_keeps:
  assumes "admitPending R w = Some w'" and "ok (server w)" and "I (room (server w))"
    and "\<And>r now. I r \<Longrightarrow> I (fst (admit_next 50 now r))" and "\<And>r sid. I r \<Longrightarrow> I (r\<lparr>alive := (alive r)(sid := True)\<rparr>)"
  shows "I (room (server w'))"
proof -
  let ?I = "\<lambda>d. ok d \<and> I (room d)"
  have "?I (server w')"
    by (rule admitPending_loop_inv [where I = ?I])
      (use assms in \<open>auto simp: admitPending_def luaAdmitNext_refines ok_commands\<close>)
  then show ?thesis by simp
qed

text \<open>
  A departure on a healthy connection: one that gives up no slot is the abstract \<open>leave\<close>, and one
  that does hands the slot to the head of the list.
\<close>

lemma Leave_healthy:
  assumes "ok (server w)" and "net w = []"
  shows "\<exists>w'. Leave R sid w = Some (w', sid \<in> active (room (server w))) \<and>
    sid \<notin> active (room (server w')) \<and> status (room (server w')) sid = None \<and>
    (if sid \<in> active (room (server w))
     then active (room (server w)) - {sid} \<subseteq> active (room (server w')) \<and>
       (\<exists>xs. waiting (room (server w)) = xs @ waiting (room (server w')))
     else room (server w') = fst (leave sid (room (server w))))"
proof -
  let ?d = "fst (luaLeave R keyActive keyQueueList sid (server w))"
  let ?w1 = "w\<lparr>server := ?d\<rparr>" and ?r = "room (server w)"
  have ok1: "ok (server ?w1)" using luaLeave_refines(3) [OF assms(1)] by simp
  have c: "run_script (luaLeave R keyActive keyQueueList sid) w =
      (?w1, Some (if sid \<in> active ?r then 1 else 0))"
    using assms luaLeave_refines(2) [OF assms(1), of sid] by (simp add: run_script_healthy leave_def)
  have left: "room ?d = fst (leave sid ?r)" by (rule luaLeave_refines(1) [OF assms(1)])
  then have gone: "status (room ?d) sid = None \<and> sid \<notin> active (room ?d)"
    by (auto simp: leave_def forget_def)
  obtain w2 where w2: "admitPending R ?w1 = Some w2" using admitPending_returns [OF ok1] by blast
  have "status (room (server w2)) sid = None \<and> sid \<notin> active (room (server w2))"
    by (rule admitPending_keeps [OF w2 ok1])
      (use gone in \<open>simp_all add: admit_next_forgotten\<close>)
  moreover have "active (room ?d) \<subseteq> active (room (server w2)) \<and> (\<exists>xs. waiting (room ?d) = xs @ waiting (room (server w2)))"
  proof (rule admitPending_keeps [OF w2 ok1])
    show "active (room ?d) \<subseteq> active (room (server ?w1)) \<and> (\<exists>xs. waiting (room ?d) = xs @ waiting (room (server ?w1)))"
      by simp
    fix r :: room and now assume r: "active (room ?d) \<subseteq> active r \<and> (\<exists>xs. waiting (room ?d) = xs @ waiting r)"
    then obtain xs where xs: "waiting (room ?d) = xs @ waiting r" by blast
    obtain ys where "waiting r = ys @ waiting (fst (admit_next 50 now r))" using admit_next_waiting by blast
    with xs have "waiting (room ?d) = (xs @ ys) @ waiting (fst (admit_next 50 now r))" by simp
    moreover have "active (room ?d) \<subseteq> active (fst (admit_next 50 now r))"
      using r by (auto simp: admit_next_active split: option.split)
    ultimately show "active (room ?d) \<subseteq> active (fst (admit_next 50 now r)) \<and>
        (\<exists>xs. waiting (room ?d) = xs @ waiting (fst (admit_next 50 now r)))" by blast
  qed simp
  ultimately show ?thesis
    using gone w2 left by (auto simp: Leave_def c Let_def leave_def)
qed

lemma queue_main_healthy:
  assumes "ok (server w)" and "net w = []" and "queue_main R getenv w = (cfg, w')"
  shows "room (server w') = (if view (server w) keyCapacity = None
      then (room (server w))\<lparr>capacity := Capacity cfg\<rparr> else room (server w))"
proof -
  have "connectRedis R w = w"
    using assms(2) by (simp add: connectRedis_def numeral_eq_Suc Ping_def call_healthy)
  with assms init_capacity_room(2) [of "Capacity cfg" "server w"] queue_Load_capacity [of getenv]
  show ?thesis by (auto simp: queue_main_def InitCapacity_def call_healthy Let_def)
qed

lemma SetCapacity_healthy:
  assumes "ok (server w)" and "net w = []" and "0 < n" and "in_int64 n"
  shows "\<exists>w' snap. SetCapacity R n w = Some (w', snap) \<and> capacity (room (server w')) = n"
proof -
  let ?w1 = "w\<lparr>server := SET R (server w) keyCapacity (FormatInt n) None\<rparr>"
  have ok1: "ok (server ?w1)" "capacity (room (server ?w1)) = n"
    using set_capacity_room [OF assms(3,4)] assms(1) by simp_all
  obtain w2 where w2: "admitPending R ?w1 = Some w2" using admitPending_returns [OF ok1(1)] by blast
  have "capacity (room (server w2)) = n"
    by (rule admitPending_keeps [OF w2 ok1(1)]) (use ok1 in simp_all)
  moreover obtain w3 snap where s: "Snapshot R w2 = (w3, snap)" by fastforce
  moreover have "server w3 = server w2" using Snapshot_server [OF s] .
  ultimately show ?thesis using w2 assms(2) by (simp add: SetCapacity_def call_healthy)
qed

end

end
