(* ===== verification/QueueProperties.thy ===== *)
theory QueueProperties
  imports QueueEffects
begin

text \<open>
  The properties of the queue service, each over an arbitrary Redis server that obeys the laws
  of \<open>redis_server\<close>, with witnesses on the in-memory keyspace.
\<close>

section \<open>Scenarios for the witnesses\<close>

text \<open>Serve requests one after the other; a new visitor's identifier is the path's last argument.\<close>

fun serve_all :: "'db redis \<Rightarrow> queue_config \<Rightarrow> request list \<Rightarrow> 'db world \<Rightarrow> 'db world option" where
  "serve_all R cfg [] w = Some w"
| "serve_all R cfg (r # rs) w =
     (case Routes R cfg ''visitor-0000'' r w of None \<Rightarrow> None | Some (w', _) \<Rightarrow> serve_all R cfg rs w')"

definition visit :: "string \<Rightarrow> string \<Rightarrow> string \<Rightarrow> request" where
  "visit meth path sid = \<lparr>req_method = meth, req_path = path, req_cookies = [(''qsid'', sid)],
     req_header = Map.empty, req_rawquery = '''', req_body = None\<rparr>"

definition demo_cfg :: queue_config where
  "demo_cfg = queue_Load (\<lambda>k. if k = ''QUEUE_CAPACITY'' then ''1'' else '''')"

definition fresh_world :: "mem world" where
  "fresh_world = InitCapacity mem_redis (Capacity demo_cfg) \<lparr>server = [], net = [], clock = 1000\<rparr>"

text \<open>One visitor holds the only slot and two wait.\<close>

definition busy_world :: "mem world" where
  "busy_world = the (serve_all mem_redis demo_cfg
     [visit ''GET'' ''/'' ''sess-aaaa'', visit ''GET'' ''/'' ''sess-bbbb'', visit ''GET'' ''/'' ''sess-cccc'']
     fresh_world)"

definition served_proxied :: "served \<Rightarrow> bool" where
  "served_proxied out = (case out of Proxied _ _ \<Rightarrow> True | _ \<Rightarrow> False)"

lemma served_proxiedD: "served_proxied out \<Longrightarrow> \<exists>h r. out = Proxied h r"
  by (cases out) (auto simp: served_proxied_def)

lemma empty_room_ok: "room_ok (mem_view [])"
  by (simp add: room_ok_def typed_def mem_view_def ttl_at_def capacity_ok_def str_at_def list_at_def)

lemma demo_capacity: "Capacity demo_cfg = 1"
  by code_simp

lemma fresh_world_ok: "room_ok (mem_view (server fresh_world))"
  unfolding fresh_world_def demo_capacity
  using memdb.reached_ok [OF store_write_reached(3) [of 1 mem_redis]] empty_room_ok
  by (simp add: in_int64_def)

lemma serve_all_reached: "serve_all R cfg rs w = Some w' \<Longrightarrow> reached R (server w) (server w')"
proof (induction rs arbitrary: w)
  case (Cons r rs)
  then show ?case
    by (auto split: option.splits prod.splits dest!: Routes_steps intro: rtranclp_trans)
qed simp

lemma busy_world_served: "serve_all mem_redis demo_cfg
     [visit ''GET'' ''/'' ''sess-aaaa'', visit ''GET'' ''/'' ''sess-bbbb'', visit ''GET'' ''/'' ''sess-cccc'']
     fresh_world = Some busy_world"
proof -
  have "\<not> Option.is_none (serve_all mem_redis demo_cfg
     [visit ''GET'' ''/'' ''sess-aaaa'', visit ''GET'' ''/'' ''sess-bbbb'', visit ''GET'' ''/'' ''sess-cccc'']
     fresh_world)" by code_simp
  then show ?thesis by (auto simp: busy_world_def Option.is_none_def)
qed

lemma busy_world_ok: "room_ok (mem_view (server busy_world))"
  by (rule memdb.reached_ok [OF serve_all_reached [OF busy_world_served] fresh_world_ok])

lemma busy_world_facts:
  "m_set (server busy_world) keyActive = [''sess-aaaa'']"
  "m_list (server busy_world) keyQueueList = [''sess-bbbb'', ''sess-cccc'']"
  "net busy_world = []"
  by code_simp+


section \<open>The gate\<close>

lemma Routes_proxied:
  assumes "Routes R cfg uuid r w = Some (w', Proxied h r')"
  shows "rootHandler R uuid r w = (w', Proxied h r')"
proof -
  have "sessionLeaveHandler R r w \<noteq> Some (w', Proxied h r')"
    "adminCapacityHandler R r w \<noteq> Some (w', Proxied h r')"
    "adminReleaseHandler R r w \<noteq> Some (w', Proxied h r')"
    by (auto simp: sessionLeaveHandler_def adminCapacityHandler_def adminReleaseHandler_def Let_def
        split: prod.splits if_splits)
  moreover have "position_lookup R sid v \<noteq> (w', Proxied h r')" for sid v
    by (auto simp: position_lookup_def Let_def split: prod.splits option.splits)
  then have "positionHandler R r w \<noteq> (w', Proxied h r')"
    by (auto simp: positionHandler_def Let_def split: prod.splits if_splits)
  ultimately show ?thesis
    using assms
    by (auto simp: Routes_def Let_def healthHandler_def queuePageHandler_def doneHandler_def
        sessionHeartbeatHandler_def adminStatusHandler_def split: prod.splits if_splits)
qed

text \<open>
  C1: a request reaches the protected target only unchanged and only while its session holds one
  of the slots, whatever calls to Redis are lost, repeated or fail on the way.
\<close>

theorem proxied_only_with_slot:
  assumes "redis_server R view" and "room_ok (view (server w))"
    and "Routes R cfg uuid r w = Some (w', Proxied h r')"
  shows "r' = r \<and> fst (getOrCreateSession uuid r) \<in> active (room_of (view (server w')))"
  using redis_server.rootHandler_proxied [OF assms(1,2) Routes_proxied [OF assms(3)]] .

definition flaky :: "mem world \<Rightarrow> mem world" where
  "flaky w = w\<lparr>net := [Fail 1, Reply 0, Fail 2]\<rparr>"

theorem proxied_only_with_slot_witness:
  "fst (getOrCreateSession ''visitor-0000'' (visit ''GET'' ''/'' ''sess-aaaa''))
     \<in> active (room_of (mem_view (server
          (fst (the (Routes mem_redis demo_cfg ''visitor-0000'' (visit ''GET'' ''/'' ''sess-aaaa'')
             (flaky fresh_world)))))))"
proof -
  let ?x = "Routes mem_redis demo_cfg ''visitor-0000'' (visit ''GET'' ''/'' ''sess-aaaa'') (flaky fresh_world)"
  have ok: "room_ok (mem_view (server (flaky fresh_world)))" using fresh_world_ok by (simp add: flaky_def)
  from memdb.Routes_returns [OF this] obtain w' out where x: "?x = Some (w', out)" by blast
  have "served_proxied (snd (the ?x))" by code_simp
  with x served_proxiedD obtain h r' where "out = Proxied h r'" by fastforce
  with x proxied_only_with_slot [OF memdb.redis_server_axioms ok] show ?thesis by simp
qed

text \<open>
  C3: as long as no administrator sets the capacity above \<open>C\<close>, no interleaving of requests, worker
  turns, retries and expirations lets more than \<open>C\<close> sessions hold a slot.
\<close>

theorem slots_within_capacity:
  assumes "redis_server R view" and "room_ok (view d0)"
    and "int (card (active (room_of (view d0)))) \<le> C" and "run_within R view C d0 d"
  shows "int (card (active (room_of (view d)))) \<le> C"
  using redis_server.run_within_slots [OF assms(1,4,2,3)] by simp

theorem slots_within_capacity_witness:
  "int (card (active (room_of (mem_view (fst (luaTryAdmit mem_redis keyCapacity keyActive
     (sessionKey ''sess-dddd'') keyHistory ''sess-dddd'' ''1001'' (server busy_world))))))) \<le> 1"
proof -
  let ?d = "fst (luaTryAdmit mem_redis keyCapacity keyActive (sessionKey ''sess-dddd'') keyHistory
    ''sess-dddd'' ''1001'' (server busy_world))"
  have "capacity (room_of (mem_view ?d)) \<le> 1" by code_simp
  then have "run_within mem_redis mem_view 1 (server busy_world) ?d"
    by (rule run_next [OF run_start step_try_admit])
  moreover have "int (card (active (room_of (mem_view (server busy_world))))) \<le> 1" by code_simp
  ultimately show ?thesis
    using slots_within_capacity [OF memdb.redis_server_axioms busy_world_ok] by blast
qed

text \<open>
  C24: a request changes the server only by steps of the transition system, keeps the keyspace
  well formed, and always returns, whatever happens to its calls.
\<close>

theorem Routes_total:
  assumes "redis_server R view" and "room_ok (view (server w))"
  shows "\<exists>w' out. Routes R cfg uuid r w = Some (w', out) \<and> reached R (server w) (server w') \<and>
    room_ok (view (server w'))"
proof -
  from redis_server.Routes_returns [OF assms] obtain w' out where
    x: "Routes R cfg uuid r w = Some (w', out)" by blast
  with Routes_steps [OF x] redis_server.reached_ok [OF assms(1) Routes_steps [OF x] assms(2)]
  show ?thesis by blast
qed

theorem Routes_total_witness:
  "\<exists>w' out. Routes mem_redis demo_cfg ''v'' (visit ''POST'' ''/api/session/leave'' ''sess-aaaa'')
     (flaky busy_world) = Some (w', out) \<and>
   reached mem_redis (server (flaky busy_world)) (server w') \<and> room_ok (mem_view (server w'))"
  by (rule Routes_total [OF memdb.redis_server_axioms]) (simp add: flaky_def busy_world_ok)

section \<open>Admission\<close>

text \<open>
  C20: the script behind \<open>TryAdmit\<close> implements the waiting room's \<open>try_admit\<close>: it takes a slot
  exactly when one is free, records the session as active and the time in the history of at most
  100 entries, and otherwise changes nothing.
\<close>

theorem luaTryAdmit_implements:
  assumes "redis_server R view" and "room_ok (view d)"
    and "luaTryAdmit R keyCapacity keyActive (sessionKey sid) keyHistory sid now d = (d', reply)"
  shows "room_of (view d') = fst (try_admit sid now (room_of (view d))) \<and>
    reply = Some (if full (room_of (view d)) then 0 else 1) \<and> room_ok (view d')"
  using redis_server.luaTryAdmit_refines [OF assms(1,2), of sid now] assms(3)
  by (auto simp: try_admit_def)

theorem luaTryAdmit_implements_witness:
  "room_of (mem_view (fst (luaTryAdmit mem_redis keyCapacity keyActive (sessionKey ''sess-aaaa'')
      keyHistory ''sess-aaaa'' ''1000'' (server fresh_world)))) =
    fst (try_admit ''sess-aaaa'' ''1000'' (room_of (mem_view (server fresh_world))))"
  using luaTryAdmit_implements [OF memdb.redis_server_axioms fresh_world_ok prod.collapse [symmetric]]
  by blast

text \<open>
  C21: a worker's admission takes the first waiting session the service still knows: every entry
  it passes over is a session with no record, fewer than 50 of them, and the rest of the list
  keeps its order.
\<close>

theorem luaAdmitNext_fifo:
  assumes "redis_server R view" and "room_ok (view d)"
    and "luaAdmitNext R keyCapacity keyActive keyQueueList keyHistory now d = (d', Some (Some s))"
  shows "\<exists>xs. waiting (room_of (view d)) = xs @ s # waiting (room_of (view d')) \<and> length xs < 50 \<and>
    (\<forall>x \<in> set xs. status (room_of (view d)) x = None) \<and> status (room_of (view d)) s \<noteq> None \<and>
    active (room_of (view d')) = insert s (active (room_of (view d)))"
proof -
  have "admit_next 50 now (room_of (view d)) = (room_of (view d'), Some s)"
    using redis_server.luaAdmitNext_refines [OF assms(1,2), of now] assms(3) by (simp add: prod_eq_iff)
  with redis_server.admit_next_first [OF assms(1) this] admit_next_Some [OF this]
    admit_next_active [of 50 now "room_of (view d)"] show ?thesis by auto
qed

definition freed_server :: mem where
  "freed_server = fst (luaLeave mem_redis keyActive keyQueueList ''sess-aaaa'' (server busy_world))"

lemma freed_server_ok: "room_ok (mem_view freed_server)"
  unfolding freed_server_def using memdb.luaLeave_refines(3) [OF busy_world_ok] .

theorem luaAdmitNext_fifo_witness:
  "\<exists>xs d'. waiting (room_of (mem_view freed_server)) = xs @ ''sess-bbbb'' # waiting (room_of (mem_view d')) \<and>
    length xs < 50 \<and> ''sess-bbbb'' \<in> active (room_of (mem_view d'))"
proof -
  let ?x = "luaAdmitNext mem_redis keyCapacity keyActive keyQueueList keyHistory ''1002'' freed_server"
  have "snd ?x = Some (Some ''sess-bbbb'')" by code_simp
  then obtain d' where "?x = (d', Some (Some ''sess-bbbb''))" by (metis prod.collapse)
  from luaAdmitNext_fifo [OF memdb.redis_server_axioms freed_server_ok this] show ?thesis by blast
qed

text \<open>
  C26: no step of the service, expiry and retries included, moves a waiting session back or drops
  it from the list: one that the server still records as waiting after the step stands at the
  same place in the list or nearer to its head, however many entries it has there.
\<close>

theorem position_never_worsens:
  assumes "redis_server R view" and "room_ok (view d)" and "service_step R d d'"
    and "index_of s (waiting (room_of (view d))) = Some i"
    and "status (room_of (view d')) s = Some ''queued''"
  shows "\<exists>j \<le> i. index_of s (waiting (room_of (view d'))) = Some j"
  using redis_server.service_step_position [OF assms(1,3,2,4,5)] .

theorem position_never_worsens_witness:
  "\<exists>j \<le> 1. index_of ''sess-cccc'' (waiting (room_of (mem_view freed_server))) = Some j"
proof -
  have "index_of ''sess-cccc'' (waiting (room_of (mem_view (server busy_world)))) = Some 1" by code_simp
  moreover have "status (room_of (mem_view (fst (luaLeave mem_redis keyActive keyQueueList ''sess-aaaa'' (server busy_world)))))
      ''sess-cccc'' = Some ''queued''" by code_simp
  ultimately show ?thesis
    unfolding freed_server_def
    by (rule position_never_worsens [OF memdb.redis_server_axioms busy_world_ok step_leave])
qed

text \<open>
  C23: on a healthy connection a worker turn returns with no slot idle: if every waiting session
  is still known, afterwards all slots are taken or nobody waits.
\<close>

theorem admitPending_fills_slots:
  assumes "redis_server R view" and "room_ok (view (server w))" and "net w = []"
    and "\<forall>s \<in> set (waiting (room_of (view (server w)))). status (room_of (view (server w))) s \<noteq> None"
  shows "\<exists>w'. RunWorker_tick R AdmitTick w = Some w' \<and>
    (full (room_of (view (server w'))) \<or> waiting (room_of (view (server w'))) = [])"
  using redis_server.admitPending_fills [OF assms] by simp

theorem admitPending_fills_slots_witness:
  "\<exists>w'. RunWorker_tick mem_redis AdmitTick (busy_world\<lparr>server := freed_server\<rparr>) = Some w' \<and>
    (full (room_of (mem_view (server w'))) \<or> waiting (room_of (mem_view (server w'))) = [])"
proof (rule admitPending_fills_slots [OF memdb.redis_server_axioms])
  have "\<forall>s \<in> set (waiting (room_of (mem_view freed_server))). status (room_of (mem_view freed_server)) s \<noteq> None"
    by code_simp
  then show "\<forall>s \<in> set (waiting (room_of (mem_view (server (busy_world\<lparr>server := freed_server\<rparr>))))).
      status (room_of (mem_view (server (busy_world\<lparr>server := freed_server\<rparr>)))) s \<noteq> None" by simp
qed (simp_all add: freed_server_ok busy_world_facts)

text \<open>
  C25: both worker turns return from every well-formed state, whatever calls fail or are repeated,
  and take only service steps.
\<close>

theorem RunWorker_tick_returns:
  assumes "redis_server R view" and "room_ok (view (server w))"
  shows "\<exists>w'. RunWorker_tick R t w = Some w' \<and> reached R (server w) (server w')"
  using redis_server.admitPending_returns [OF assms] redis_server.reapStale_returns [OF assms]
  by (cases t) (auto dest: admitPending_reached reapStale_reached)

theorem RunWorker_tick_returns_witness:
  "\<exists>w'. RunWorker_tick mem_redis ReaperTick (flaky busy_world) = Some w' \<and>
     reached mem_redis (server (flaky busy_world)) (server w')"
  by (rule RunWorker_tick_returns [OF memdb.redis_server_axioms]) (simp add: flaky_def busy_world_ok)

section \<open>Leaving, eviction and the order of arrival\<close>

text \<open>
  C19: the reaper's script removes exactly the sessions whose heartbeat has expired, from the
  slots and from the list, forgets them, keeps everybody else in order, and reports how many
  entries it removed.
\<close>

theorem luaReapStale_implements:
  assumes "redis_server R view" and "room_ok (view d)"
  shows "room_of (view (fst (luaReapStale R keyActive keyQueueList d))) = fst (reap (room_of (view d))) \<and>
    snd (luaReapStale R keyActive keyQueueList d) = Some (int (snd (reap (room_of (view d))))) \<and>
    room_ok (view (fst (luaReapStale R keyActive keyQueueList d)))"
  using redis_server.luaReapStale_refines [OF assms] by simp

theorem luaReapStale_implements_witness:
  "room_of (mem_view (fst (luaReapStale mem_redis keyActive keyQueueList (server busy_world)))) =
     fst (reap (room_of (mem_view (server busy_world))))"
  using luaReapStale_implements [OF memdb.redis_server_axioms busy_world_ok] by blast

text \<open>
  C37: after \<open>POST /api/session/leave\<close> on a healthy connection the session holds no slot and is
  forgotten. If it held none, exactly its first entry leaves the waiting list, its record and its
  heartbeat are gone and nothing else changes; if it held one, every other holder keeps its slot
  and the list only loses entries at its head, to admissions. The answer is 200, except that a
  cookie of fewer than 8 bytes makes the log line panic after the departure took effect.
\<close>

theorem sessionLeaveHandler_leaves:
  assumes "redis_server R view" and "room_ok (view (server w))" and "net w = []"
    and "sessionID r \<noteq> ''''"
  shows "\<exists>w'. sessionLeaveHandler R r w =
      Some (w', if length (sessionID r) < 8 then Panicked ''slice bounds out of range''
                else write_status Map.empty 200) \<and>
    sessionID r \<notin> active (room_of (view (server w'))) \<and>
    status (room_of (view (server w'))) (sessionID r) = None \<and>
    (if sessionID r \<in> active (room_of (view (server w)))
     then active (room_of (view (server w))) - {sessionID r} \<subseteq> active (room_of (view (server w'))) \<and>
       (\<exists>xs. waiting (room_of (view (server w))) = xs @ waiting (room_of (view (server w'))))
     else room_of (view (server w')) = silence {sessionID r} (forget {sessionID r}
       ((room_of (view (server w)))\<lparr>waiting := remove1 (sessionID r) (waiting (room_of (view (server w))))\<rparr>)))"
proof -
  from redis_server.Leave_healthy [OF assms(1-3), of "sessionID r"] obtain w' where
    "Leave R (sessionID r) w = Some (w', sessionID r \<in> active (room_of (view (server w))))"
    "sessionID r \<notin> active (room_of (view (server w')))" "status (room_of (view (server w'))) (sessionID r) = None"
    "if sessionID r \<in> active (room_of (view (server w)))
     then active (room_of (view (server w))) - {sessionID r} \<subseteq> active (room_of (view (server w'))) \<and>
       (\<exists>xs. waiting (room_of (view (server w))) = xs @ waiting (room_of (view (server w'))))
     else room_of (view (server w')) = fst (leave (sessionID r) (room_of (view (server w))))"
    by (elim exE conjE)
  with assms(4) show ?thesis
    by (intro exI [of _ w']) (auto simp: sessionLeaveHandler_def Let_def leave_def)
qed

theorem sessionLeaveHandler_leaves_witness:
  "(\<exists>w'. sessionLeaveHandler mem_redis (visit ''POST'' ''/api/session/leave'' ''sess-aaaa'') busy_world =
      Some (w', write_status Map.empty 200) \<and> ''sess-aaaa'' \<notin> active (room_of (mem_view (server w')))) \<and>
   (\<exists>w'. sessionLeaveHandler mem_redis (visit ''POST'' ''/api/session/leave'' ''sess-bbbb'') busy_world =
      Some (w', write_status Map.empty 200) \<and> waiting (room_of (mem_view (server w'))) = [''sess-cccc''])"
proof -
  have id: "sessionID (visit ''POST'' ''/api/session/leave'' s) = s" for s
    by (simp add: visit_def sessionID_def req_Cookie_def cookieName_def)
  have room: "''sess-bbbb'' \<notin> active (room_of (mem_view (server busy_world)))"
    "waiting (room_of (mem_view (server busy_world))) = [''sess-bbbb'', ''sess-cccc'']" by code_simp+
  note leaves = sessionLeaveHandler_leaves [OF memdb.redis_server_axioms busy_world_ok busy_world_facts(3)]
  have "\<exists>w'. sessionLeaveHandler mem_redis (visit ''POST'' ''/api/session/leave'' ''sess-aaaa'') busy_world =
      Some (w', write_status Map.empty 200) \<and> ''sess-aaaa'' \<notin> active (room_of (mem_view (server w')))"
    using leaves [of "visit ''POST'' ''/api/session/leave'' ''sess-aaaa''"] by (auto simp: id)
  moreover have "\<exists>w'. sessionLeaveHandler mem_redis (visit ''POST'' ''/api/session/leave'' ''sess-bbbb'') busy_world =
      Some (w', write_status Map.empty 200) \<and> waiting (room_of (mem_view (server w'))) = [''sess-cccc'']"
    using leaves [of "visit ''POST'' ''/api/session/leave'' ''sess-bbbb''"] room by (auto simp: id)
  ultimately show ?thesis by blast
qed

text \<open>
  arrivals are not served in the order of the list: a session that asks for a free slot gets
  it although others wait, and one that was waiting itself stays in the list.
\<close>

theorem luaTryAdmit_ignores_queue:
  assumes "redis_server R view" and "room_ok (view d)" and "\<not> full (room_of (view d))"
  shows "let d' = fst (luaTryAdmit R keyCapacity keyActive (sessionKey sid) keyHistory sid now d) in
    sid \<in> active (room_of (view d')) \<and> waiting (room_of (view d')) = waiting (room_of (view d))"
  using redis_server.luaTryAdmit_refines(1) [OF assms(1,2), of sid now] assms(3)
  by (simp add: try_admit_def admit_def)

theorem luaTryAdmit_ignores_queue_witness:
  "let d' = fst (luaTryAdmit mem_redis keyCapacity keyActive (sessionKey ''sess-cccc'') keyHistory
       ''sess-cccc'' ''1003'' freed_server) in
    ''sess-cccc'' \<in> active (room_of (mem_view d')) \<and>
    waiting (room_of (mem_view d')) = waiting (room_of (mem_view freed_server))"
proof -
  have "\<not> full (room_of (mem_view freed_server))" by code_simp
  from luaTryAdmit_ignores_queue [OF memdb.redis_server_axioms freed_server_ok this] show ?thesis .
qed

text \<open>
  an attempt to admit gives up after 50 entries of forgotten sessions, even though a slot is
  free and a known session waits behind them.
\<close>

theorem luaAdmitNext_gives_up:
  assumes "redis_server R view" and "room_ok (view d)" and "\<not> full (room_of (view d))"
    and "waiting (room_of (view d)) = xs @ ys" and "length xs = 50"
    and "\<forall>x \<in> set xs. status (room_of (view d)) x = None"
  shows "snd (luaAdmitNext R keyCapacity keyActive keyQueueList keyHistory now d) = Some None \<and>
    waiting (room_of (view (fst (luaAdmitNext R keyCapacity keyActive keyQueueList keyHistory now d)))) = ys"
  using redis_server.luaAdmitNext_refines [OF assms(1,2), of now]
    admit_next_gives_up [OF assms(4-6,3), of now] by simp

definition stale_server :: mem where
  "stale_server = m_put_list (server fresh_world) keyQueueList (replicate 50 ''gone'' @ [''sess-bbbb''])"

lemma stale_server_ok: "room_ok (mem_view stale_server)"
  unfolding stale_server_def using fresh_world_ok by (simp add: room_ok_writes)

theorem luaAdmitNext_gives_up_witness:
  "snd (luaAdmitNext mem_redis keyCapacity keyActive keyQueueList keyHistory ''1004'' stale_server) = Some None \<and>
   waiting (room_of (mem_view (fst (luaAdmitNext mem_redis keyCapacity keyActive keyQueueList keyHistory
     ''1004'' stale_server)))) = [''sess-bbbb'']"
proof (rule luaAdmitNext_gives_up [OF memdb.redis_server_axioms stale_server_ok])
  show "\<not> full (room_of (mem_view stale_server))" by code_simp
  show "waiting (room_of (mem_view stale_server)) = replicate 50 ''gone'' @ [''sess-bbbb'']"
    by (simp add: stale_server_def room_writes)
  have "status (room_of (mem_view stale_server)) ''gone'' = None" by code_simp
  then show "\<forall>x \<in> set (replicate 50 ''gone''). status (room_of (mem_view stale_server)) x = None"
    by (simp add: numeral_eq_Suc)
qed simp

section \<open>Administration, position and estimated wait\<close>

text \<open>
  C40: \<open>POST /api/admin/capacity\<close> refuses every body that is not an object with a positive
  integer \<open>capacity\<close>, with 400 and without touching the server; otherwise, on a healthy
  connection, that number is the capacity in force afterwards.
\<close>

theorem adminCapacityHandler_sets:
  assumes "redis_server R view" and "room_ok (view (server w))" and "net w = []"
    and "decode_field json_int ''capacity'' 0 (req_body r) = (decoded, n)"
  shows "if decoded \<and> 0 < n
    then \<exists>w' snap. adminCapacityHandler R r w = Some (w', write_json Map.empty 200 (snapshot_json snap)) \<and>
           capacity (room_of (view (server w'))) = n
    else adminCapacityHandler R r w =
           Some (w, http_Error Map.empty ''{\"error\":\"capacity must be a positive integer\"}'' 400)"
proof (cases "decoded \<and> 0 < n")
  case True
  with redis_server.SetCapacity_healthy [OF assms(1-3), of n]
    decode_int64 [of "''capacity''" "req_body r"] assms(4)
  obtain w' snap where "SetCapacity R n w = Some (w', snap)" "capacity (room_of (view (server w'))) = n"
    by auto
  with True assms(4) show ?thesis by (auto simp: adminCapacityHandler_def)
qed (auto simp: adminCapacityHandler_def assms(4))

definition capacity_request :: "json \<Rightarrow> request" where
  "capacity_request v = (visit ''POST'' ''/api/admin/capacity'' ''admin'')\<lparr>req_body := Some (JObj [(''capacity'', v)])\<rparr>"

theorem adminCapacityHandler_sets_witness:
  "\<exists>w' snap. adminCapacityHandler mem_redis (capacity_request (JNum ''7'')) busy_world =
      Some (w', write_json Map.empty 200 (snapshot_json snap)) \<and>
     capacity (room_of (mem_view (server w'))) = 7"
proof -
  have "decode_field json_int ''capacity'' 0 (req_body (capacity_request (JNum ''7''))) = (True, 7)"
    by code_simp
  from adminCapacityHandler_sets [OF memdb.redis_server_axioms busy_world_ok busy_world_facts(3) this]
  show ?thesis by simp
qed

text \<open>
  the position reported to a waiting session is one more than the number of entries ahead of
  it, with the length of the list as the total, and no position for a session not in the list.
\<close>

theorem GetPosition_is_place:
  assumes "redis_server R view" and "room_ok (view (server w))" and "net w = []"
  shows "GetPosition R sid w = (w, map_option
     (\<lambda>k. \<lparr>Pos = int k + 1, Total = int (length (waiting (room_of (view (server w)))))\<rparr>)
     (index_of sid (waiting (room_of (view (server w))))))"
  by (rule redis_server.GetPosition_healthy [OF assms])

theorem GetPosition_is_place_witness:
  "snd (GetPosition mem_redis ''sess-cccc'' busy_world) = Some \<lparr>Pos = 2, Total = 2\<rparr>"
proof -
  have "waiting (room_of (mem_view (server busy_world))) = [''sess-bbbb'', ''sess-cccc'']"
    by code_simp
  with GetPosition_is_place [OF memdb.redis_server_axioms busy_world_ok busy_world_facts(3), of "''sess-cccc''"]
  show ?thesis by simp
qed

text \<open>
  C36: the estimate is the whole span of the recorded admission times divided, towards zero, by the
  number of gaps, times the number of sessions ahead, in 64-bit arithmetic; with fewer than five
  entries or fewer than two readable ones there is no estimate (\<open>-1\<close>). The order of the
  history does not matter.
\<close>

theorem eta_seconds_mean_gap:
  "eta_seconds position hist =
     (let ts = List.map_filter ParseInt hist in
      if length hist < 5 \<or> length ts < 2 then -1
      else wrap64 (go_div (wrap64 (Max (set ts) - Min (set ts))) (int (length ts) - 1)
             * wrap64 (position - 1)))"
proof (cases "length (List.map_filter ParseInt hist) < 2")
  case False
  then have "List.map_filter ParseInt hist \<noteq> []" by auto
  with sum_gaps_sort [of "List.map_filter ParseInt hist"] False show ?thesis
    by (auto simp: eta_seconds_def Let_def in_int64_def [of 0])
qed (simp add: eta_seconds_def Let_def)

lemma call_failing:
  "net w = Fail n # ds \<Longrightarrow> call f w = (w\<lparr>server := ((fst \<circ> f) ^^ n) (server w), net := ds\<rparr>, None)"
  by (simp add: call_def)

text \<open>
  C36: when Redis does not answer the gate's question who the session is and its request for a
  slot, the gate is closed: the visitor is redirected and never reaches the target, even one
  that holds a slot.
\<close>

theorem gate_fails_closed:
  assumes "net w = Fail a # Fail b # rest"
  shows "\<exists>w'. rootHandler R uuid r w =
    (w', http_Redirect (snd (getOrCreateSession uuid r)) r (if req_path r = ''/'' then ''/queue'' else ''/''))"
  using assms
  by (cases "getOrCreateSession uuid r")
    (simp add: rootHandler_def GetStatus_def rootHandler_admit_def TryAdmit_def run_script_def
      call_failing Let_def)

theorem gate_fails_closed_witness:
  "\<exists>w'. rootHandler mem_redis ''v'' (visit ''GET'' ''/'' ''sess-aaaa'')
      (busy_world\<lparr>net := [Fail 0, Fail 1, Reply 0]\<rparr>) =
    (w', http_Redirect (snd (getOrCreateSession ''v'' (visit ''GET'' ''/'' ''sess-aaaa'')))
       (visit ''GET'' ''/'' ''sess-aaaa'') ''/queue'')"
  using gate_fails_closed [of "busy_world\<lparr>net := [Fail 0, Fail 1, Reply 0]\<rparr>" 0 1 "[Reply 0]" mem_redis
      "''v''" "visit ''GET'' ''/'' ''sess-aaaa''"]
  by (simp add: visit_def)

text \<open>
  starting the service on a healthy connection puts the configured capacity, always positive,
  in force if none is stored, and otherwise keeps the stored one: a capacity set by an
  administrator survives restarts.
\<close>

theorem queue_main_keeps_capacity:
  assumes "redis_server R view" and "room_ok (view (server w))" and "net w = []"
    and "queue_main R getenv w = (cfg, w')"
  shows "0 < Capacity cfg \<and> room_of (view (server w')) =
    (if view (server w) keyCapacity = None
     then (room_of (view (server w)))\<lparr>capacity := Capacity cfg\<rparr> else room_of (view (server w)))"
  using redis_server.queue_main_healthy [OF assms] queue_Load_capacity [of getenv] assms(4)
  by (auto simp: queue_main_def Let_def)

theorem queue_main_keeps_capacity_witness:
  "room_of (mem_view (server (snd (queue_main mem_redis (\<lambda>_. ''9'') busy_world)))) =
     room_of (mem_view (server busy_world))"
proof -
  have "map_of (server busy_world) keyCapacity \<noteq> None" by code_simp
  then have "mem_view (server busy_world) keyCapacity \<noteq> None" by (simp only: mem_view_None not_False_eq_True)
  with queue_main_keeps_capacity [OF memdb.redis_server_axioms busy_world_ok busy_world_facts(3)
      prod.collapse [symmetric], of "\<lambda>_. ''9''"]
  show ?thesis by (simp only: if_False)
qed

end
