(* ===== verification/QueueProxy.thy ===== *)
theory QueueProxy
  imports QueueProperties
begin

text \<open>
  The reverse proxy of the waiting room (\<open>newProxy\<close> in \<open>main.go\<close>) and the service with the target
  behind it. Parsing the target's address and sending a request are arguments; sending takes the
  state of the world outside and gives no response when the exchange fails. What the library
  does to hop-by-hop and forwarding headers is part of sending. Paths are the decoded ones.
\<close>

section \<open>Requests for the target\<close>

record target_url =
  url_Scheme :: string
  url_Host :: string
  url_Path :: string
  url_RawQuery :: string

record target_request = request +
  tr_Scheme :: string
  tr_Address :: string
  tr_Host :: string

definition HasSuffix :: "string \<Rightarrow> string \<Rightarrow> bool" where
  "HasSuffix s t \<longleftrightarrow> HasPrefix (rev s) (rev t)"

definition singleJoiningSlash :: "string \<Rightarrow> string \<Rightarrow> string" where
  "singleJoiningSlash a b =
     (let aslash = HasSuffix a ''/''; bslash = HasPrefix b ''/''
      in if aslash \<and> bslash then a @ drop 1 b else if \<not> aslash \<and> \<not> bslash then a @ ''/'' @ b else a @ b)"

definition joinRawQuery :: "string \<Rightarrow> string \<Rightarrow> string" where
  "joinRawQuery a b = (if a = [] \<or> b = [] then a @ b else a @ ''&'' @ b)"

text \<open>
  The director of \<open>NewSingleHostReverseProxy\<close>, followed by the assignment to \<open>req.Host\<close>; a
  request without a \<open>User-Agent\<close> gets an empty one, not that of Go's client.
\<close>

definition Director :: "target_url \<Rightarrow> request \<Rightarrow> target_request" where
  "Director target r =
     request.extend
       (r\<lparr>req_path := singleJoiningSlash (url_Path target) (req_path r),
          req_rawquery := joinRawQuery (url_RawQuery target) (req_rawquery r),
          req_header := (if req_header r ''User-Agent'' = None then header_Set (req_header r) ''User-Agent'' ''''
            else req_header r)\<rparr>)
       (target_request.fields (url_Scheme target) (url_Host target) (url_Host target))"

section \<open>The proxy\<close>

definition copyHeader :: "header \<Rightarrow> header \<Rightarrow> header" where
  "copyHeader dst src = (\<lambda>k. case (dst k, src k) of
      (None, vs) \<Rightarrow> vs
    | (vs, None) \<Rightarrow> vs
    | (Some vs, Some us) \<Rightarrow> Some (vs @ us))"

type_synonym 'v send = "target_request \<Rightarrow> 'v \<Rightarrow> 'v \<times> response option"

definition ProxyErrorHandler :: "header \<Rightarrow> served" where
  "ProxyErrorHandler h = http_Error h ''Service temporarily unavailable'' 502"

definition newProxy ::
  "(string \<Rightarrow> target_url option) \<Rightarrow> 'v send \<Rightarrow> string \<Rightarrow> (header \<Rightarrow> request \<Rightarrow> 'v \<Rightarrow> 'v \<times> served) option" where
  "newProxy url_Parse send targetURL =
     (case url_Parse targetURL of
        None \<Rightarrow> None
      | Some target \<Rightarrow> Some (\<lambda>h r v.
          case send (Director target r) v of
            (v, None) \<Rightarrow> (v, ProxyErrorHandler h)
          | (v, Some resp) \<Rightarrow> (v, Served (resp\<lparr>resp_header := copyHeader h (resp_header resp)\<rparr>))))"

text \<open>A request to the service with the target behind it.\<close>

definition site_serve ::
  "'db redis \<Rightarrow> queue_config \<Rightarrow> (header \<Rightarrow> request \<Rightarrow> 'v \<Rightarrow> 'v \<times> served) \<Rightarrow> string \<Rightarrow> request \<Rightarrow> 'db world \<times> 'v
     \<Rightarrow> (('db world \<times> 'v) \<times> served) option" where
  "site_serve R cfg proxy uuid r = (\<lambda>(w, v).
     case Routes R cfg uuid r w of
       None \<Rightarrow> None
     | Some (w, out) \<Rightarrow>
         (case out of
            Proxied h r \<Rightarrow> (case proxy h r v of (v, out) \<Rightarrow> Some ((w, v), out))
          | _ \<Rightarrow> Some ((w, v), out)))"

text \<open>\<open>main\<close>: an address that cannot be parsed ends the process after the capacity is stored.\<close>

definition queue_service ::
  "'db redis \<Rightarrow> (string \<Rightarrow> string) \<Rightarrow> (string \<Rightarrow> target_url option) \<Rightarrow> 'v send \<Rightarrow> 'db world
     \<Rightarrow> 'db world \<times> (string \<Rightarrow> request \<Rightarrow> 'db world \<times> 'v \<Rightarrow> (('db world \<times> 'v) \<times> served) option) option" where
  "queue_service R getenv url_Parse send w =
     (case queue_main R getenv w of
        (cfg, w) \<Rightarrow> (w, map_option (site_serve R cfg) (newProxy url_Parse send (TargetURL cfg))))"

section \<open>What reaches the target\<close>

lemma Director_request [simp]:
  "req_method (Director t r) = req_method r" "req_cookies (Director t r) = req_cookies r"
  "req_body (Director t r) = req_body r" "req_path (Director t r) = singleJoiningSlash (url_Path t) (req_path r)"
  "req_rawquery (Director t r) = joinRawQuery (url_RawQuery t) (req_rawquery r)"
  "tr_Host (Director t r) = url_Host t" "tr_Address (Director t r) = url_Host t" "tr_Scheme (Director t r) = url_Scheme t"
  by (simp_all add: Director_def request.defs target_request.defs)

lemma Director_header:
  "req_header (Director t r) k =
     (if k = ''User-Agent'' \<and> req_header r k = None then Some [''''] else req_header r k)"
proof -
  have "CanonicalHeaderKey ''User-Agent'' = ''User-Agent''" by code_simp
  then show ?thesis by (auto simp: Director_def request.defs target_request.defs header_Set_def)
qed

lemma joined_path: "HasPrefix p ''/'' \<Longrightarrow> singleJoiningSlash base p = (if HasSuffix base ''/'' then butlast base else base) @ p"
proof -
  assume "HasPrefix p ''/''"
  then obtain q where p: "p = CHR ''/'' # q" by (cases p) (auto simp: HasPrefix_def)
  show ?thesis
    by (cases base rule: rev_cases) (auto simp: p singleJoiningSlash_def HasPrefix_def HasSuffix_def Let_def)
qed

lemma rootHandler_header:
  "rootHandler R uuid r w = (w', Proxied h r') \<Longrightarrow> h = snd (getOrCreateSession uuid r)"
  by (auto simp: rootHandler_def rootHandler_admit_def Let_def split: prod.splits if_splits)

text \<open>
  C4: every request to the service is either answered by the service itself, with nothing sent to
  the target, or it is sent there exactly once, while the visitor's session holds a slot. What is
  sent names the target as its host and is otherwise the visitor's request: method, cookies,
  body, the path behind the target's, the query behind the target's, and every header, except
  that a missing \<open>User-Agent\<close> is sent as an empty one. The visitor gets the target's answer with
  the session's headers, or status 502 when the exchange failed.
\<close>

theorem target_reached_only_with_slot:
  assumes "redis_server R view" and "room_ok (view (server w))"
    and "newProxy url_Parse send url = Some proxy"
    and "site_serve R cfg proxy uuid r (w, v) = Some ((w', v'), out)"
  shows "(v' = v \<and> Routes R cfg uuid r w = Some (w', out) \<and> (\<forall>h q. out \<noteq> Proxied h q)) \<or>
    fst (getOrCreateSession uuid r) \<in> active (room_of (view (server w'))) \<and>
    (\<exists>target q reply. url_Parse url = Some target \<and> send q v = (v', reply) \<and>
       tr_Scheme q = url_Scheme target \<and> tr_Address q = url_Host target \<and> tr_Host q = url_Host target \<and>
       req_method q = req_method r \<and> req_cookies q = req_cookies r \<and> req_body q = req_body r \<and>
       req_path q = singleJoiningSlash (url_Path target) (req_path r) \<and>
       req_rawquery q = joinRawQuery (url_RawQuery target) (req_rawquery r) \<and>
       (\<forall>k. req_header q k = (if k = ''User-Agent'' \<and> req_header r k = None then Some [''''] else req_header r k)) \<and>
       out = (case reply of
           None \<Rightarrow> http_Error (snd (getOrCreateSession uuid r)) ''Service temporarily unavailable'' 502
         | Some resp \<Rightarrow> Served (resp\<lparr>resp_header := copyHeader (snd (getOrCreateSession uuid r)) (resp_header resp)\<rparr>)))"
proof -
  obtain w1 o1 where routes: "Routes R cfg uuid r w = Some (w1, o1)"
    using assms(4) by (auto simp: site_serve_def split: option.splits prod.splits)
  obtain target where t: "url_Parse url = Some target"
    using assms(3) by (auto simp: newProxy_def split: option.splits)
  show ?thesis
  proof (cases o1)
    case (Proxied h r1)
    have root: "rootHandler R uuid r w = (w1, Proxied h r1)" using Routes_proxied [OF routes [unfolded Proxied]] .
    have h: "h = snd (getOrCreateSession uuid r)" using rootHandler_header [OF root] .
    have slot: "r1 = r" "fst (getOrCreateSession uuid r) \<in> active (room_of (view (server w1)))"
      using redis_server.rootHandler_proxied [OF assms(1,2) root] by simp_all
    obtain v1 reply where sent: "send (Director target r) v = (v1, reply)" by fastforce
    have "v1 = v'" "w1 = w'" "out = (case reply of None \<Rightarrow> http_Error h ''Service temporarily unavailable'' 502
        | Some resp \<Rightarrow> Served (resp\<lparr>resp_header := copyHeader h (resp_header resp)\<rparr>))"
      using assms(3,4) routes Proxied slot(1) t sent
      by (auto simp: site_serve_def newProxy_def ProxyErrorHandler_def split: option.splits)
    with slot(2) t sent show ?thesis
      unfolding h [symmetric]
      by (intro disjI2 conjI exI [of _ target] exI [of _ "Director target r"] exI [of _ reply])
        (simp_all add: Director_header)
  qed (use assms(4) routes in \<open>auto simp: site_serve_def\<close>)
qed

definition demo_target :: target_url where
  "demo_target = \<lparr>url_Scheme = ''http'', url_Host = ''target:80'', url_Path = ''/app'', url_RawQuery = ''''\<rparr>"

theorem target_reached_only_with_slot_witness:
  "\<exists>w' out. site_serve mem_redis demo_cfg
       (the (newProxy (\<lambda>_. Some demo_target) (\<lambda>q v. ((Suc (fst v), Some (tr_Host q, req_path q)), None)) ''http://target:80/app''))
       ''visitor-0000'' (visit ''GET'' ''/'' ''sess-aaaa'') (flaky fresh_world, (0, None)) =
         Some ((w', (1, Some (''target:80'', ''/app/''))), Served out) \<and>
     resp_status out = 502 \<and>
     fst (getOrCreateSession ''visitor-0000'' (visit ''GET'' ''/'' ''sess-aaaa'')) \<in> active (room_of (mem_view (server w')))"
proof -
  let ?send = "\<lambda>(q :: target_request) (v :: nat \<times> (string \<times> string) option).
    ((Suc (fst v), Some (tr_Host q, req_path q)), None :: response option)"
  let ?r = "visit ''GET'' ''/'' ''sess-aaaa''"
  obtain proxy where p: "newProxy (\<lambda>_. Some demo_target) ?send ''http://target:80/app'' = Some proxy"
    by (simp add: newProxy_def)
  have ok: "room_ok (mem_view (server (flaky fresh_world)))" using fresh_world_ok by (simp add: flaky_def)
  from memdb.Routes_returns [OF this] obtain w1 o1 where
    x: "Routes mem_redis demo_cfg ''visitor-0000'' ?r (flaky fresh_world) = Some (w1, o1)" by blast
  have "served_proxied (snd (the (Routes mem_redis demo_cfg ''visitor-0000'' ?r (flaky fresh_world))))" by code_simp
  with x served_proxiedD obtain h r' where o1: "o1 = Proxied h r'" by fastforce
  obtain v' out where proxied: "proxy h r' (0, None) = (v', out)" by fastforce
  have run: "site_serve mem_redis demo_cfg proxy ''visitor-0000'' ?r (flaky fresh_world, (0, None)) = Some ((w1, v'), out)"
    unfolding site_serve_def using x o1 proxied by simp
  have path: "singleJoiningSlash ''/app'' ''/'' = ''/app/''" by code_simp
  from target_reached_only_with_slot [OF memdb.redis_server_axioms ok p run] x o1
  have slot: "fst (getOrCreateSession ''visitor-0000'' ?r) \<in> active (room_of (mem_view (server w1)))"
    and "\<exists>q :: target_request. ?send q (0, None) = (v', None) \<and> tr_Host q = ''target:80'' \<and>
      req_path q = singleJoiningSlash ''/app'' (req_path ?r) \<and>
      out = http_Error (snd (getOrCreateSession ''visitor-0000'' ?r)) ''Service temporarily unavailable'' 502"
    by (auto simp: demo_target_def)
  then have "v' = (1, Some (''target:80'', ''/app/''))" "\<exists>resp. out = Served resp \<and> resp_status resp = 502"
    by (auto simp: visit_def path http_Error_def)
  with run slot p show ?thesis by auto
qed

end
