(* ===== verification/Hmac.thy ===== *)
theory Hmac
  imports GoLib
begin

text \<open>
  What the signature code uses of \<open>crypto/sha256\<close>, \<open>crypto/hmac\<close> and \<open>encoding/base64\<close>:
  SHA-256 (FIPS 180-4) on byte strings, HMAC with its 64-byte block (RFC 2104), and the
  unpadded URL alphabet of base64 (RFC 4648, section 5).
\<close>

unbundle bit_operations_syntax

section \<open>SHA-256\<close>

text \<open>
  The constants are the first 32 bits of the fractional parts of the roots of the first primes:
  cube roots of 64 primes for the rounds, square roots of 8 primes for the initial state.
\<close>

definition is_prime :: "nat \<Rightarrow> bool" where
  "is_prime n \<longleftrightarrow> 2 \<le> n \<and> list_all (\<lambda>d. n mod d \<noteq> 0) [2..<n]"

definition first_primes :: "nat list" where
  "first_primes = filter is_prime [2..<312]"

text \<open>The largest number below \<open>2 ^ 40\<close> whose \<open>k\<close>-th power is at most \<open>n\<close>, bit by bit.\<close>

definition root_floor :: "nat \<Rightarrow> int \<Rightarrow> int" where
  "root_floor k n = fold (\<lambda>i r. let t = r + 2 ^ i in if t ^ k \<le> n then t else r) (rev [0..<40]) 0"

definition root_bits :: "nat \<Rightarrow> nat \<Rightarrow> 32 word" where
  "root_bits k p = word_of_int (root_floor k (int p * 2 ^ (32 * k)))"

definition sha256_K :: "32 word list" where
  "sha256_K = map (root_bits 3) first_primes"

type_synonym sha_state = "32 word \<times> 32 word \<times> 32 word \<times> 32 word \<times> 32 word \<times> 32 word \<times> 32 word \<times> 32 word"

definition sha256_init :: sha_state where
  "sha256_init = (root_bits 2 2, root_bits 2 3, root_bits 2 5, root_bits 2 7,
     root_bits 2 11, root_bits 2 13, root_bits 2 17, root_bits 2 19)"

definition byte_word :: "char \<Rightarrow> 32 word" where
  "byte_word c = word_of_nat (of_char c)"

fun be_words :: "string \<Rightarrow> 32 word list" where
  "be_words (a # b # c # d # s) =
     (push_bit 24 (byte_word a) OR push_bit 16 (byte_word b) OR push_bit 8 (byte_word c) OR byte_word d)
     # be_words s"
| "be_words _ = []"

definition word_bytes :: "32 word \<Rightarrow> string" where
  "word_bytes w = map (\<lambda>i. char_of (unat (drop_bit i w AND 255))) [24, 16, 8, 0]"

text \<open>The message schedule: each new word from the last sixteen, newest first.\<close>

definition small_sigma0 :: "32 word \<Rightarrow> 32 word" where
  "small_sigma0 x = word_rotr 7 x XOR word_rotr 18 x XOR drop_bit 3 x"

definition small_sigma1 :: "32 word \<Rightarrow> 32 word" where
  "small_sigma1 x = word_rotr 17 x XOR word_rotr 19 x XOR drop_bit 10 x"

fun extend_schedule :: "nat \<Rightarrow> 32 word list \<Rightarrow> 32 word list" where
  "extend_schedule 0 w = w"
| "extend_schedule (Suc n) w =
     extend_schedule n ((small_sigma1 (w ! 1) + w ! 6 + small_sigma0 (w ! 14) + w ! 15) # w)"

definition big_sigma0 :: "32 word \<Rightarrow> 32 word" where
  "big_sigma0 x = word_rotr 2 x XOR word_rotr 13 x XOR word_rotr 22 x"

definition big_sigma1 :: "32 word \<Rightarrow> 32 word" where
  "big_sigma1 x = word_rotr 6 x XOR word_rotr 11 x XOR word_rotr 25 x"

fun sha256_round :: "32 word \<times> 32 word \<Rightarrow> sha_state \<Rightarrow> sha_state" where
  "sha256_round (k, w) (a, b, c, d, e, f, g, h) =
     (let t1 = h + big_sigma1 e + ((e AND f) XOR (NOT e AND g)) + k + w;
          t2 = big_sigma0 a + ((a AND b) XOR (a AND c) XOR (b AND c))
      in (t1 + t2, a, b, c, d + t1, e, f, g))"

fun add_state :: "sha_state \<Rightarrow> sha_state \<Rightarrow> sha_state" where
  "add_state (a, b, c, d, e, f, g, h) (a', b', c', d', e', f', g', h') =
     (a + a', b + b', c + c', d + d', e + e', f + f', g + g', h + h')"

definition sha256_block :: "string \<Rightarrow> sha_state \<Rightarrow> sha_state" where
  "sha256_block blk st =
     (let ws = rev (extend_schedule 48 (rev (be_words blk)))
      in add_state st (fold sha256_round (zip sha256_K ws) st))"

text \<open>Padding: a one bit, zeros, and the length in bits as 64 bits, to a multiple of 64 bytes.\<close>

definition sha256_pad :: "string \<Rightarrow> string" where
  "sha256_pad m =
     (let bits = 8 * length m;
          zeros = (119 - length m mod 64) mod 64
      in m @ [char_of (128 :: nat)] @ replicate zeros (char_of (0 :: nat))
         @ map (\<lambda>i. char_of (bits div 2 ^ i)) [56, 48, 40, 32, 24, 16, 8, 0])"

fun sha256_blocks :: "nat \<Rightarrow> string \<Rightarrow> sha_state \<Rightarrow> sha_state" where
  "sha256_blocks 0 m st = st"
| "sha256_blocks (Suc n) m st = sha256_blocks n (drop 64 m) (sha256_block (take 64 m) st)"

fun state_bytes :: "sha_state \<Rightarrow> string" where
  "state_bytes (a, b, c, d, e, f, g, h) = concat (map word_bytes [a, b, c, d, e, f, g, h])"

definition Sum256 :: "string \<Rightarrow> string" where
  "Sum256 m = (let p = sha256_pad m in state_bytes (sha256_blocks (length p div 64) p sha256_init))"

lemma length_state_bytes [simp]: "length (state_bytes st) = 32"
  by (cases st rule: state_bytes.cases) (simp add: word_bytes_def)

lemma length_Sum256 [simp]: "length (Sum256 m) = 32"
  by (simp add: Sum256_def Let_def)

section \<open>HMAC\<close>

definition xor_byte :: "nat \<Rightarrow> char \<Rightarrow> char" where
  "xor_byte n c = char_of (n XOR of_char c)"

definition hmac_Sum :: "string \<Rightarrow> string \<Rightarrow> string" where
  "hmac_Sum key msg =
     (let k = (if length key > 64 then Sum256 key else key);
          k = k @ replicate (64 - length k) (char_of (0 :: nat))
      in Sum256 (map (xor_byte 0x5c) k @ Sum256 (map (xor_byte 0x36) k @ msg)))"

section \<open>Base64\<close>

definition b64_alphabet :: string where
  "b64_alphabet = ''ABCDEFGHIJKLMNOPQRSTUVWXYZabcdefghijklmnopqrstuvwxyz0123456789-_''"

definition b64_char :: "nat \<Rightarrow> char" where
  "b64_char n = b64_alphabet ! (n mod 64)"

definition byte_nat :: "char \<Rightarrow> nat" where
  "byte_nat c = of_char c"

text \<open>\<open>base64.RawURLEncoding.EncodeToString\<close>.\<close>

fun RawURL_encode :: "string \<Rightarrow> string" where
  "RawURL_encode [] = []"
| "RawURL_encode [a] = map b64_char [byte_nat a div 4, byte_nat a * 16]"
| "RawURL_encode [a, b] =
     map b64_char [byte_nat a div 4, byte_nat a * 16 + byte_nat b div 16, byte_nat b * 4]"
| "RawURL_encode (a # b # c # s) =
     map b64_char [byte_nat a div 4, byte_nat a * 16 + byte_nat b div 16,
       byte_nat b * 4 + byte_nat c div 64, byte_nat c] @ RawURL_encode s"

lemma length_hmac_Sum [simp]: "length (hmac_Sum key msg) = 32"
  by (simp add: hmac_Sum_def Let_def)

lemma RawURL_encode_Nil [simp]: "RawURL_encode s = [] \<longleftrightarrow> s = []"
  by (cases s rule: RawURL_encode.cases) simp_all

text \<open>The encoding loses nothing: strings of the same length with the same encoding are equal.\<close>

lemma byte_nat_less [simp]: "byte_nat c < 256"
  by (simp add: byte_nat_def)

lemma byte_nat_eq [simp]: "byte_nat c = byte_nat d \<longleftrightarrow> c = d"
  by (simp add: byte_nat_def)

lemma b64_char_eq [simp]: "b64_char m = b64_char n \<longleftrightarrow> m mod 64 = n mod 64"
proof -
  have "distinct b64_alphabet" "length b64_alphabet = 64" by code_simp+
  then show ?thesis by (simp add: b64_char_def nth_eq_iff_index_eq)
qed

lemma sextet_split:
  fixes a x k m :: nat
  assumes "x < k" and "0 < m"
  shows "(k * a + x) mod (m * k) = k * (a mod m) + x"
proof -
  have "(k * a + x) mod (k * m) = k * ((k * a + x) div k mod m) + (k * a + x) mod k"
    by (rule mod_mult2_eq)
  with assms show ?thesis by (simp add: mult.commute)
qed

lemma sextet_parts:
  fixes a b x y k m :: nat
  assumes "(k * a + x) mod (m * k) = (k * b + y) mod (m * k)" and "x < k" "y < k" "0 < m"
  shows "a mod m = b mod m \<and> x = y"
proof -
  have eq: "k * (a mod m) + x = k * (b mod m) + y" using assms by (simp add: sextet_split)
  have "a mod m = (k * (a mod m) + x) div k" "x = (k * (a mod m) + x) mod k" using assms by simp_all
  moreover have "b mod m = (k * (b mod m) + y) div k" "y = (k * (b mod m) + y) mod k" using assms by simp_all
  ultimately show ?thesis using eq by metis
qed

lemma sextets_eq:
  fixes a b :: nat
  assumes "(a div 4) mod 64 = (b div 4) mod 64" "(16 * a + x) mod 64 = (16 * b + y) mod 64"
    and "a < 256" "b < 256" "x < 16" "y < 16"
  shows "a = b \<and> x = y"
proof -
  have "a mod 4 = b mod 4 \<and> x = y" using sextet_parts [of 16 a x 4 b y] assms by simp
  moreover have "a div 4 = b div 4" using assms(1,3,4) by (simp add: div_less_iff_less_mult)
  ultimately show ?thesis by (metis div_mult_mod_eq)
qed

lemma sextets_eq2:
  fixes a b :: nat
  assumes "(4 * a + x) mod 64 = (4 * b + y) mod 64" "a div 16 = b div 16" "x < 4" "y < 4"
  shows "a = b \<and> x = y"
proof -
  have "a mod 16 = b mod 16 \<and> x = y" using sextet_parts [of 4 a x 16 b y] assms by simp
  with assms(2) show ?thesis by (metis div_mult_mod_eq)
qed

lemma RawURL_encode_inject:
  "length s = length t \<Longrightarrow> RawURL_encode s = RawURL_encode t \<Longrightarrow> s = t"
proof (induction s arbitrary: t rule: RawURL_encode.induct)
  case 1
  then show ?case by simp
next
  case (2 a)
  then obtain a' where t: "t = [a']" by (cases t) auto
  with 2 sextets_eq [of "byte_nat a" "byte_nat a'" 0 0] show ?case by (simp add: mult.commute)
next
  case (3 a b)
  then obtain a' b' where t: "t = [a', b']" by (cases t; cases "tl t") auto
  with 3 have "byte_nat a = byte_nat a' \<and> byte_nat b div 16 = byte_nat b' div 16"
    by (intro sextets_eq) (auto simp: mult.commute div_less_iff_less_mult)
  with 3 t sextets_eq2 [of "byte_nat b" 0 "byte_nat b'" 0] show ?case by (simp add: mult.commute)
next
  case (4 a b c s)
  then obtain a' b' c' s' where t: "t = a' # b' # c' # s'"
    by (cases t rule: RawURL_encode.cases) auto
  with 4 have ab: "byte_nat a = byte_nat a' \<and> byte_nat b div 16 = byte_nat b' div 16"
    by (intro sextets_eq) (auto simp: mult.commute div_less_iff_less_mult)
  with 4 t have bc: "byte_nat b = byte_nat b' \<and> byte_nat c div 64 = byte_nat c' div 64"
    by (intro sextets_eq2) (auto simp: mult.commute div_less_iff_less_mult)
  from 4 t have "byte_nat c mod 64 = byte_nat c' mod 64" by simp
  with bc have "byte_nat c = byte_nat c'" by (metis div_mult_mod_eq)
  with ab bc 4 t show ?case by simp
qed

end
