(* ===== verification/WrapSig.thy ===== *)
theory WrapSig
  imports Hmac Http
begin

text \<open>
  The signature the wrapper puts on the identity headers and the API checks
  (\<open>internal/wrapsig/sign.go\<close>, byte-identical in \<open>authz\<close> and \<open>api\<close>). A header getter is a
  function; the time is in whole seconds, as \<open>now.Unix()\<close> gives it.
\<close>

section \<open>Signing and verifying\<close>

definition SignedHeaders :: "string list" where
  "SignedHeaders = [''X-User-Sub'', ''X-User-Email'', ''X-User-Username'', ''X-User-Roles'',
     ''X-Bank-Account-Number'', ''X-MFA-Verified'', ''X-MFA-Method'', ''X-Wrapper-Timestamp'']"

definition HeaderSignature :: string where "HeaderSignature = ''X-Wrapper-Signature''"
definition HeaderTimestamp :: string where "HeaderTimestamp = ''X-Wrapper-Timestamp''"

text \<open>A \<open>time.Duration\<close> counts nanoseconds.\<close>

definition Second :: int where "Second = 1000000000"
definition MaxSkew :: int where "MaxSkew = 30 * Second"

definition newline :: char where "newline = CHR 0x0A"

definition canonical_line :: "(string \<Rightarrow> string) \<Rightarrow> string \<Rightarrow> string" where
  "canonical_line get h = ToLower h @ ''='' @ get h"

definition canonical :: "(string \<Rightarrow> string) \<Rightarrow> string" where
  "canonical get = Join (sort (map (canonical_line get) SignedHeaders)) [newline]"

definition Sign :: "(string \<Rightarrow> string) \<Rightarrow> string \<Rightarrow> string" where
  "Sign get secret = RawURL_encode (hmac_Sum secret (canonical get))"

datatype sig_error = MissingSignature | MissingTimestamp | InvalidTimestamp | OutsideWindow | Mismatch

fun sig_message :: "sig_error \<Rightarrow> string" where
  "sig_message MissingSignature = ''missing wrapper signature''"
| "sig_message MissingTimestamp = ''missing wrapper timestamp''"
| "sig_message InvalidTimestamp = ''invalid wrapper timestamp''"
| "sig_message OutsideWindow = ''wrapper signature outside time window''"
| "sig_message Mismatch = ''wrapper signature mismatch''"

text \<open>\<open>None\<close> is the nil error.\<close>

definition sig_Verify :: "(string \<Rightarrow> string) \<Rightarrow> string \<Rightarrow> int \<Rightarrow> sig_error option" where
  "sig_Verify get secret now =
     (let provided = get HeaderSignature; tsStr = get HeaderTimestamp
      in if provided = '''' then Some MissingSignature
         else if tsStr = '''' then Some MissingTimestamp
         else case ParseInt (TrimSpace tsStr) of
                None \<Rightarrow> Some InvalidTimestamp
              | Some ts \<Rightarrow>
                  let delta = wrap64 (now - ts);
                      delta = (if delta < 0 then wrap64 (- delta) else delta)
                  in if wrap64 (delta * Second) > MaxSkew then Some OutsideWindow
                     else if Sign get secret \<noteq> provided then Some Mismatch
                     else None)"

section \<open>The canonical string determines the headers\<close>

lemma Join_split:
  assumes "c \<notin> set x" and "c \<notin> set y" and "x @ c # r = y @ c # t"
  shows "x = y \<and> r = t"
  using assms
proof (induction x arbitrary: y)
  case Nil
  then show ?case by (cases y) auto
next
  case (Cons a x)
  then show ?case by (cases y) auto
qed

lemma Join_inject:
  "length xs = length ys \<Longrightarrow> \<forall>x \<in> set xs \<union> set ys. c \<notin> set x \<Longrightarrow> Join xs [c] = Join ys [c] \<Longrightarrow> xs = ys"
proof (induction xs "[c]" arbitrary: ys rule: Join.induct)
  case 1
  then show ?case by simp
next
  case (2 x)
  then obtain y where "ys = [y]" by (cases ys) auto
  with 2 show ?case by simp
next
  case (3 x x' xs)
  then obtain y y' ys' where ys: "ys = y # y' # ys'"
    by (cases ys; cases "tl ys") auto
  from 3 have "x = y \<and> Join (x' # xs) [c] = Join (y' # ys') [c]"
    by (intro Join_split [of c]) (auto simp: ys)
  moreover have "x' # xs = y' # ys'"
    by (rule "3.hyps") (use "3.prems" ys calculation in auto)
  ultimately show ?case by (simp add: ys)
qed

lemma signed_names_distinct: "distinct (map ToLower SignedHeaders)"
  by code_simp

lemma signed_names_no_eq: "\<forall>h \<in> set SignedHeaders. CHR ''='' \<notin> set (ToLower h)"
  by code_simp

lemma signed_line_eq:
  assumes "h \<in> set SignedHeaders" and "h' \<in> set SignedHeaders"
    and "canonical_line f h = canonical_line g h'"
  shows "h = h' \<and> f h = g h"
proof -
  have "ToLower h = ToLower h' \<and> f h = g h'"
    by (rule Join_split [of "CHR ''=''"]) (use assms signed_names_no_eq in \<open>auto simp: canonical_line_def\<close>)
  moreover have "inj_on ToLower (set SignedHeaders)" using signed_names_distinct by (simp add: distinct_map)
  ultimately show ?thesis using assms(1,2) by (metis inj_onD)
qed

lemma signed_names_no_newline: "\<forall>h \<in> set SignedHeaders. newline \<notin> set (ToLower h @ ''='')"
  by code_simp

definition line_free :: "(string \<Rightarrow> string) \<Rightarrow> bool" where
  "line_free get \<longleftrightarrow> (\<forall>h \<in> set SignedHeaders. newline \<notin> set (get h))"

lemma canonical_inject:
  assumes "line_free f" and "line_free g" and "canonical f = canonical g" and "h \<in> set SignedHeaders"
  shows "f h = g h"
proof -
  let ?L = "\<lambda>f. map (canonical_line f) SignedHeaders"
  have "\<forall>x \<in> set (?L f) \<union> set (?L g). newline \<notin> set x"
    using assms(1,2) signed_names_no_newline by (auto simp: line_free_def canonical_line_def)
  then have "sort (?L f) = sort (?L g)"
    by (intro Join_inject [of _ _ newline]) (use assms(3) in \<open>auto simp: canonical_def\<close>)
  then have "set (?L f) = set (?L g)" by (metis set_sort)
  with assms(4) obtain h' where "h' \<in> set SignedHeaders" "canonical_line f h = canonical_line g h'" by auto
  with signed_line_eq assms(4) show ?thesis by blast
qed

lemma canonical_cong: "(\<And>h. h \<in> set SignedHeaders \<Longrightarrow> f h = g h) \<Longrightarrow> canonical f = canonical g"
  unfolding canonical_def canonical_line_def by (simp cong: map_cong)

section \<open>Printed numbers carry no white space\<close>

definition plain_byte :: "char \<Rightarrow> bool" where
  "plain_byte c \<longleftrightarrow> (let n = of_char c :: nat in 33 \<le> n \<and> n \<le> 126)"

lemma trim_left_plain:
  assumes "\<forall>w \<in> set ws. w \<noteq> [] \<and> \<not> plain_byte (hd w)" and "s = [] \<or> plain_byte (hd s)"
  shows "trim_left n ws s = s"
proof -
  have "\<not> HasPrefix s w" if "w \<in> set ws" for w
    using assms that by (cases w; cases s) (auto simp: HasPrefix_def)
  then have "find (HasPrefix s) ws = None" by (simp add: find_None_iff)
  then show ?thesis by (cases n) simp_all
qed

lemma white_space_not_plain:
  "\<forall>w \<in> set white_space. w \<noteq> [] \<and> \<not> plain_byte (hd w)"
  "\<forall>w \<in> set (map rev white_space). w \<noteq> [] \<and> \<not> plain_byte (hd w)"
  by code_simp+

lemma TrimSpace_plain: "list_all plain_byte s \<Longrightarrow> TrimSpace s = s"
proof -
  assume s: "list_all plain_byte s"
  have "trim_left (length s) white_space s = s"
    by (rule trim_left_plain [OF white_space_not_plain(1)]) (use s in \<open>cases s; auto\<close>)
  moreover have "trim_left (length s) (map rev white_space) (rev s) = rev s"
    by (rule trim_left_plain [OF white_space_not_plain(2)]) (use s in \<open>cases s rule: rev_cases; auto\<close>)
  ultimately show ?thesis by (simp add: TrimSpace_def Let_def)
qed

lemma digits_plain: "list_all is_digit s \<Longrightarrow> list_all plain_byte s"
  by (auto simp: list_all_iff is_digit_def plain_byte_def Let_def)

lemma FormatInt_plain: "list_all plain_byte (FormatInt n)"
  using digits_plain [OF dec_nat_digits] by (simp add: FormatInt_def plain_byte_def)

lemma FormatInt_nonempty [simp]: "FormatInt n \<noteq> []"
  by (simp add: FormatInt_def)

section \<open>What verification accepts\<close>

definition window_delta :: "int \<Rightarrow> int \<Rightarrow> int" where
  "window_delta now ts =
     (let delta = wrap64 (now - ts) in if delta < 0 then wrap64 (- delta) else delta)"

lemma sig_Verify_None_iff:
  "sig_Verify get secret now = None \<longleftrightarrow>
     get HeaderSignature = Sign get secret \<and>
     (\<exists>ts. ParseInt (TrimSpace (get HeaderTimestamp)) = Some ts \<and>
           wrap64 (window_delta now ts * Second) \<le> MaxSkew)"
proof -
  have "Sign get secret \<noteq> ''''" by (simp add: Sign_def) (metis length_0_conv length_hmac_Sum zero_neq_numeral)
  moreover have "ParseInt (TrimSpace '''') = None" by code_simp
  ultimately show ?thesis
    by (auto simp: sig_Verify_def Let_def window_delta_def split: option.split)
qed

text \<open>Within 292 years the arithmetic is exact.\<close>

lemma window_exact:
  assumes "in_int64 (now - ts)" and "\<bar>now - ts\<bar> * Second < 2 ^ 63"
  shows "wrap64 (window_delta now ts * Second) \<le> MaxSkew \<longleftrightarrow> \<bar>now - ts\<bar> \<le> 30"
proof -
  have "window_delta now ts = \<bar>now - ts\<bar>"
    using assms by (auto simp: window_delta_def Let_def Second_def in_int64_def abs_if)
  moreover have "in_int64 (\<bar>now - ts\<bar> * Second)"
    using assms(2) by (auto simp: in_int64_def Second_def intro: order_trans [of _ 0])
  ultimately show ?thesis by (simp add: MaxSkew_def Second_def)
qed

lemma Sign_cong: "(\<And>h. h \<in> set SignedHeaders \<Longrightarrow> f h = g h) \<Longrightarrow> Sign f secret = Sign g secret"
  unfolding Sign_def using canonical_cong [of f g] by simp

lemma HeaderSignature_unsigned: "HeaderSignature \<notin> set SignedHeaders"
  by code_simp

lemma Sign_inject:
  assumes "Sign f secret = Sign g secret"
  shows "hmac_Sum secret (canonical f) = hmac_Sum secret (canonical g)"
  using assms RawURL_encode_inject [of "hmac_Sum secret (canonical f)" "hmac_Sum secret (canonical g)"]
  by (simp add: Sign_def)

end
