(* ===== verification/Enrollment.thy ===== *)
theory Enrollment
  imports WrapSig
begin

text \<open>
  The enrollment store (\<open>internal/enrollment/store.go\<close>): pending one-time codes and step-up
  sessions, both per user. A \<open>time.Time\<close> is its number of nanoseconds. What \<open>rand.Int\<close> returns
  is an argument (\<open>None\<close> when the random source fails), and so is every reading of the clock.
  The mutex makes each operation atomic, so a run is a sequence of operations.
\<close>

section \<open>The store\<close>

datatype enroll_error = ErrNoPending | ErrCodeMismatch | ErrCodeExpired | ErrTooManyTries

text \<open>The messages; the last one has an em dash, written as its three UTF-8 bytes.\<close>

fun enroll_message :: "enroll_error \<Rightarrow> string" where
  "enroll_message ErrNoPending = ''no enrollment in progress for this user''"
| "enroll_message ErrCodeMismatch = ''OTP code does not match''"
| "enroll_message ErrCodeExpired = ''OTP code expired''"
| "enroll_message ErrTooManyTries =
     ''too many incorrect attempts '' @ byte_str [226, 128, 148] @ '' request a new code''"

definition Minute :: int where "Minute = 60 * Second"
definition codeTTL :: int where "codeTTL = 5 * Minute"
definition maxAttempts :: nat where "maxAttempts = 5"
definition StepUpTTL :: int where "StepUpTTL = 30 * Minute"

record pending_entry =
  otp_code :: string
  otp_email :: string
  otp_expiresAt :: int
  otp_tries :: nat

record enroll_store =
  pending :: "string \<rightharpoonup> pending_entry"
  stepUp :: "string \<rightharpoonup> int"

definition NewStore :: enroll_store where
  "NewStore = \<lparr>pending = Map.empty, stepUp = Map.empty\<rparr>"

definition Start :: "nat option \<Rightarrow> int \<Rightarrow> string \<Rightarrow> string \<Rightarrow> enroll_store \<Rightarrow> enroll_store \<times> string option" where
  "Start rnd now sub email s =
     (case rnd of
        None \<Rightarrow> (s, None)
      | Some n \<Rightarrow>
          let code = Sprintf_06d n
          in (s\<lparr>pending := (pending s)(sub \<mapsto> \<lparr>otp_code = code, otp_email = email,
                 otp_expiresAt = now + codeTTL, otp_tries = 0\<rparr>)\<rparr>, Some code))"

text \<open>\<open>now\<close> is the first reading of the clock, \<open>later\<close> the second; \<open>None\<close> is the nil error.\<close>

definition otp_Verify ::
  "int \<Rightarrow> int \<Rightarrow> string \<Rightarrow> string \<Rightarrow> enroll_store \<Rightarrow> enroll_store \<times> enroll_error option" where
  "otp_Verify now later sub code s =
     (case pending s sub of
        None \<Rightarrow> (s, Some ErrNoPending)
      | Some p \<Rightarrow>
          if now > otp_expiresAt p then (s\<lparr>pending := (pending s)(sub := None)\<rparr>, Some ErrCodeExpired)
          else if otp_tries p \<ge> maxAttempts
          then (s\<lparr>pending := (pending s)(sub := None)\<rparr>, Some ErrTooManyTries)
          else if TrimSpace code \<noteq> otp_code p
          then (s\<lparr>pending := (pending s)(sub \<mapsto> p\<lparr>otp_tries := otp_tries p + 1\<rparr>)\<rparr>, Some ErrCodeMismatch)
          else (s\<lparr>pending := (pending s)(sub := None),
                  stepUp := (stepUp s)(sub \<mapsto> later + StepUpTTL)\<rparr>, None))"

definition IsStepUpVerified :: "int \<Rightarrow> string \<Rightarrow> enroll_store \<Rightarrow> enroll_store \<times> bool" where
  "IsStepUpVerified now sub s =
     (case stepUp s sub of
        None \<Rightarrow> (s, False)
      | Some exp \<Rightarrow> if now > exp then (s\<lparr>stepUp := (stepUp s)(sub := None)\<rparr>, False) else (s, True))"

definition PendingEmail :: "string \<Rightarrow> enroll_store \<Rightarrow> string \<times> bool" where
  "PendingEmail sub s = (case pending s sub of None \<Rightarrow> ('''', False) | Some p \<Rightarrow> (otp_email p, True))"

section \<open>The contract of a step-up checker\<close>

text \<open>
  \<open>RequireMFA\<close> sees the store only through \<open>StepUpChecker\<close>. Asking about one user changes no
  answer: not a second one about the same user at the same time, and none about another user.
\<close>

locale step_up_checker =
  fixes check :: "int \<Rightarrow> string \<Rightarrow> 's \<Rightarrow> 's \<times> bool"
  assumes ask_again: "snd (check now sub (fst (check now sub s))) = snd (check now sub s)"
    and ask_other: "sub' \<noteq> sub \<Longrightarrow> snd (check now sub' (fst (check t sub s))) = snd (check now sub' s)"
    and ask_later: "t \<le> now \<Longrightarrow> snd (check now sub' (fst (check t sub s))) = snd (check now sub' s)"
begin

text \<open>Any sequence of questions up to now leaves every answer from now on as it was.\<close>

lemma ask_all:
  "\<forall>(t, sub) \<in> set qs. t \<le> now \<Longrightarrow>
     snd (check now sub' (fold (\<lambda>(t, sub) s. fst (check t sub s)) qs s)) = snd (check now sub' s)"
  by (induction qs arbitrary: s) (auto simp: ask_later)

end

lemma IsStepUpVerified_iff:
  "snd (IsStepUpVerified now sub s) \<longleftrightarrow> (\<exists>exp. stepUp s sub = Some exp \<and> now \<le> exp)"
  by (auto simp: IsStepUpVerified_def split: option.split)

lemma IsStepUpVerified_stepUp:
  "stepUp (fst (IsStepUpVerified t sub s)) =
     (if (\<exists>exp. stepUp s sub = Some exp \<and> exp < t) then (stepUp s)(sub := None) else stepUp s)"
  by (auto simp: IsStepUpVerified_def split: option.split)

lemma IsStepUpVerified_pending [simp]: "pending (fst (IsStepUpVerified t sub s)) = pending s"
  by (auto simp: IsStepUpVerified_def split: option.split)

interpretation enroll_check: step_up_checker IsStepUpVerified
  by unfold_locales (auto simp: IsStepUpVerified_iff IsStepUpVerified_stepUp)

section \<open>Runs of the store\<close>

text \<open>A run is a list of operations with the time each reads from the clock.\<close>

datatype enroll_event =
    EStart "nat option" string string
  | EVerify string string int
  | ECheck string

fun enroll_step :: "int \<times> enroll_event \<Rightarrow> enroll_store \<Rightarrow> enroll_store" where
  "enroll_step (now, EStart rnd sub email) s = fst (Start rnd now sub email s)"
| "enroll_step (now, EVerify sub code later) s = fst (otp_Verify now later sub code s)"
| "enroll_step (now, ECheck sub) s = fst (IsStepUpVerified now sub s)"

definition enroll_run :: "(int \<times> enroll_event) list \<Rightarrow> enroll_store \<Rightarrow> enroll_store" where
  "enroll_run es s = fold enroll_step es s"

fun starts :: "string \<Rightarrow> int \<times> enroll_event \<Rightarrow> bool" where
  "starts sub (_, EStart _ sub' _) \<longleftrightarrow> sub' = sub"
| "starts sub _ \<longleftrightarrow> False"

text \<open>How many times a run compares a supplied code with the one stored for \<open>sub\<close>.\<close>

fun compares :: "string \<Rightarrow> int \<times> enroll_event \<Rightarrow> enroll_store \<Rightarrow> bool" where
  "compares sub (now, EVerify sub' code later) s \<longleftrightarrow>
     sub' = sub \<and> snd (otp_Verify now later sub code s) \<in> {None, Some ErrCodeMismatch}"
| "compares sub _ s \<longleftrightarrow> False"

fun comparisons :: "string \<Rightarrow> (int \<times> enroll_event) list \<Rightarrow> enroll_store \<Rightarrow> nat" where
  "comparisons sub [] s = 0"
| "comparisons sub (e # es) s =
     (if compares sub e s then 1 else 0) + comparisons sub es (enroll_step e s)"

definition guesses_left :: "string \<Rightarrow> enroll_store \<Rightarrow> nat" where
  "guesses_left sub s = (case pending s sub of None \<Rightarrow> 0 | Some p \<Rightarrow> maxAttempts - otp_tries p)"

lemma step_guesses:
  assumes "\<not> starts sub e"
  shows "(if compares sub e s then 1 else 0) + guesses_left sub (enroll_step e s) \<le> guesses_left sub s"
  using assms
proof (cases "(sub, e)" rule: starts.cases)
  case (1 sub now rnd sub' email)
  with assms show ?thesis by (auto simp: guesses_left_def Start_def Let_def split: option.split)
qed (auto simp: guesses_left_def otp_Verify_def split: option.splits)

lemma comparisons_total:
  "comparisons sub es s \<le> guesses_left sub s + maxAttempts * length (filter (starts sub) es)"
proof (induction es arbitrary: s)
  case (Cons e es)
  show ?case
  proof (cases "starts sub e")
    case True
    then have "\<not> compares sub e s" by (cases "(sub, e)" rule: starts.cases) auto
    moreover have "guesses_left sub (enroll_step e s) \<le> maxAttempts" by (simp add: guesses_left_def split: option.split)
    ultimately show ?thesis using Cons.IH [of "enroll_step e s"] True by simp
  next
    case False
    with step_guesses [OF False, of s] Cons.IH [of "enroll_step e s"] show ?thesis by simp
  qed
qed simp

section \<open>Where a step-up session comes from\<close>

definition started :: "(int \<times> enroll_event) list \<Rightarrow> string \<Rightarrow> pending_entry \<Rightarrow> bool" where
  "started es sub p \<longleftrightarrow> (\<exists>pre post t n email. es = pre @ (t, EStart (Some n) sub email) # post \<and>
     (\<forall>e \<in> set post. \<not> starts sub e \<or> (\<exists>t' e'. e = (t', EStart None sub e'))) \<and>
     otp_code p = Sprintf_06d n \<and> otp_expiresAt p = t + codeTTL)"

definition verified :: "(int \<times> enroll_event) list \<Rightarrow> string \<Rightarrow> int \<Rightarrow> bool" where
  "verified es sub exp \<longleftrightarrow> (\<exists>pre post t code later p. es = pre @ (t, EVerify sub code later) # post \<and>
     started pre sub p \<and> TrimSpace code = otp_code p \<and> t \<le> otp_expiresAt p \<and> exp = later + StepUpTTL)"

lemma started_snoc:
  assumes "started es sub p" and "\<not> starts sub e \<or> (\<exists>t' e'. e = (t', EStart None sub e'))"
    and "otp_code q = otp_code p" and "otp_expiresAt q = otp_expiresAt p"
  shows "started (es @ [e]) sub q"
proof -
  from assms(1) obtain pre post t n email where *: "es = pre @ (t, EStart (Some n) sub email) # post"
    "\<forall>e \<in> set post. \<not> starts sub e \<or> (\<exists>t' e'. e = (t', EStart None sub e'))"
    "otp_code p = Sprintf_06d n" "otp_expiresAt p = t + codeTTL"
    unfolding started_def by blast
  with assms(2-4) show ?thesis
    unfolding started_def
    by (intro exI [of _ pre] exI [of _ "post @ [e]"] exI [of _ t] exI [of _ n] exI [of _ email]) auto
qed

lemma verified_snoc: "verified es sub exp \<Longrightarrow> verified (es @ [e]) sub exp"
  unfolding verified_def by (metis append_Cons append_assoc)

lemma event_cases [case_names start verify check]:
  assumes "\<And>now rnd sub email. e = (now, EStart rnd sub email) \<Longrightarrow> P"
    and "\<And>now sub code later. e = (now, EVerify sub code later) \<Longrightarrow> P"
    and "\<And>now sub. e = (now, ECheck sub) \<Longrightarrow> P"
  shows P
  using assms by (cases e; cases "snd e") auto

lemma started_step:
  assumes "pending (enroll_step e s) sub = Some q" and "\<And>p. pending s sub = Some p \<Longrightarrow> started es sub p"
  shows "started (es @ [e]) sub q"
proof (cases e rule: event_cases)
  case (start now rnd sub' email)
  show ?thesis
  proof (cases "sub' = sub \<and> rnd \<noteq> None")
    case True
    with assms(1) start obtain n where "rnd = Some n" "otp_code q = Sprintf_06d n" "otp_expiresAt q = now + codeTTL"
      by (auto simp: Start_def Let_def)
    with True start show ?thesis
      unfolding started_def
      by (intro exI [of _ es] exI [of _ "[]"] exI [of _ now] exI [of _ n] exI [of _ email]) simp
  next
    case False
    with assms(1) start have "pending s sub = Some q"
      by (auto simp: Start_def Let_def split: option.splits if_splits)
    with False start show ?thesis by (intro started_snoc [OF assms(2)]) auto
  qed
next
  case (verify now sub' code later)
  with assms(1) obtain p where "pending s sub = Some p" "otp_code q = otp_code p" "otp_expiresAt q = otp_expiresAt p"
    by (auto simp: otp_Verify_def split: option.splits if_splits)
  with verify show ?thesis by (intro started_snoc [OF assms(2)]) auto
next
  case (check now sub')
  with assms show ?thesis by (intro started_snoc [OF assms(2)]) auto
qed

lemma verified_step:
  assumes "stepUp (enroll_step e s) sub = Some exp" and "\<And>p. pending s sub = Some p \<Longrightarrow> started es sub p"
    and "stepUp s sub = Some exp \<Longrightarrow> verified es sub exp"
  shows "verified (es @ [e]) sub exp"
proof (cases "stepUp s sub = Some exp")
  case True
  with assms(3) show ?thesis by (simp add: verified_snoc)
next
  case False
  with assms(1) obtain now code later where e: "e = (now, EVerify sub code later)"
    by (cases e rule: event_cases)
      (auto simp: Start_def Let_def otp_Verify_def IsStepUpVerified_stepUp split: option.splits if_splits)
  with assms(1) False obtain p where "pending s sub = Some p" "TrimSpace code = otp_code p"
    "now \<le> otp_expiresAt p" "exp = later + StepUpTTL"
    by (auto simp: otp_Verify_def split: option.splits if_splits)
  with e assms(2) show ?thesis
    unfolding verified_def
    by (intro exI [of _ es] exI [of _ "[]"] exI [of _ now] exI [of _ code] exI [of _ later] exI [of _ p]) auto
qed

lemma run_provenance:
  "(\<forall>sub p. pending (enroll_run es NewStore) sub = Some p \<longrightarrow> started es sub p) \<and>
   (\<forall>sub exp. stepUp (enroll_run es NewStore) sub = Some exp \<longrightarrow> verified es sub exp)"
proof (induction es rule: rev_induct)
  case Nil
  show ?case by (simp add: enroll_run_def NewStore_def)
next
  case (snoc e es)
  have "enroll_run (es @ [e]) NewStore = enroll_step e (enroll_run es NewStore)" by (simp add: enroll_run_def)
  with snoc.IH show ?case by (auto intro: started_step verified_step)
qed

end
