(* ===== verification/Float64.thy ===== *)
theory Float64
  imports Complex_Main GoLib
begin

text \<open>
  Go's \<open>float64\<close> as the bank handlers use it. A finite value is the rational number it denotes;
  \<open>fl\<close> rounds a rational to the nearest representable one (ties to even, subnormals included).
  \<open>shortest\<close> is the decimal that \<open>strconv.FormatFloat(x, _, -1, 64)\<close> prints: the fewest
  digits that read back as \<open>x\<close>. Values beyond the largest finite number do not occur: a JSON
  literal that large is a decoding error, and the sums stay below it.
\<close>

section \<open>Rounding\<close>

definition pow2 :: "int \<Rightarrow> rat" where
  "pow2 k = (if k \<ge> 0 then 2 ^ nat k else 1 / 2 ^ nat (- k))"

definition pow10 :: "int \<Rightarrow> rat" where
  "pow10 k = (if k \<ge> 0 then 10 ^ nat k else 1 / 10 ^ nat (- k))"

text \<open>The number of binary digits.\<close>

function bit_length :: "int \<Rightarrow> int" where
  "bit_length n = (if n \<le> 0 then 0 else bit_length (n div 2) + 1)"
  by auto
termination by (relation "measure nat") (auto simp: nat_less_iff)

declare bit_length.simps [simp del]

text \<open>The exponent of the leading binary digit of a number that is not zero.\<close>

definition binary_exponent :: "rat \<Rightarrow> int" where
  "binary_exponent x =
     (let (a, b) = quotient_of \<bar>x\<bar>;
          e = bit_length a - bit_length b
      in if pow2 e \<le> \<bar>x\<bar> then e else e - 1)"

definition round_half_even :: "rat \<Rightarrow> int" where
  "round_half_even x =
     (let f = \<lfloor>x\<rfloor>; d = x - of_int f
      in if d < 1 / 2 \<or> (d = 1 / 2 \<and> even f) then f else f + 1)"

definition quantum :: "rat \<Rightarrow> rat" where
  "quantum x = pow2 (max (binary_exponent x - 52) (-1074))"

definition fl :: "rat \<Rightarrow> rat" where
  "fl x = (if x = 0 then 0 else of_int (round_half_even (x / quantum x)) * quantum x)"

lemma pow2_pos [simp]: "0 < pow2 k"
  by (simp add: pow2_def)

lemma pow2_add: "pow2 (j + k) = pow2 j * pow2 k"
proof (cases "0 \<le> j"; cases "0 \<le> k")
  assume "0 \<le> j" "0 \<le> k"
  then show ?thesis by (simp add: pow2_def nat_add_distrib power_add)
next
  assume "0 \<le> j" "\<not> 0 \<le> k"
  then show ?thesis
    by (cases "0 \<le> j + k") (auto simp: pow2_def field_simps simp flip: power_add nat_add_distrib)
next
  assume "\<not> 0 \<le> j" "0 \<le> k"
  then show ?thesis
    by (cases "0 \<le> j + k") (auto simp: pow2_def field_simps simp flip: power_add nat_add_distrib)
next
  assume "\<not> 0 \<le> j" "\<not> 0 \<le> k"
  then show ?thesis by (auto simp: pow2_def field_simps simp flip: power_add nat_add_distrib)
qed

lemma pow2_mono: "j \<le> k \<Longrightarrow> pow2 j \<le> pow2 k"
proof -
  assume "j \<le> k"
  then have "pow2 k = pow2 j * 2 ^ nat (k - j)" using pow2_add [of j "k - j"] by (simp add: pow2_def)
  moreover have "pow2 j * 1 \<le> pow2 j * 2 ^ nat (k - j)"
    by (intro mult_left_mono) (simp_all add: less_imp_le)
  ultimately show ?thesis by simp
qed

lemma round_half_even_error: "\<bar>of_int (round_half_even x) - x\<bar> \<le> 1 / 2"
proof -
  have "of_int \<lfloor>x\<rfloor> \<le> x" "x < of_int \<lfloor>x\<rfloor> + 1" by linarith+
  then show ?thesis by (auto simp: round_half_even_def Let_def)
qed

lemma round_half_even_nonneg: "0 \<le> x \<Longrightarrow> 0 \<le> round_half_even x"
  by (simp add: round_half_even_def Let_def)

lemma fl_nonneg: "0 \<le> x \<Longrightarrow> 0 \<le> fl x"
  by (auto simp: fl_def quantum_def less_imp_le round_half_even_nonneg)

lemma bit_length_bounds:
  "0 < n \<Longrightarrow> 0 < bit_length n \<and> 2 ^ nat (bit_length n - 1) \<le> n \<and> n < 2 ^ nat (bit_length n)"
proof (induction n rule: bit_length.induct)
  case (1 n)
  show ?case
  proof (cases "n = 1")
    case True
    then show ?thesis by (simp add: bit_length.simps)
  next
    case False
    with "1.prems" have "0 < n div 2" by simp
    with "1.IH" "1.prems" have IH: "0 < bit_length (n div 2)" "2 ^ nat (bit_length (n div 2) - 1) \<le> n div 2"
      "n div 2 < 2 ^ nat (bit_length (n div 2))" by auto
    define k where "k = nat (bit_length (n div 2) - 1)"
    have k: "nat (bit_length (n div 2)) = Suc k" "bit_length n = int k + 2"
      using IH(1) "1.prems" by (auto simp: k_def bit_length.simps [of n])
    have "2 ^ k \<le> n div 2" "n div 2 < 2 ^ Suc k" using IH k by (simp_all add: k_def)
    then have "2 * 2 ^ k \<le> n" "n < 2 * 2 ^ Suc k" by linarith+
    moreover have "nat (bit_length n - 1) = Suc k" "nat (bit_length n) = Suc (Suc k)" using k(2) by simp_all
    ultimately show ?thesis using k(2) by simp
  qed
qed

lemma pow2_minus_one:
  assumes "0 < m" and "0 \<le> n"
  shows "pow2 (m - n - 1) = 2 ^ nat (m - 1) / 2 ^ nat n"
proof -
  have "pow2 (m - n - 1) = pow2 (m - 1) * pow2 (- n)" using pow2_add [of "m - 1" "- n"] by (simp add: algebra_simps)
  moreover have "pow2 (- n) = 1 / 2 ^ nat n" using assms(2) by (simp add: pow2_def)
  moreover have "pow2 (m - 1) = 2 ^ nat (m - 1)" using assms(1) by (simp add: pow2_def)
  ultimately show ?thesis by simp
qed

lemma binary_exponent_le: "x \<noteq> 0 \<Longrightarrow> pow2 (binary_exponent x) \<le> \<bar>x\<bar>"
proof -
  assume x: "x \<noteq> 0"
  obtain a b where ab: "quotient_of \<bar>x\<bar> = (a, b)" by fastforce
  have b: "0 < b" and eq: "\<bar>x\<bar> = of_int a / of_int b"
    using quotient_of_denom_pos [OF ab] quotient_of_div [OF ab] by simp_all
  have "0 < (of_int a :: rat) / of_int b" using x eq by (metis zero_less_abs_iff)
  with b have a: "0 < a" by (simp add: zero_less_divide_iff)
  let ?m = "bit_length a" and ?n = "bit_length b"
  have "(2 ^ nat (?m - 1) :: rat) = of_int (2 ^ nat (?m - 1))" "(2 ^ nat ?n :: rat) = of_int (2 ^ nat ?n)" by simp_all
  moreover have "(of_int (2 ^ nat (?m - 1)) :: rat) \<le> of_int a" "(of_int b :: rat) \<le> of_int (2 ^ nat ?n)"
    using bit_length_bounds [OF a] bit_length_bounds [OF b] by (simp_all only: of_int_le_iff less_imp_le)
  ultimately have "(2 ^ nat (?m - 1) :: rat) / 2 ^ nat ?n \<le> of_int a / of_int b"
    using a b by (intro frac_le) simp_all
  with pow2_minus_one [of ?m ?n] bit_length_bounds [OF a] bit_length_bounds [OF b] show ?thesis
    unfolding binary_exponent_def ab by (simp add: eq Let_def)
qed

definition tiny :: rat where "tiny = pow2 (-1075)"

lemma fl_error: "\<bar>fl x - x\<bar> \<le> \<bar>x\<bar> / 2 ^ 53 + tiny"
proof (cases "x = 0")
  case True
  then show ?thesis by (simp add: fl_def tiny_def less_imp_le)
next
  case False
  have q: "0 < quantum x" by (simp add: quantum_def)
  let ?r = "of_int (round_half_even (x / quantum x)) :: rat"
  have "fl x - x = (?r - x / quantum x) * quantum x"
    using False q by (simp add: fl_def field_simps)
  then have "\<bar>fl x - x\<bar> = \<bar>?r - x / quantum x\<bar> * quantum x" using q by (simp add: abs_mult)
  also have "\<dots> \<le> 1 / 2 * quantum x"
    by (intro mult_right_mono round_half_even_error) (use q in simp)
  also have "1 / 2 * quantum x \<le> \<bar>x\<bar> / 2 ^ 53 + tiny"
  proof (cases "binary_exponent x - 52 \<ge> -1074")
    case True
    have "pow2 (binary_exponent x - 52) = pow2 (binary_exponent x) / 2 ^ 52"
      using pow2_add [of "binary_exponent x" "-52"] by (simp add: pow2_def)
    with True binary_exponent_le [OF False] show ?thesis
      by (simp add: quantum_def tiny_def add_increasing2 less_imp_le)
  next
    case False
    have "pow2 (-1074) = 2 * tiny" using pow2_add [of 1 "-1075"] by (simp add: tiny_def pow2_def)
    with False show ?thesis by (simp add: quantum_def)
  qed
  finally show ?thesis .
qed

lemma tiny_bounds: "0 < tiny" "tiny < 1 / 2 ^ 60"
proof -
  show "0 < tiny" by (simp add: tiny_def)
  have "pow2 (-61) = 1 / 2 ^ 61" by (simp add: pow2_def)
  moreover have "tiny \<le> pow2 (-61)" unfolding tiny_def by (rule pow2_mono) simp
  ultimately show "tiny < 1 / 2 ^ 60" by simp
qed

section \<open>Decimal text\<close>

text \<open>
  The candidates are the nearest multiples of smaller and smaller powers of ten; the first one
  that reads back is the shortest. Seventeen digits always suffice, so the search finds one.
\<close>

fun shortest_from :: "nat \<Rightarrow> rat \<Rightarrow> int \<Rightarrow> (int \<times> int) option" where
  "shortest_from 0 x u = None"
| "shortest_from (Suc n) x u =
     (let m = round_half_even (x / pow10 u)
      in if fl (of_int m * pow10 u) = x then Some (m, u) else shortest_from n x (u - 1))"

definition shortest :: "rat \<Rightarrow> (int \<times> int) option" where
  "shortest x =
     (if x = 0 then Some (0, 0)
      else shortest_from 22 x (binary_exponent x * 30103 div 100000 + 2))"

definition decimal_of :: "rat \<Rightarrow> rat" where
  "decimal_of x = (case shortest x of Some (m, u) \<Rightarrow> of_int m * pow10 u | None \<Rightarrow> x)"

lemma pow10_pos [simp]: "0 < pow10 k"
  by (simp add: pow10_def)

lemma shortest_from_Some:
  "shortest_from n x v = Some (m, u) \<Longrightarrow> m = round_half_even (x / pow10 u) \<and> fl (of_int m * pow10 u) = x"
  by (induction n arbitrary: v) (auto simp: Let_def split: if_splits)

lemma shortest_nonneg: "0 \<le> x \<Longrightarrow> shortest x = Some (m, u) \<Longrightarrow> 0 \<le> m"
proof -
  assume x: "0 \<le> x" and "shortest x = Some (m, u)"
  then have "m = 0 \<or> m = round_half_even (x / pow10 u)"
    by (auto simp: shortest_def split: if_splits dest: shortest_from_Some)
  with round_half_even_nonneg [of "x / pow10 u"] x show ?thesis by (auto simp: less_imp_le)
qed

lemma shortest_reads_back: "shortest x = Some (m, u) \<Longrightarrow> fl (of_int m * pow10 u) = x"
  by (auto simp: shortest_def fl_def [of 0] split: if_splits dest: shortest_from_Some)

lemma decimal_of_error: "\<bar>x - decimal_of x\<bar> \<le> \<bar>decimal_of x\<bar> / 2 ^ 53 + tiny"
proof (cases "shortest x")
  case None
  then show ?thesis using tiny_bounds(1) by (simp add: decimal_of_def)
next
  case (Some p)
  obtain m u where p: "p = (m, u)" by fastforce
  show ?thesis
    using fl_error [of "of_int m * pow10 u"] shortest_reads_back Some p by (simp add: decimal_of_def)
qed

lemma decimal_of_nonneg: "0 \<le> x \<Longrightarrow> 0 \<le> decimal_of x"
  using shortest_nonneg [of x] by (auto simp: decimal_of_def less_imp_le split: option.split)

text \<open>Appending zeros or inserting the decimal point; exponents outside \<open>[1e-6, 1e21)\<close> as \<open>e\<close>.\<close>

definition format_f :: "int \<Rightarrow> int \<Rightarrow> string" where
  "format_f m u =
     (let ds = dec_nat (nat \<bar>m\<bar>)
      in (if m < 0 then ''-'' else '''') @
         (if u \<ge> 0 then (if m = 0 then ds else ds @ replicate (nat u) CHR ''0'')
          else let n = nat (- u);
                   padded = replicate (Suc n - length ds) CHR ''0'' @ ds
               in take (length padded - n) padded @ ''.'' @ drop (length padded - n) padded))"

definition format_e :: "int \<Rightarrow> int \<Rightarrow> string" where
  "format_e m u =
     (let ds = dec_nat (nat \<bar>m\<bar>); e = u + int (length ds) - 1
      in (if m < 0 then ''-'' else '''') @ take 1 ds @
         (if length ds = 1 then '''' else ''.'' @ drop 1 ds) @ ''e'' @
         (if e < 0 then ''-'' else ''+'') @
         (if e \<ge> 0 \<and> e < 10 then ''0'' else '''') @ dec_nat (nat \<bar>e\<bar>))"

text \<open>The text \<open>encoding/json\<close> writes for a \<open>float64\<close>.\<close>

definition json_float_text :: "rat \<Rightarrow> string" where
  "json_float_text x =
     (case shortest x of
        None \<Rightarrow> ''''
      | Some (m, u) \<Rightarrow>
          if \<bar>x\<bar> \<noteq> 0 \<and> (\<bar>x\<bar> < fl (1 / 1000000) \<or> \<bar>x\<bar> \<ge> 10 ^ 21) then format_e m u else format_f m u)"

end
