(* ===== verification/Money.thy ===== *)
theory Money
  imports Float64
begin

text \<open>
  The column type \<open>NUMERIC(15, 2)\<close> of \<open>bank_accounts.balance\<close> and \<open>transactions.amount\<close>, and
  the way a \<open>float64\<close> gets into and out of it. A stored value is a whole number of cents below
  \<open>10 ^ 15\<close> in size. The driver sends the shortest decimal of the number, the column rounds it
  half away from zero, and reading parses the decimal text. The main lemmas: for amounts of
  whole cents the floating-point arithmetic of the service is exact over the column's range.
\<close>

section \<open>The column\<close>

definition to_cents :: "rat \<Rightarrow> int" where
  "to_cents d = (if d < 0 then - \<lfloor>- d * 100 + 1 / 2\<rfloor> else \<lfloor>d * 100 + 1 / 2\<rfloor>)"

text \<open>\<open>None\<close> is the error \<open>numeric field overflow\<close>.\<close>

definition store_numeric :: "rat \<Rightarrow> int option" where
  "store_numeric x =
     (let c = to_cents (decimal_of x) in if \<bar>c\<bar> < 10 ^ 15 then Some c else None)"

definition load_numeric :: "int \<Rightarrow> rat" where
  "load_numeric c = fl (of_int c / 100)"

section \<open>Whole cents are exact\<close>

lemma decimal_near:
  assumes "\<bar>s\<bar> \<le> 10 ^ 13 + 1"
  shows "\<bar>decimal_of s - s\<bar> \<le> 112 / 100000"
proof -
  have e: "\<bar>s - decimal_of s\<bar> \<le> \<bar>decimal_of s\<bar> / 2 ^ 53 + tiny" by (rule decimal_of_error)
  moreover have "\<bar>decimal_of s\<bar> \<le> \<bar>s\<bar> + \<bar>s - decimal_of s\<bar>" by simp
  ultimately show ?thesis using assms tiny_bounds by (simp add: abs_minus_commute)
qed

lemma to_cents_near: "\<bar>d - of_int c / 100\<bar> < 5 / 1000 \<Longrightarrow> to_cents d = c"
proof -
  assume near: "\<bar>d - of_int c / 100\<bar> < 5 / 1000"
  have "d < of_int c / 100 + 5 / 1000" "of_int c / 100 - 5 / 1000 < d" using near by linarith+
  then have up: "d * 100 < of_int c + 1 / 2" and low: "of_int c - 1 / 2 < d * 100" by simp_all
  have "\<lfloor>- d * 100 + 1 / 2\<rfloor> = - c" using up low by (intro floor_unique) simp_all
  moreover have "\<lfloor>d * 100 + 1 / 2\<rfloor> = c" using up low by (intro floor_unique) simp_all
  ultimately show ?thesis by (simp add: to_cents_def)
qed

lemma load_near:
  assumes "0 \<le> c" and "c < 10 ^ 15"
  shows "\<bar>load_numeric c - of_int c / 100\<bar> \<le> (of_int c / 100) / 2 ^ 53 + tiny"
  using fl_error [of "of_int c / 100"] assms by (simp add: load_numeric_def)

lemma load_near_abs:
  assumes "0 \<le> c" and "c < 10 ^ 15"
  shows "\<bar>load_numeric c - of_int c / 100\<bar> \<le> 1111 / 1000000"
proof -
  have "(of_int c :: rat) \<le> 10 ^ 15" using assms by (metis less_imp_le of_int_le_iff of_int_numeral of_int_power)
  with load_near [OF assms] tiny_bounds show ?thesis by simp
qed

lemma cents_le: "c < 10 ^ 15 \<Longrightarrow> (of_int c :: rat) < 1000000000000000"
  using of_int_less_iff [of c "1000000000000000", where 'a = rat] by simp

lemma cents_nonneg: "0 \<le> c \<Longrightarrow> (0 :: rat) \<le> of_int c"
  by simp

lemma big_rat: "(10 :: rat) ^ 13 + 1 = 10000000000001"
  by simp

lemma load_bounds:
  assumes "0 \<le> c" and "c < 10 ^ 15"
  shows "load_numeric c \<le> of_int c / 100 + 1111 / 1000000" "of_int c / 100 - 1111 / 1000000 \<le> load_numeric c"
  using load_near_abs [OF assms] unfolding abs_le_iff by linarith+

lemma fl_bounds:
  assumes "x \<le> 10000000000001" and "- x \<le> 10000000000001"
  shows "fl x \<le> x + 1111 / 1000000" "x - 1111 / 1000000 \<le> fl x"
proof -
  have "\<bar>fl x - x\<bar> \<le> 1111 / 1000000"
  proof -
    have "\<bar>x\<bar> \<le> 10000000000001" using assms by (simp add: abs_le_iff)
    with fl_error [of x] tiny_bounds show ?thesis by simp
  qed
  then show "fl x \<le> x + 1111 / 1000000" "x - 1111 / 1000000 \<le> fl x"
    unfolding abs_le_iff by linarith+
qed

lemma store_near:
  assumes "s \<le> of_int c / 100 + 338 / 100000" and "of_int c / 100 - 338 / 100000 \<le> s"
    and "0 \<le> c" and "c < 10 ^ 15"
  shows "store_numeric s = Some c"
proof -
  have "\<bar>s\<bar> \<le> 10 ^ 13 + 1"
    unfolding big_rat abs_le_iff using assms(1,2) cents_le [OF assms(4)] cents_nonneg [OF assms(3)] by linarith
  from decimal_near [OF this] have "\<bar>decimal_of s - of_int c / 100\<bar> < 5 / 1000"
    unfolding abs_le_iff abs_less_iff using assms(1,2) by linarith
  then have "to_cents (decimal_of s) = c" by (rule to_cents_near)
  with assms(3,4) show ?thesis by (simp add: store_numeric_def)
qed

text \<open>A stored value survives being read and written back.\<close>

lemma store_load: "0 \<le> c \<Longrightarrow> c < 10 ^ 15 \<Longrightarrow> store_numeric (load_numeric c) = Some c"
  using load_bounds [of c] by (intro store_near) linarith+

lemma store_add:
  assumes "0 \<le> b" and "0 \<le> a" and "b + a < 10 ^ 15"
  shows "store_numeric (fl (load_numeric b + load_numeric a)) = Some (b + a)"
proof -
  have sum: "(of_int (b + a) :: rat) = of_int b + of_int a" "(of_int b :: rat) + of_int a < 1000000000000000"
    using cents_le [OF assms(3)] by simp_all
  have "b < 10 ^ 15" "a < 10 ^ 15" using assms by linarith+
  note ld = load_bounds [OF assms(1) this(1)] load_bounds [OF assms(2) this(2)]
    cents_nonneg [OF assms(1)] cents_nonneg [OF assms(2)]
  have "load_numeric b + load_numeric a \<le> 10000000000001" "- (load_numeric b + load_numeric a) \<le> 10000000000001"
    using ld sum(2) by linarith+
  note f = fl_bounds [OF this]
  show ?thesis
  proof (rule store_near)
    show "fl (load_numeric b + load_numeric a) \<le> of_int (b + a) / 100 + 338 / 100000"
      "of_int (b + a) / 100 - 338 / 100000 \<le> fl (load_numeric b + load_numeric a)"
      unfolding sum(1) add_divide_distrib using f ld by linarith+
  qed (use assms in simp_all)
qed

lemma store_sub:
  assumes "0 \<le> a" and "a \<le> b" and "b < 10 ^ 15"
  shows "store_numeric (fl (load_numeric b - load_numeric a)) = Some (b - a)"
proof -
  have diff: "(of_int (b - a) :: rat) = of_int b - of_int a" "(of_int a :: rat) \<le> of_int b"
    using assms by simp_all
  have "0 \<le> b" "a < 10 ^ 15" using assms by linarith+
  note ld = load_bounds [OF this(1) assms(3)] load_bounds [OF assms(1) this(2)]
    cents_nonneg [OF assms(1)] cents_le [OF assms(3)]
  have "load_numeric b - load_numeric a \<le> 10000000000001" "- (load_numeric b - load_numeric a) \<le> 10000000000001"
    using ld diff(2) by linarith+
  note f = fl_bounds [OF this]
  show ?thesis
  proof (rule store_near)
    show "fl (load_numeric b - load_numeric a) \<le> of_int (b - a) / 100 + 338 / 100000"
      "of_int (b - a) / 100 - 338 / 100000 \<le> fl (load_numeric b - load_numeric a)"
      unfolding diff(1) diff_divide_distrib using f ld by linarith+
  qed (use assms in simp_all)
qed

text \<open>Comparing what was read compares the cents.\<close>

lemma load_less:
  assumes "0 \<le> a" and "a < 10 ^ 15" and "0 \<le> b" and "b < 10 ^ 15"
  shows "load_numeric b < load_numeric a \<longleftrightarrow> b < a"
proof -
  have strict: "load_numeric x < load_numeric y" if "x < y" "0 \<le> x" "y < 10 ^ 15" for x y
  proof -
    have "x + 1 \<le> y" using that by simp
    then have "(of_int x :: rat) + 1 \<le> of_int y" by (metis of_int_1 of_int_add of_int_le_iff)
    moreover have "load_numeric x \<le> of_int x / 100 + 1111 / 1000000" by (rule load_bounds) (use that in linarith)+
    moreover have "of_int y / 100 - 1111 / 1000000 \<le> load_numeric y" by (rule load_bounds) (use that in linarith)+
    ultimately show ?thesis by linarith
  qed
  show ?thesis using strict [of b a] strict [of a b] assms by (cases rule: linorder_cases [of a b]) auto
qed

lemma load_pos: "0 < c \<Longrightarrow> c < 10 ^ 15 \<Longrightarrow> 0 < load_numeric c"
proof -
  have "load_numeric 0 = 0" by (simp add: load_numeric_def fl_def)
  moreover assume "0 < c" "c < 10 ^ 15"
  ultimately show ?thesis using load_less [of c 0] by simp
qed

lemma store_nonneg: "0 \<le> x \<Longrightarrow> store_numeric x = Some c \<Longrightarrow> 0 \<le> c \<and> c < 10 ^ 15"
  using decimal_of_nonneg [of x] by (auto simp: store_numeric_def to_cents_def Let_def split: if_splits)

end
