(* ===== verification/GoTime.thy ===== *)
theory GoTime
  imports GoLib
begin

text \<open>
  The layouts \<open>time.RFC3339\<close> and \<open>time.RFC3339Nano\<close> of a UTC time, which the handlers print.
  A time is its number of nanoseconds since 1970-01-01T00:00:00Z.
\<close>

definition nanos_per_second :: int where "nanos_per_second = 1000000000"

text \<open>Year, month and day of a day number, counted from 1970-01-01, in eras of 400 years.\<close>

definition civil_from_days :: "int \<Rightarrow> int \<times> int \<times> int" where
  "civil_from_days d =
     (let z = d + 719468;
          era = z div 146097;
          doe = z mod 146097;
          yoe = (doe - doe div 1460 + doe div 36524 - doe div 146096) div 365;
          doy = doe - (365 * yoe + yoe div 4 - yoe div 100);
          mp = (5 * doy + 2) div 153;
          day = doy - (153 * mp + 2) div 5 + 1;
          month = (if mp < 10 then mp + 3 else mp - 9);
          year = yoe + era * 400 + (if month \<le> 2 then 1 else 0)
      in (year, month, day))"

definition pad_int :: "nat \<Rightarrow> int \<Rightarrow> string" where
  "pad_int w n = (let ds = dec_nat (nat n) in replicate (w - length ds) CHR ''0'' @ ds)"

definition seconds_text :: "int \<Rightarrow> string" where
  "seconds_text t =
     (let s = t div nanos_per_second;
          (y, m, d) = civil_from_days (s div 86400);
          r = s mod 86400
      in pad_int 4 y @ ''-'' @ pad_int 2 m @ ''-'' @ pad_int 2 d @ ''T'' @
         pad_int 2 (r div 3600) @ '':'' @ pad_int 2 (r div 60 mod 60) @ '':'' @ pad_int 2 (r mod 60))"

definition RFC3339 :: "int \<Rightarrow> string" where
  "RFC3339 t = seconds_text t @ ''Z''"

definition RFC3339Nano :: "int \<Rightarrow> string" where
  "RFC3339Nano t =
     (let f = rev (dropWhile (\<lambda>c. c = CHR ''0'') (rev (pad_int 9 (t mod nanos_per_second))))
      in seconds_text t @ (if f = [] then '''' else ''.'' @ f) @ ''Z'')"

lemma second_text_sample: "RFC3339 1709210096000000000 = ''2024-02-29T12:34:56Z''"
  by code_simp

lemma nano_text_sample: "RFC3339Nano (-1500000) = ''1969-12-31T23:59:59.9985Z''"
  by code_simp

end
