(* ===== verification/JsonText.thy ===== *)
theory JsonText
  imports Http
begin

text \<open>
  JSON as bytes: what \<open>json.NewEncoder(w).Encode\<close> writes for a value and what a decoder reads
  from a text. Strings are byte strings; invalid UTF-8 is replaced as \<open>encoding/json\<close> replaces it,
  the encoder escapes what is special in HTML, and the decoder limits the nesting to 10000. What
  the encoder writes for a value of valid UTF-8 strings and number literals, the decoder reads
  back as that value. The parser's fuel is twice the length of the text, which is proved to be
  as good as any more.
\<close>

section \<open>UTF-8\<close>

definition byte :: "char \<Rightarrow> nat" where
  "byte c = of_char c"

definition byte_in :: "nat \<Rightarrow> nat \<Rightarrow> char \<Rightarrow> bool" where
  "byte_in a b c \<longleftrightarrow> a \<le> byte c \<and> byte c \<le> b"

text \<open>
  How many bytes follow a first byte, and the narrower range the second byte has after some of
  them. The length of the valid sequence a text begins with is 0 when there is none.
\<close>

definition tail_len :: "char \<Rightarrow> nat option" where
  "tail_len c =
     (if byte c < 0x80 then Some 0 else if byte_in 0xC2 0xDF c then Some 1
      else if byte_in 0xE0 0xEF c then Some 2 else if byte_in 0xF0 0xF4 c then Some 3 else None)"

definition second_byte :: "char \<Rightarrow> char \<Rightarrow> bool" where
  "second_byte c c1 \<longleftrightarrow> byte_in (if byte c = 0xE0 then 0xA0 else if byte c = 0xF0 then 0x90 else 0x80)
     (if byte c = 0xED then 0x9F else if byte c = 0xF4 then 0x8F else 0xBF) c1"

fun rune_len :: "string \<Rightarrow> nat" where
  "rune_len [] = 0"
| "rune_len (c # s) =
     (case tail_len c of
        None \<Rightarrow> 0
      | Some n \<Rightarrow> if n \<le> length s \<and> (0 < n \<longrightarrow> second_byte c (hd s)) \<and> list_all (byte_in 0x80 0xBF) (take n s)
                 then Suc n else 0)"

definition encode_rune :: "nat \<Rightarrow> string" where
  "encode_rune n =
     (if n < 0x80 then [char_of n]
      else if n < 0x800 then map char_of [0xC0 + n div 64, 0x80 + n mod 64]
      else if 0xD800 \<le> n \<and> n < 0xE000 \<or> n > 0x10FFFF then map char_of [0xEF, 0xBF, 0xBD :: nat]
      else if n < 0x10000 then map char_of [0xE0 + n div 4096, 0x80 + n div 64 mod 64, 0x80 + n mod 64]
      else map char_of [0xF0 + n div 262144, 0x80 + n div 4096 mod 64, 0x80 + n div 64 mod 64, 0x80 + n mod 64])"

definition replacement :: string where
  "replacement = encode_rune 0xFFFD"

section \<open>Encoding\<close>

definition backslash :: char where "backslash = CHR 0x5C"
definition quote_mark :: char where "quote_mark = CHR 0x22"

definition hex_lower :: "nat \<Rightarrow> char" where
  "hex_lower n = ''0123456789abcdef'' ! n"

definition short_escape :: "char \<Rightarrow> char option" where
  "short_escape c =
     (if c = quote_mark \<or> c = backslash then Some c
      else if c = CHR 0x08 then Some CHR ''b'' else if c = CHR 0x0C then Some CHR ''f''
      else if c = CHR 0x0A then Some CHR ''n'' else if c = CHR 0x0D then Some CHR ''r''
      else if c = CHR 0x09 then Some CHR ''t'' else None)"

definition quote_ascii :: "char \<Rightarrow> string" where
  "quote_ascii c =
     (case short_escape c of
        Some e \<Rightarrow> [backslash, e]
      | None \<Rightarrow>
          if byte c < 0x20 \<or> c \<in> {CHR ''<'', CHR ''>'', CHR ''&''}
          then backslash # ''u00'' @ [hex_lower (byte c div 16), hex_lower (byte c mod 16)] else [c])"

text \<open>The line separators U+2028 and U+2029 are escaped too.\<close>

definition quote_rune :: "string \<Rightarrow> string" where
  "quote_rune r =
     (if r = encode_rune 0x2028 then backslash # ''u2028''
      else if r = encode_rune 0x2029 then backslash # ''u2029'' else r)"

fun quote_body :: "string \<Rightarrow> string" where
  "quote_body [] = []"
| "quote_body (c # s) =
     (if byte c < 0x80 then quote_ascii c @ quote_body s
      else case rune_len (c # s) of
             0 \<Rightarrow> (backslash # ''ufffd'') @ quote_body s
           | Suc n \<Rightarrow> quote_rune (c # take n s) @ quote_body (drop n s))"

definition quote_string :: "string \<Rightarrow> string" where
  "quote_string s = quote_mark # quote_body s @ [quote_mark]"

primrec encode_json :: "json \<Rightarrow> string" where
  "encode_json JNull = ''null''"
| "encode_json (JBool b) = (if b then ''true'' else ''false'')"
| "encode_json (JNum lit) = lit"
| "encode_json (JStr s) = quote_string s"
| "encode_json (JArr xs) = ''['' @ Join (map encode_json xs) '','' @ '']''"
| "encode_json (JObj ms) =
     ''{'' @ Join (map (\<lambda>(k, t). quote_string k @ '':'' @ t) (map (map_prod id encode_json) ms)) '','' @ ''}''"

text \<open>\<open>Encoder.Encode\<close> ends the value with a newline.\<close>

definition Encode :: "json \<Rightarrow> string" where
  "Encode v = encode_json v @ [CHR 0x0A]"

section \<open>Numbers\<close>

definition int_part :: "string \<Rightarrow> (string \<times> string) option" where
  "int_part s =
     (case s of
        [] \<Rightarrow> None
      | c # t \<Rightarrow> if c = CHR ''0'' then Some (''0'', t)
                 else if is_digit c then Some (takeWhile is_digit s, dropWhile is_digit s) else None)"

definition frac_part :: "string \<Rightarrow> (string \<times> string) option" where
  "frac_part s =
     (case s of
        [] \<Rightarrow> Some ([], s)
      | c # t \<Rightarrow> if c \<noteq> CHR ''.'' then Some ([], s)
                 else if takeWhile is_digit t = [] then None
                 else Some (c # takeWhile is_digit t, dropWhile is_digit t))"

definition sign_part :: "string \<Rightarrow> string \<times> string" where
  "sign_part s = (case s of [] \<Rightarrow> ([], s) | c # t \<Rightarrow> if c = CHR ''+'' \<or> c = CHR ''-'' then ([c], t) else ([], s))"

definition exp_part :: "string \<Rightarrow> (string \<times> string) option" where
  "exp_part s =
     (case s of
        [] \<Rightarrow> Some ([], s)
      | c # t \<Rightarrow>
          if c \<noteq> CHR ''e'' \<and> c \<noteq> CHR ''E'' then Some ([], s)
          else (case sign_part t of (sg, u) \<Rightarrow>
            if takeWhile is_digit u = [] then None
            else Some (c # sg @ takeWhile is_digit u, dropWhile is_digit u)))"

definition number_text :: "string \<Rightarrow> (string \<times> string) option" where
  "number_text s =
     (let (sg, s) = (if take 1 s = ''-'' then (''-'', drop 1 s) else ([], s)) in
      case int_part s of
        None \<Rightarrow> None
      | Some (i, s) \<Rightarrow>
          (case frac_part s of
             None \<Rightarrow> None
           | Some (f, s) \<Rightarrow>
               (case exp_part s of None \<Rightarrow> None | Some (e, s) \<Rightarrow> Some (sg @ i @ f @ e, s))))"

section \<open>Strings\<close>

definition hex_val :: "char \<Rightarrow> nat option" where
  "hex_val c =
     (if byte_in 48 57 c then Some (byte c - 48) else if byte_in 97 102 c then Some (byte c - 87)
      else if byte_in 65 70 c then Some (byte c - 55) else None)"

fun hex4 :: "string \<Rightarrow> (nat \<times> string) option" where
  "hex4 (a # b # c # d # r) =
     (case (hex_val a, hex_val b, hex_val c, hex_val d) of
        (Some a, Some b, Some c, Some d) \<Rightarrow> Some (((a * 16 + b) * 16 + c) * 16 + d, r)
      | _ \<Rightarrow> None)"
| "hex4 _ = None"

text \<open>The escape that completes the surrogate \<open>x\<close>.\<close>

definition low_surrogate :: "nat \<Rightarrow> string \<Rightarrow> (nat \<times> string) option" where
  "low_surrogate x s =
     (if 0xDC00 \<le> x \<or> take 2 s \<noteq> [backslash, CHR ''u''] then None
      else case hex4 (drop 2 s) of
             None \<Rightarrow> None
           | Some (y, r) \<Rightarrow> if 0xDC00 \<le> y \<and> y < 0xE000
                             then Some (0x10000 + (x - 0xD800) * 0x400 + (y - 0xDC00), r) else None)"

definition escaped :: "char \<Rightarrow> char option" where
  "escaped c =
     (if c = quote_mark \<or> c = backslash \<or> c = CHR ''/'' then Some c
      else if c = CHR ''b'' then Some CHR 0x08 else if c = CHR ''f'' then Some CHR 0x0C
      else if c = CHR ''n'' then Some CHR 0x0A else if c = CHR ''r'' then Some CHR 0x0D
      else if c = CHR ''t'' then Some CHR 0x09 else None)"

definition prepend :: "string \<Rightarrow> (string \<times> 'a) option \<Rightarrow> (string \<times> 'a) option" where
  "prepend p = map_option (apfst (\<lambda>s. p @ s))"

lemma hex4_shorter: "hex4 s = Some (x, r) \<Longrightarrow> length r < length s"
  by (induction s rule: hex4.induct) (auto split: option.splits)

lemma low_surrogate_shorter: "low_surrogate x s = Some (y, r) \<Longrightarrow> length r < length s"
  by (auto simp: low_surrogate_def split: if_splits option.splits dest: hex4_shorter)

text \<open>The body of a string up to the closing quotation mark, and what follows.\<close>

function unquote :: "string \<Rightarrow> (string \<times> string) option" where
  "unquote [] = None"
| "unquote (c # s) =
     (if c = quote_mark then Some ([], s)
      else if c = backslash then
        (case s of
           [] \<Rightarrow> None
         | e # r \<Rightarrow>
             if e = CHR ''u'' then
               (case hex4 r of
                  None \<Rightarrow> None
                | Some (x, r1) \<Rightarrow>
                    if 0xD800 \<le> x \<and> x < 0xE000 then
                      (case low_surrogate x r1 of
                         Some (y, r2) \<Rightarrow> prepend (encode_rune y) (unquote r2)
                       | None \<Rightarrow> prepend replacement (unquote r1))
                    else prepend (encode_rune x) (unquote r1))
             else (case escaped e of None \<Rightarrow> None | Some d \<Rightarrow> prepend [d] (unquote r)))
      else if byte c < 0x20 then None
      else case rune_len (c # s) of
             0 \<Rightarrow> prepend replacement (unquote s)
           | Suc n \<Rightarrow> prepend (c # take n s) (unquote (drop n s)))"
  by pat_completeness auto
termination
  by (relation "measure length") (auto dest!: hex4_shorter low_surrogate_shorter)

section \<open>Values\<close>

definition json_space :: "char \<Rightarrow> bool" where
  "json_space c \<longleftrightarrow> c \<in> {CHR '' '', CHR 0x09, CHR 0x0A, CHR 0x0D}"

definition skip_space :: "string \<Rightarrow> string" where
  "skip_space s = dropWhile json_space s"

definition literal :: "string \<Rightarrow> json \<Rightarrow> string \<Rightarrow> (json \<times> string) option" where
  "literal word v s = (if HasPrefix s word then Some (v, drop (length word) s) else None)"

text \<open>The second argument is how deep arrays and objects may still be nested.\<close>

fun parse_value :: "nat \<Rightarrow> nat \<Rightarrow> string \<Rightarrow> (json \<times> string) option"
  and parse_items :: "nat \<Rightarrow> nat \<Rightarrow> string \<Rightarrow> (json list \<times> string) option"
  and parse_fields :: "nat \<Rightarrow> nat \<Rightarrow> string \<Rightarrow> ((string \<times> json) list \<times> string) option"
where
  "parse_value 0 d s = None"
| "parse_value (Suc n) d s =
     (case skip_space s of
        [] \<Rightarrow> None
      | c # r \<Rightarrow>
          if c = CHR ''{'' then
            (if d = 0 then None
             else if take 1 (skip_space r) = ''}'' then Some (JObj [], drop 1 (skip_space r))
             else map_option (apfst JObj) (parse_fields n (d - 1) r))
          else if c = CHR ''['' then
            (if d = 0 then None
             else if take 1 (skip_space r) = '']'' then Some (JArr [], drop 1 (skip_space r))
             else map_option (apfst JArr) (parse_items n (d - 1) r))
          else if c = quote_mark then map_option (apfst JStr) (unquote r)
          else if c = CHR ''t'' then literal ''true'' (JBool True) (c # r)
          else if c = CHR ''f'' then literal ''false'' (JBool False) (c # r)
          else if c = CHR ''n'' then literal ''null'' JNull (c # r)
          else map_option (apfst JNum) (number_text (c # r)))"
| "parse_items 0 d s = None"
| "parse_items (Suc n) d s =
     (case parse_value n d s of
        None \<Rightarrow> None
      | Some (v, r) \<Rightarrow>
          (case skip_space r of
             [] \<Rightarrow> None
           | c # r \<Rightarrow>
               if c = CHR '','' then map_option (apfst (\<lambda>vs. v # vs)) (parse_items n d r)
               else if c = CHR '']'' then Some ([v], r) else None))"
| "parse_fields 0 d s = None"
| "parse_fields (Suc n) d s =
     (case skip_space s of
        [] \<Rightarrow> None
      | q # r \<Rightarrow>
          if q \<noteq> quote_mark then None
          else case unquote r of
                 None \<Rightarrow> None
               | Some (k, r) \<Rightarrow>
                   (case skip_space r of
                      [] \<Rightarrow> None
                    | c # r \<Rightarrow>
                        if c \<noteq> CHR '':'' then None
                        else case parse_value n d r of
                               None \<Rightarrow> None
                             | Some (v, r) \<Rightarrow>
                                 (case skip_space r of
                                    [] \<Rightarrow> None
                                  | c # r \<Rightarrow>
                                      if c = CHR '','' then map_option (apfst (\<lambda>ms. (k, v) # ms)) (parse_fields n d r)
                                      else if c = CHR ''}'' then Some ([(k, v)], r) else None)))"

definition max_nesting :: nat where "max_nesting = 10000"

definition parse_json :: "string \<Rightarrow> (json \<times> string) option" where
  "parse_json s = parse_value (2 * length s + 1) max_nesting s"

text \<open>What \<open>Decoder.Decode\<close> takes from a stream, and what \<open>Unmarshal\<close> makes of a whole text.\<close>

definition first_value :: "string \<Rightarrow> json option" where
  "first_value s = map_option fst (parse_json s)"

definition whole_value :: "string \<Rightarrow> json option" where
  "whole_value s = (case parse_json s of Some (v, r) \<Rightarrow> if skip_space r = [] then Some v else None | None \<Rightarrow> None)"

section \<open>Strings are read back\<close>

function valid_utf8 :: "string \<Rightarrow> bool" where
  "valid_utf8 [] = True"
| "valid_utf8 (c # s) = (case rune_len (c # s) of 0 \<Rightarrow> False | Suc n \<Rightarrow> valid_utf8 (drop n s))"
  by pat_completeness auto
termination by (relation "measure length") auto

text \<open>A valid sequence is determined by its own bytes, so appending to it changes nothing.\<close>

lemma rune_len_take:
  "rune_len (c # s) = Suc n \<Longrightarrow> n \<le> length s \<and> rune_len (c # take n s @ t) = Suc n"
proof -
  assume "rune_len (c # s) = Suc n"
  then have "tail_len c = Some n" "n \<le> length s" "0 < n \<longrightarrow> second_byte c (hd s)" "list_all (byte_in 0x80 0xBF) (take n s)"
    by (auto split: option.splits if_splits)
  moreover have "0 < n \<longrightarrow> hd (take n s @ t) = hd s" using \<open>n \<le> length s\<close> by (cases n; cases s) auto
  ultimately show ?thesis by simp
qed

lemma rune_len_ascii [simp]: "byte c < 0x80 \<Longrightarrow> rune_len (c # s) = Suc 0"
  by (simp add: tail_len_def)

lemma prepend_simps [simp]: "prepend p None = None" "prepend p (Some (s, r)) = Some (p @ s, r)"
  by (simp_all add: prepend_def)

lemma byte_less [simp]: "byte c < 256"
  by (simp add: byte_def)

lemma char_of_byte [simp]: "char_of (byte c) = c"
  by (simp add: byte_def)

lemma byte_quote: "byte quote_mark = 0x22" "byte backslash = 0x5C"
  by (simp_all add: byte_def quote_mark_def backslash_def)

lemma hex_round: "n < 16 \<Longrightarrow> hex_val (hex_lower n) = Some n"
proof -
  have "\<forall>n < 16. hex_val (hex_lower n) = Some n" by code_simp
  then show "n < 16 \<Longrightarrow> ?thesis" by blast
qed

lemma escape_round: "short_escape c = Some e \<Longrightarrow> escaped e = Some c \<and> e \<noteq> CHR ''u''"
  by (auto simp: short_escape_def escaped_def quote_mark_def backslash_def split: if_splits)

lemma backslash_char: "backslash \<noteq> quote_mark" by (simp add: backslash_def quote_mark_def)

lemma unquote_escape:
  "unquote (backslash # e # t) =
     (if e = CHR ''u'' then
        (case hex4 t of
           None \<Rightarrow> None
         | Some (x, r1) \<Rightarrow>
             if 0xD800 \<le> x \<and> x < 0xE000 then
               (case low_surrogate x r1 of
                  Some (y, r2) \<Rightarrow> prepend (encode_rune y) (unquote r2)
                | None \<Rightarrow> prepend replacement (unquote r1))
             else prepend (encode_rune x) (unquote r1))
      else (case escaped e of None \<Rightarrow> None | Some d \<Rightarrow> prepend [d] (unquote t)))"
  by (simp add: backslash_char)

lemma unquote_plain:
  assumes "c \<noteq> quote_mark" and "c \<noteq> backslash" and "\<not> byte c < 0x20" and "rune_len (c # s) = Suc n"
  shows "unquote (c # s) = prepend (c # take n s) (unquote (drop n s))"
  using assms by (simp del: rune_len.simps)

lemma unquote_quote_ascii:
  assumes "byte c < 0x80"
  shows "unquote (quote_ascii c @ t) = prepend [c] (unquote t)"
proof (cases "short_escape c")
  case (Some e)
  with escape_round [OF Some] show ?thesis by (simp add: quote_ascii_def unquote_escape del: unquote.simps)
next
  case None
  show ?thesis
  proof (cases "byte c < 0x20 \<or> c \<in> {CHR ''<'', CHR ''>'', CHR ''&''}")
    case True
    have zero: "hex_val CHR ''0'' = Some 0" by (simp add: hex_val_def byte_in_def byte_def)
    have "hex_val (hex_lower (byte c div 16)) = Some (byte c div 16)" "hex_val (hex_lower (byte c mod 16)) = Some (byte c mod 16)"
      using assms by (simp_all add: hex_round)
    with zero have "hex4 (''00'' @ [hex_lower (byte c div 16), hex_lower (byte c mod 16)] @ t) = Some (byte c, t)"
      by simp
    with True None assms show ?thesis
      by (simp add: quote_ascii_def unquote_escape encode_rune_def del: unquote.simps hex4.simps)
  next
    case False
    with None assms show ?thesis
      by (auto simp: quote_ascii_def short_escape_def unquote_plain [of c t 0] simp del: unquote.simps rune_len.simps split: if_splits)
  qed
qed

lemma unquote_quote_rune:
  assumes "rune_len (c # s) = Suc n" and "\<not> byte c < 0x80"
  shows "unquote (quote_rune (c # take n s) @ t) = prepend (c # take n s) (unquote t)"
proof -
  have hex: "hex4 (''2028'' @ t) = Some (0x2028, t)" "hex4 (''2029'' @ t) = Some (0x2029, t)"
    by (simp_all add: hex_val_def byte_in_def byte_def)
  show ?thesis
  proof (cases "quote_rune (c # take n s) = c # take n s")
    case True
    have n: "n \<le> length s" "rune_len (c # take n s @ t) = Suc n" using rune_len_take [OF assms(1)] by blast+
    have "c \<noteq> quote_mark" "c \<noteq> backslash" "\<not> byte c < 0x20" using assms(2) byte_quote by auto
    with n show ?thesis by (simp add: True unquote_plain [of c "take n s @ t" n] del: unquote.simps rune_len.simps)
  next
    case False
    with hex show ?thesis
      by (auto simp: quote_rune_def unquote_escape simp del: unquote.simps hex4.simps split: if_splits)
  qed
qed

lemma unquote_quote_body: "valid_utf8 s \<Longrightarrow> unquote (quote_body s @ quote_mark # t) = Some (s, t)"
proof (induction s rule: valid_utf8.induct)
  case (2 c s)
  then obtain n where n: "rune_len (c # s) = Suc n" and v: "valid_utf8 (drop n s)"
    by (cases "rune_len (c # s)") (auto simp del: rune_len.simps)
  note IH = "2.IH" [OF n v]
  show ?case
  proof (cases "byte c < 0x80")
    case True
    with n have "n = 0" by (simp del: rune_len.simps)
    with True IH show ?thesis by (simp add: unquote_quote_ascii del: unquote.simps)
  next
    case False
    have "quote_body (c # s) = quote_rune (c # take n s) @ quote_body (drop n s)"
      using False n by (simp del: rune_len.simps)
    with unquote_quote_rune [OF n False] IH show ?thesis by (simp del: unquote.simps quote_body.simps)
  qed
qed simp

section \<open>Numbers are read back\<close>

text \<open>A text that cannot continue a number.\<close>

definition number_stop :: "string \<Rightarrow> bool" where
  "number_stop r \<longleftrightarrow> (case r of [] \<Rightarrow> True
     | c # _ \<Rightarrow> \<not> is_digit c \<and> c \<notin> {CHR ''.'', CHR ''e'', CHR ''E'', CHR ''+'', CHR ''-''})"

lemma digits_stop:
  "number_stop r \<Longrightarrow> takeWhile is_digit (s @ r) = takeWhile is_digit s"
  "number_stop r \<Longrightarrow> dropWhile is_digit (s @ r) = dropWhile is_digit s @ r"
  by (induction s) (auto simp: number_stop_def split: list.splits)

lemma int_part_append: "int_part s = Some (x, y) \<Longrightarrow> number_stop r \<Longrightarrow> int_part (s @ r) = Some (x, y @ r)"
  using digits_stop [of r s] by (auto simp: int_part_def split: list.splits if_splits)

lemma frac_part_append: "frac_part s = Some (x, y) \<Longrightarrow> number_stop r \<Longrightarrow> frac_part (s @ r) = Some (x, y @ r)"
proof (cases s)
  case Nil
  then show "frac_part s = Some (x, y) \<Longrightarrow> number_stop r \<Longrightarrow> ?thesis"
    by (auto simp: frac_part_def number_stop_def split: list.splits)
next
  case (Cons c t)
  then show "frac_part s = Some (x, y) \<Longrightarrow> number_stop r \<Longrightarrow> ?thesis"
    using digits_stop [of r t] by (auto simp: frac_part_def split: if_splits)
qed

lemma sign_part_append: "t \<noteq> [] \<Longrightarrow> sign_part (t @ r) = (fst (sign_part t), snd (sign_part t) @ r)"
  by (cases t) (simp_all add: sign_part_def)

lemma exp_part_append: "exp_part s = Some (x, y) \<Longrightarrow> number_stop r \<Longrightarrow> exp_part (s @ r) = Some (x, y @ r)"
proof (cases s)
  case Nil
  then show "exp_part s = Some (x, y) \<Longrightarrow> number_stop r \<Longrightarrow> ?thesis"
    by (auto simp: exp_part_def number_stop_def split: list.splits)
next
  case (Cons c t)
  assume e: "exp_part s = Some (x, y)" and r: "number_stop r"
  show ?thesis
  proof (cases "c = CHR ''e'' \<or> c = CHR ''E''")
    case True
    obtain sg u where u: "sign_part t = (sg, u)" by fastforce
    from e True u have "u \<noteq> []" by (auto simp: exp_part_def Cons split: if_splits)
    then have "t \<noteq> []" using u by (auto simp: sign_part_def)
    then have "sign_part (t @ r) = (sg, u @ r)" using sign_part_append [of t r] u by simp
    with e True u r digits_stop [of r u] show ?thesis by (auto simp: exp_part_def Cons split: if_splits)
  next
    case False
    with e Cons show ?thesis by (auto simp: exp_part_def)
  qed
qed

lemma number_text_append:
  assumes "number_text s = Some (x, y)" and "number_stop r"
  shows "number_text (s @ r) = Some (x, y @ r)"
proof -
  obtain sg u where u: "(if take 1 s = ''-'' then (''-'', drop 1 s) else ([], s)) = (sg, u)" by fastforce
  have "s \<noteq> []" using assms(1) by (auto simp: number_text_def int_part_def)
  with u have ur: "(if take 1 (s @ r) = ''-'' then (''-'', drop 1 (s @ r)) else ([], s @ r)) = (sg, u @ r)"
    by (cases s) (auto split: if_splits)
  from assms(1) u obtain i s1 f s2 e where p: "int_part u = Some (i, s1)" "frac_part s1 = Some (f, s2)"
    "exp_part s2 = Some (e, y)" "x = sg @ i @ f @ e"
    by (auto simp: number_text_def split: option.splits)
  note app = int_part_append [OF p(1) assms(2)] frac_part_append [OF p(2) assms(2)] exp_part_append [OF p(3) assms(2)]
  show ?thesis unfolding number_text_def ur by (simp add: app p(4))
qed

definition valid_number :: "string \<Rightarrow> bool" where
  "valid_number lit \<longleftrightarrow> number_text lit = Some (lit, [])"

lemma valid_number_head: "valid_number lit \<Longrightarrow> \<exists>c t. lit = c # t \<and> (is_digit c \<or> c = CHR ''-'')"
  by (cases lit) (auto simp: valid_number_def number_text_def int_part_def is_digit_def split: if_splits)

section \<open>Values are read back\<close>

primrec valid_json :: "json \<Rightarrow> bool" where
  "valid_json JNull = True"
| "valid_json (JBool b) = True"
| "valid_json (JNum lit) = valid_number lit"
| "valid_json (JStr s) = valid_utf8 s"
| "valid_json (JArr xs) = list_all id (map valid_json xs)"
| "valid_json (JObj ms) = list_all (\<lambda>(k, ok). valid_utf8 k \<and> ok) (map (map_prod id valid_json) ms)"

primrec json_depth :: "json \<Rightarrow> nat" where
  "json_depth JNull = 0"
| "json_depth (JBool b) = 0"
| "json_depth (JNum lit) = 0"
| "json_depth (JStr s) = 0"
| "json_depth (JArr xs) = Suc (foldr max (map json_depth xs) 0)"
| "json_depth (JObj ms) = Suc (foldr (\<lambda>(k, m). max m) (map (map_prod id json_depth) ms) 0)"

lemma encode_head:
  "valid_json v \<Longrightarrow> \<exists>c t. encode_json v = c # t \<and> \<not> json_space c \<and> c \<noteq> CHR '']'' \<and> c \<noteq> CHR ''}''"
proof (cases v)
  case (JNum lit)
  assume "valid_json v"
  with JNum obtain c t where "lit = c # t" "is_digit c \<or> c = CHR ''-''"
    using valid_number_head [of lit] by auto
  with JNum show ?thesis by (auto simp: json_space_def is_digit_def)
qed (auto simp: json_space_def quote_string_def quote_mark_def)

lemma skip_space_head [simp]: "\<not> json_space c \<Longrightarrow> skip_space (c # s) = c # s"
  by (simp add: skip_space_def)

lemma not_space [simp]:
  "\<not> json_space CHR '',''" "\<not> json_space CHR '']''" "\<not> json_space CHR ''}''" "\<not> json_space CHR '':''"
  "\<not> json_space quote_mark" "\<not> json_space CHR ''{''" "\<not> json_space CHR ''[''" "\<not> json_space CHR ''t''"
  "\<not> json_space CHR ''f''" "\<not> json_space CHR ''n''"
  by (simp_all add: json_space_def quote_mark_def)

lemma stops [simp]: "number_stop (CHR '','' # r)" "number_stop (CHR '']'' # r)" "number_stop (CHR ''}'' # r)"
  "number_stop []" "number_stop (CHR 0x0A # r)"
  by (simp_all add: number_stop_def is_digit_def)

lemma Join_Cons: "Join (x # xs) sep = (if xs = [] then x else x @ sep @ Join xs sep)"
  by (cases xs) simp_all

definition reads_back :: "nat \<Rightarrow> json \<Rightarrow> bool" where
  "reads_back d v \<longleftrightarrow> (\<forall>n r. number_stop r \<longrightarrow> 2 * length (encode_json v) \<le> n \<longrightarrow>
     parse_value n d (encode_json v @ r) = Some (v, r))"

lemma parse_items_back:
  assumes "\<forall>x \<in> set xs. reads_back d x" and "xs \<noteq> []" and "2 * length (Join (map encode_json xs) '','') + 1 \<le> n"
  shows "parse_items n d (Join (map encode_json xs) '','' @ CHR '']'' # r) = Some (xs, r)"
  using assms
proof (induction xs arbitrary: n)
  case (Cons x xs)
  from Cons.prems(3) obtain m where n: "n = Suc m" by (cases n) auto
  have x: "reads_back d x" using Cons.prems(1) by simp
  show ?case
  proof (cases "xs = []")
    case True
    with x n Cons.prems(3) show ?thesis by (simp add: reads_back_def)
  next
    case False
    have "parse_items m d (Join (map encode_json xs) '','' @ CHR '']'' # r) = Some (xs, r)"
      using Cons.IH [of m] Cons.prems False n by (simp add: Join_Cons)
    moreover have "parse_value m d (encode_json x @ CHR '','' # Join (map encode_json xs) '','' @ CHR '']'' # r) =
        Some (x, CHR '','' # Join (map encode_json xs) '','' @ CHR '']'' # r)"
      using x n Cons.prems(3) False by (simp add: reads_back_def Join_Cons)
    ultimately show ?thesis using False by (simp add: n Join_Cons)
  qed
qed simp

definition encode_field :: "string \<times> json \<Rightarrow> string" where
  "encode_field kv = quote_string (fst kv) @ '':'' @ encode_json (snd kv)"

lemma parse_fields_back:
  assumes "\<forall>kv \<in> set ms. valid_utf8 (fst kv) \<and> reads_back d (snd kv)" and "ms \<noteq> []"
    and "2 * length (Join (map encode_field ms) '','') + 1 \<le> n"
  shows "parse_fields n d (Join (map encode_field ms) '','' @ CHR ''}'' # r) = Some (ms, r)"
  using assms
proof (induction ms arbitrary: n)
  case (Cons kv ms)
  obtain k v where kv: "kv = (k, v)" by fastforce
  from Cons.prems(3) obtain m where n: "n = Suc m" by (cases n) auto
  have k: "unquote (quote_body k @ quote_mark # t) = Some (k, t)" for t
    using Cons.prems(1) by (simp add: kv unquote_quote_body)
  have v: "reads_back d v" using Cons.prems(1) by (simp add: kv)
  let ?tail = "if ms = [] then CHR ''}'' # r else CHR '','' # Join (map encode_field ms) '','' @ CHR ''}'' # r"
  have line: "Join (map encode_field (kv # ms)) '','' @ CHR ''}'' # r =
      quote_mark # quote_body k @ quote_mark # CHR '':'' # encode_json v @ ?tail"
    by (simp add: Join_Cons encode_field_def quote_string_def kv)
  have len: "2 * length (encode_json v) \<le> m"
    using Cons.prems(3) n by (auto simp: Join_Cons encode_field_def quote_string_def kv split: if_splits)
  have pv: "parse_value m d (encode_json v @ ?tail) = Some (v, ?tail)"
    using v len by (simp add: reads_back_def)
  have "parse_fields m d (Join (map encode_field ms) '','' @ CHR ''}'' # r) = Some (ms, r)" if "ms \<noteq> []"
    using Cons.IH [of m] Cons.prems that n by (simp add: Join_Cons)
  then show ?case unfolding line n
    by (simp add: k pv del: unquote.simps) (auto simp: kv)
qed simp

lemma depth_member: "x \<in> set xs \<Longrightarrow> f x \<le> foldr max (map f xs) (0 :: nat)"
  by (induction xs) auto

lemma depth_field: "(k, v) \<in> set ms \<Longrightarrow> f v \<le> foldr (\<lambda>(k, m). max m) (map (map_prod id f) ms) (0 :: nat)"
  by (induction ms) auto

lemma encode_nonempty: "valid_json v \<Longrightarrow> 1 \<le> length (encode_json v)"
  using encode_head [of v] by auto

lemma literal_back [simp]: "literal word v (word @ r) = Some (v, r)"
  by (simp add: literal_def HasPrefix_def)

lemma values_read_back: "valid_json v \<Longrightarrow> json_depth v \<le> d \<Longrightarrow> reads_back d v"
proof (induction v arbitrary: d)
  case JNull
  show ?case unfolding reads_back_def
  proof (intro allI impI)
    fix n r assume "2 * length (encode_json JNull) \<le> n"
    then show "parse_value n d (encode_json JNull @ r) = Some (JNull, r)"
      using literal_back [of "''null''" JNull r] by (cases n) (simp_all add: quote_mark_def)
  qed
next
  case (JBool b)
  show ?case unfolding reads_back_def
  proof (intro allI impI)
    fix n r assume "2 * length (encode_json (JBool b)) \<le> n"
    then show "parse_value n d (encode_json (JBool b) @ r) = Some (JBool b, r)"
      using literal_back [of "''true''" "JBool True" r] literal_back [of "''false''" "JBool False" r]
      by (cases n) (auto simp: quote_mark_def split: if_splits)
  qed
next
  case (JNum lit)
  show ?case unfolding reads_back_def
  proof (intro allI impI)
    fix n r assume r: "number_stop r" and n: "2 * length (encode_json (JNum lit)) \<le> n"
    from JNum have lit: "valid_number lit" by simp
    then obtain c t where c: "lit = c # t" "is_digit c \<or> c = CHR ''-''" using valid_number_head by blast
    have "number_text (lit @ r) = Some (lit, r)"
      using number_text_append [of lit lit "[]" r] lit r by (simp add: valid_number_def)
    moreover have "\<not> json_space c" "c \<notin> {CHR ''{'', CHR ''['', CHR ''t'', CHR ''f'', CHR ''n'', quote_mark}"
      using c(2) by (auto simp: json_space_def is_digit_def quote_mark_def)
    ultimately show "parse_value n d (encode_json (JNum lit) @ r) = Some (JNum lit, r)"
      using n c by (cases n) simp_all
  qed
next
  case (JStr s)
  show ?case unfolding reads_back_def
  proof (intro allI impI)
    fix n r assume "2 * length (encode_json (JStr s)) \<le> n"
    then show "parse_value n d (encode_json (JStr s) @ r) = Some (JStr s, r)"
      using unquote_quote_body [of s r] JStr.prems
      by (cases n) (auto simp: quote_string_def quote_mark_def [symmetric] simp del: unquote.simps, simp_all add: quote_mark_def)
  qed
next
  case (JArr xs)
  have xs: "\<forall>x \<in> set xs. valid_json x" using JArr.prems(1) by (simp add: list_all_iff)
  from JArr.prems(2) obtain e where d: "d = Suc e" by (cases d) auto
  have "json_depth x \<le> e" if "x \<in> set xs" for x
    using depth_member [OF that, of json_depth] JArr.prems(2) d by simp
  then have kept: "\<forall>x \<in> set xs. reads_back e x" using JArr.IH xs by blast
  show ?case unfolding reads_back_def
  proof (intro allI impI)
    fix n r assume "2 * length (encode_json (JArr xs)) \<le> n"
    then obtain m where n: "n = Suc m" "2 * length (Join (map encode_json xs) '','') + 1 \<le> m" by (cases n) auto
    show "parse_value n d (encode_json (JArr xs) @ r) = Some (JArr xs, r)"
    proof (cases xs)
      case Nil
      then show ?thesis by (simp add: n d quote_mark_def)
    next
      case (Cons x ys)
      with xs encode_head [of x] obtain c t where "encode_json x = c # t" "\<not> json_space c" "c \<noteq> CHR '']''" by auto
      then have "take 1 (skip_space (Join (map encode_json xs) '','' @ CHR '']'' # r)) \<noteq> '']''" by (simp add: Cons Join_Cons)
      then show ?thesis using parse_items_back [OF kept _ n(2), of r] Cons by (simp add: n d quote_mark_def)
    qed
  qed
next
  case (JObj ms)
  have ms: "\<forall>kv \<in> set ms. valid_utf8 (fst kv) \<and> valid_json (snd kv)" using JObj.prems(1) by (auto simp: list_all_iff)
  from JObj.prems(2) obtain e where d: "d = Suc e" by (cases d) auto
  have "json_depth (snd kv) \<le> e" if "kv \<in> set ms" for kv
    using depth_field [of "fst kv" "snd kv" ms json_depth] that JObj.prems(2) d by simp
  then have kept: "\<forall>kv \<in> set ms. valid_utf8 (fst kv) \<and> reads_back e (snd kv)"
    using JObj.IH ms by (metis prod.collapse snds.simps)
  have members: "map (\<lambda>(k, t). quote_string k @ '':'' @ t) (map (map_prod id encode_json) ms) = map encode_field ms"
    by (auto simp: encode_field_def)
  show ?case unfolding reads_back_def
  proof (intro allI impI)
    fix n r assume "2 * length (encode_json (JObj ms)) \<le> n"
    then obtain m where n: "n = Suc m" "2 * length (Join (map encode_field ms) '','') + 1 \<le> m"
      unfolding encode_json.simps members by (cases n) auto
    show "parse_value n d (encode_json (JObj ms) @ r) = Some (JObj ms, r)"
    proof (cases ms)
      case Nil
      then show ?thesis by (simp add: n d quote_mark_def)
    next
      case (Cons kv ys)
      then have "take 1 (skip_space (Join (map encode_field ms) '','' @ CHR ''}'' # r)) \<noteq> ''}''"
        by (simp add: Join_Cons encode_field_def quote_string_def) (simp add: quote_mark_def)
      then show ?thesis using parse_fields_back [OF kept _ n(2), of r] Cons
        unfolding encode_json.simps members by (simp add: n d quote_mark_def)
    qed
  qed
qed

lemma Encode_reads_back:
  assumes "valid_json v" and "json_depth v \<le> max_nesting"
  shows "first_value (Encode v) = Some v" and "whole_value (Encode v) = Some v"
proof -
  have "parse_json (Encode v) = Some (v, [CHR 0x0A])"
    using values_read_back [OF assms]
    by (simp add: parse_json_def Encode_def reads_back_def del: parse_value.simps)
  moreover have "skip_space [CHR 0x0A] = []" by (simp add: skip_space_def json_space_def)
  ultimately show "first_value (Encode v) = Some v" "whole_value (Encode v) = Some v"
    by (simp_all add: first_value_def whole_value_def)
qed

lemma encoded_whole:
  assumes "valid_json v" and "json_depth v \<le> max_nesting"
  shows "whole_value (encode_json v) = Some v"
proof -
  have "parse_json (encode_json v) = Some (v, [])"
    using spec [OF values_read_back [OF assms, unfolded reads_back_def], of "2 * length (encode_json v) + 1"]
    by (auto simp: parse_json_def number_stop_def dest: spec [of _ "[]"] simp del: parse_value.simps)
  then show ?thesis by (simp add: whole_value_def skip_space_def)
qed

section \<open>The fuel is enough\<close>

lemma skip_space_length: "skip_space s = c # r \<Longrightarrow> length r < length s"
proof -
  assume "skip_space s = c # r"
  then have "length (c # r) \<le> length s" using length_dropWhile_le [of json_space s] by (metis skip_space_def)
  then show ?thesis by simp
qed

lemma prepend_Some: "prepend p x = Some (s, r) \<Longrightarrow> \<exists>t. x = Some (t, r)"
  by (cases x) (auto simp: prepend_def)

lemma unquote_length: "unquote s = Some (x, r) \<Longrightarrow> length r < length s"
proof (induction s arbitrary: x rule: unquote.induct)
  case (2 c s)
  show ?case
  proof (cases "c = quote_mark")
    case True
    with "2.prems" show ?thesis by simp
  next
    case no_quote: False
    show ?thesis
    proof (cases "c = backslash")
      case True
      with "2.prems" no_quote obtain e t where s: "s = e # t" by (cases s) auto
      show ?thesis
      proof (cases "e = CHR ''u''")
        case u: True
        with "2.prems" True no_quote s obtain y r1 where h: "hex4 t = Some (y, r1)" by (auto split: option.splits)
        note len = hex4_shorter [OF h]
        show ?thesis
        proof (cases "0xD800 \<le> y \<and> y < 0xE000 \<and> low_surrogate y r1 \<noteq> None")
          case True
          then obtain z r2 where l: "low_surrogate y r1 = Some (z, r2)" by auto
          with "2.prems" u h True \<open>c = backslash\<close> no_quote s obtain t' where "unquote r2 = Some (t', r)"
            by (auto dest!: prepend_Some)
          with "2.IH"(2) [OF no_quote \<open>c = backslash\<close> s u h refl _ l] True len low_surrogate_shorter [OF l] s
          show ?thesis by fastforce
        next
          case False
          with "2.prems" u h \<open>c = backslash\<close> no_quote s obtain t' where "unquote r1 = Some (t', r)"
            by (cases "low_surrogate y r1") (auto dest!: prepend_Some split: if_splits)
          with "2.IH"(1) [OF no_quote \<open>c = backslash\<close> s u h refl] "2.IH"(3) [OF no_quote \<open>c = backslash\<close> s u h refl] False len s
          show ?thesis by fastforce
        qed
      next
        case plain: False
        with "2.prems" True no_quote s obtain d where d: "escaped e = Some d" by (auto split: option.splits)
        with "2.prems" True no_quote s plain obtain t' where "unquote t = Some (t', r)" by (auto dest!: prepend_Some)
        with "2.IH"(4) [OF no_quote True s plain d] s show ?thesis by fastforce
      qed
    next
      case False
      with "2.prems" no_quote have byte: "\<not> byte c < 0x20" by (auto split: if_splits)
      show ?thesis
      proof (cases "rune_len (c # s)")
        case 0
        with "2.prems" False no_quote byte obtain t' where "unquote s = Some (t', r)"
          by (auto dest!: prepend_Some simp del: rune_len.simps)
        with "2.IH"(5) [OF no_quote False byte 0] show ?thesis by fastforce
      next
        case (Suc n)
        with "2.prems" False no_quote byte obtain t' where "unquote (drop n s) = Some (t', r)"
          by (auto dest!: prepend_Some simp del: rune_len.simps)
        with "2.IH"(6) [OF no_quote False byte Suc] show ?thesis by fastforce
      qed
    qed
  qed
qed simp

lemma int_part_length: "int_part s = Some (x, y) \<Longrightarrow> length y < length s"
  using length_dropWhile_le [of is_digit] by (auto simp: int_part_def less_Suc_eq_le split: list.splits if_splits)

lemma frac_part_length: "frac_part s = Some (x, y) \<Longrightarrow> length y \<le> length s"
  using length_dropWhile_le [of is_digit] by (auto simp: frac_part_def le_SucI split: list.splits if_splits)

lemma sign_part_length: "sign_part s = (x, y) \<Longrightarrow> length y \<le> length s"
  by (auto simp: sign_part_def split: list.splits if_splits)

lemma exp_part_length: "exp_part s = Some (x, y) \<Longrightarrow> length y \<le> length s"
proof (cases s)
  case (Cons c t)
  assume e: "exp_part s = Some (x, y)"
  obtain sg u where u: "sign_part t = (sg, u)" by fastforce
  have "length u \<le> length t" "length (dropWhile is_digit u) \<le> length u"
    using sign_part_length [OF u] length_dropWhile_le by auto
  with e u show ?thesis by (auto simp: exp_part_def Cons split: if_splits)
qed (auto simp: exp_part_def)

lemma number_text_length: "number_text s = Some (x, r) \<Longrightarrow> length r < length s"
proof -
  assume n: "number_text s = Some (x, r)"
  obtain sg u where u: "(if take 1 s = ''-'' then (''-'', drop 1 s) else ([], s)) = (sg, u)" by fastforce
  with n obtain i s1 f s2 e where "int_part u = Some (i, s1)" "frac_part s1 = Some (f, s2)" "exp_part s2 = Some (e, r)"
    by (auto simp: number_text_def split: option.splits)
  then have "length r < length u" using int_part_length frac_part_length exp_part_length by (meson le_less_trans)
  also have "length u \<le> length s" using u by (auto split: if_splits)
  finally show ?thesis .
qed

lemma literal_length: "literal (c # word) v s = Some (x, r) \<Longrightarrow> length r < length s"
  by (cases s) (auto simp: literal_def HasPrefix_def split: if_splits)

lemma map_apfst_Some: "map_option (apfst f) x = Some (v, r) \<Longrightarrow> \<exists>w. x = Some (w, r)"
  by (cases x) auto

lemma parse_shorter:
  "parse_value n d s = Some (v, r) \<Longrightarrow> length r < length s"
  "parse_items n d s = Some (vs, r) \<Longrightarrow> length r < length s"
  "parse_fields n d s = Some (ms, r) \<Longrightarrow> length r < length s"
proof (induction n arbitrary: d s v vs ms r)
  case (Suc n)
  {
    case 1
    then obtain c t where c: "skip_space s = c # t" by (auto split: list.splits)
    note t = skip_space_length [OF c]
    have le: "length (c # t) \<le> length s" using t by simp
    have tail: "length (drop 1 (skip_space t)) \<le> length t"
      using length_dropWhile_le [of json_space t] by (simp add: skip_space_def)
    have inner: "parse_fields n e t = Some (ms, q) \<Longrightarrow> length q < length t" "parse_items n e t = Some (vs, q) \<Longrightarrow> length q < length t"
      for e ms vs q using Suc.IH by blast+
    from 1 c tail t le show ?case
      by (auto split: if_splits dest!: map_apfst_Some inner unquote_length number_text_length literal_length)
  next
    case 2
    then obtain v q c t where p: "parse_value n d s = Some (v, q)" and c: "skip_space q = c # t"
      by (auto split: option.splits list.splits)
    have "length t < length s" using Suc.IH(1) [OF p] skip_space_length [OF c] by simp
    with 2 p c show ?case by (auto split: if_splits dest!: map_apfst_Some Suc.IH(2))
  next
    case 3
    then obtain t k q u v w c x where p: "skip_space s = quote_mark # t" "unquote t = Some (k, q)"
      "skip_space q = CHR '':'' # u" "parse_value n d u = Some (v, w)" "skip_space w = c # x"
      by (auto split: option.splits list.splits if_splits)
    have "length x < length s"
      using skip_space_length [OF p(1)] unquote_length [OF p(2)] skip_space_length [OF p(3)] Suc.IH(1) [OF p(4)]
        skip_space_length [OF p(5)] by simp
    with 3 p show ?case by (auto split: if_splits dest!: map_apfst_Some Suc.IH(3))
  }
qed auto

lemma parse_fuel:
  "2 * length s + 1 \<le> n \<Longrightarrow> n \<le> m \<Longrightarrow> parse_value m d s = parse_value n d s"
  "2 * length s + 2 \<le> n \<Longrightarrow> n \<le> m \<Longrightarrow> parse_items m d s = parse_items n d s"
  "2 * length s + 2 \<le> n \<Longrightarrow> n \<le> m \<Longrightarrow> parse_fields m d s = parse_fields n d s"
proof (induction n arbitrary: m d s)
  case (Suc n)
  {
    case 1
    from 1(2) obtain k where m: "m = Suc k" "n \<le> k" by (cases m) auto
    show ?case
    proof (cases "skip_space s")
      case (Cons c t)
      have "2 * length t + 2 \<le> n" using skip_space_length [OF Cons] 1(1) by simp
      then have "parse_items k e t = parse_items n e t" "parse_fields k e t = parse_fields n e t" for e
        using Suc.IH(2) [of t k e] Suc.IH(3) [of t k e] m(2) by simp_all
      then show ?thesis by (simp add: m(1) Cons)
    qed (simp add: m)
  next
    case 2
    from 2(2) obtain k where m: "m = Suc k" "n \<le> k" by (cases m) auto
    have v: "parse_value k d s = parse_value n d s" using Suc.IH(1) [of s k d] 2(1) m by simp
    show ?case
    proof (cases "parse_value n d s")
      case (Some p)
      obtain x q where p: "p = (x, q)" by fastforce
      have "parse_items k d t = parse_items n d t" if "skip_space q = c # t" for c t
        using Suc.IH(2) [of t k d] parse_shorter(1) [of n d s x q] skip_space_length [OF that] 2(1) m Some p by simp
      then show ?thesis using v by (simp add: m Some p split: list.split)
    qed (simp add: m v)
  next
    case 3
    from 3(2) obtain k where m: "m = Suc k" "n \<le> k" by (cases m) auto
    show ?case
    proof (cases "\<exists>t key q u. skip_space s = quote_mark # t \<and> unquote t = Some (key, q) \<and> skip_space q = CHR '':'' # u")
      case True
      then obtain t key q u where p: "skip_space s = quote_mark # t" "unquote t = Some (key, q)" "skip_space q = CHR '':'' # u"
        by blast
      have u: "length u + 3 \<le> length s"
        using skip_space_length [OF p(1)] unquote_length [OF p(2)] skip_space_length [OF p(3)] by simp
      then have v: "parse_value k d u = parse_value n d u" using Suc.IH(1) [of u k d] 3(1) m by simp
      show ?thesis
      proof (cases "parse_value n d u")
        case (Some w)
        obtain x y where w: "w = (x, y)" by fastforce
        have "parse_fields k d z = parse_fields n d z" if "skip_space y = c # z" for c z
          using Suc.IH(3) [of z k d] parse_shorter(1) [of n d u x y] skip_space_length [OF that] u 3(1) m Some w by simp
        then show ?thesis using v by (simp add: m p Some w split: list.split)
      qed (simp add: m v p)
    next
      case False
      then have "parse_fields (Suc j) d s = None" for j by (auto split: list.split option.split)
      then show ?thesis by (simp only: m)
    qed
  }
qed auto

text \<open>Any more fuel gives the same result.\<close>

lemma parse_json_fuel: "2 * length s + 1 \<le> n \<Longrightarrow> parse_value n max_nesting s = parse_json s"
  unfolding parse_json_def by (rule parse_fuel(1)) simp_all

end
