(* ===== verification/Bank.thy ===== *)
theory Bank
  imports Money GoTime JsonText
begin

text \<open>
  The bank: the two tables of \<open>database/init.sql\<close>, the SQL of \<open>internal/repository\<close> as
  functions on them, and the account service (\<open>internal/service/account.go\<close>). A balance is
  kept in cents, as the column keeps it, and read as a \<open>float64\<close>. A service call runs as one
  step here, because it holds the row lock of \<open>SELECT ... FOR UPDATE\<close> from its first statement to
  the commit; the theory \<open>BankSchedules\<close> has its statements one by one. A fault says which call to
  the database fails; a commit whose confirmation is lost may have been applied.
\<close>

section \<open>Tables\<close>

record account_row =
  row_id :: int
  row_number :: string
  row_owner :: string
  row_balance :: int
  row_created :: int

record tx_row =
  tx_id :: int
  tx_account :: int
  tx_type :: string
  tx_amount :: int
  tx_description :: string
  tx_created :: int

text \<open>
  The sequences behind the \<open>SERIAL\<close> keys are not rolled back with a transaction. That they run out
  after \<open>2 ^ 31 - 1\<close> keys is not modelled.
\<close>

record bank_db =
  bank_accounts :: "account_row list"
  transactions :: "tx_row list"
  account_seq :: int
  tx_seq :: int
  db_now :: int

datatype db_call = CallBegin | CallSelect | CallUpdate | CallInsert | CallCommit
datatype db_fault = NoFault | FailAt db_call | CommitLost bool

definition rollback :: "bank_db \<Rightarrow> bank_db \<Rightarrow> bank_db" where
  "rollback db work = db\<lparr>account_seq := account_seq work, tx_seq := tx_seq work\<rparr>"

section \<open>Repositories\<close>

record bank_account =
  ID :: int
  AccountNumber :: string
  OwnerName :: string
  Balance :: rat
  CreatedAt :: int

record bank_transaction =
  TxID :: int
  AccountID :: int
  TxType :: string
  Amount :: rat
  Description :: string
  TxCreatedAt :: int

datatype bank_error = ErrNotFound | ErrInsufficientFunds | ErrAccountAlreadyExists
  | AmountNotPositive | UniqueViolation | DatabaseError

definition scanAccount :: "account_row option \<Rightarrow> bank_error + bank_account" where
  "scanAccount row = (case row of
      None \<Rightarrow> Inl ErrNotFound
    | Some r \<Rightarrow> Inr \<lparr>ID = row_id r, AccountNumber = row_number r, OwnerName = row_owner r,
                   Balance = load_numeric (row_balance r), CreatedAt = row_created r\<rparr>)"

text \<open>
  The server refuses a parameter that is not a text of the database, with an error; the numbers in
  the table are such texts, so a number it refuses is none of them.
\<close>

definition pg_text :: "string \<Rightarrow> bool" where
  "pg_text s \<longleftrightarrow> valid_utf8 s \<and> CHR 0x00 \<notin> set s"

definition scan_number :: "string \<Rightarrow> account_row option \<Rightarrow> bank_error + bank_account" where
  "scan_number num row = (if row = None \<and> \<not> pg_text num then Inl DatabaseError else scanAccount row)"

definition select_account :: "bank_db \<Rightarrow> string \<Rightarrow> account_row option" where
  "select_account db num = find (\<lambda>r. row_number r = num) (bank_accounts db)"

definition GetByAccountNumber :: "db_fault \<Rightarrow> string \<Rightarrow> bank_db \<Rightarrow> bank_error + bank_account" where
  "GetByAccountNumber fault num db =
     (if fault = FailAt CallSelect then Inl DatabaseError else scan_number num (select_account db num))"

definition GetByAccountNumberForUpdate :: "db_fault \<Rightarrow> string \<Rightarrow> bank_db \<Rightarrow> bank_error + bank_account" where
  "GetByAccountNumberForUpdate fault num db =
     (if fault = FailAt CallSelect then Inl DatabaseError else scan_number num (select_account db num))"

definition UpdateBalance :: "db_fault \<Rightarrow> int \<Rightarrow> rat \<Rightarrow> bank_db \<Rightarrow> bank_error + bank_db" where
  "UpdateBalance fault i newBalance db =
     (if fault = FailAt CallUpdate then Inl DatabaseError
      else case store_numeric newBalance of
             None \<Rightarrow> Inl DatabaseError
           | Some c \<Rightarrow> Inr (db\<lparr>bank_accounts :=
               map (\<lambda>r. if row_id r = i then r\<lparr>row_balance := c\<rparr> else r) (bank_accounts db)\<rparr>))"

text \<open>
  The row's key is drawn from the sequence first; then the amount must fit the column, be
  positive there, and the account and the type must satisfy their constraints.
\<close>

definition Create_transaction ::
  "db_fault \<Rightarrow> int \<Rightarrow> string \<Rightarrow> rat \<Rightarrow> string \<Rightarrow> bank_db \<Rightarrow> bank_db \<times> (bank_error + bank_transaction)" where
  "Create_transaction fault acc txType amount description db =
     (if fault = FailAt CallInsert then (db, Inl DatabaseError)
      else let i = tx_seq db; db = db\<lparr>tx_seq := i + 1\<rparr>
           in case store_numeric amount of
                None \<Rightarrow> (db, Inl DatabaseError)
              | Some c \<Rightarrow>
                  if c \<le> 0 \<or> txType \<notin> {''deposit'', ''withdrawal''} \<or>
                     \<not> list_ex (\<lambda>r. row_id r = acc) (bank_accounts db)
                  then (db, Inl DatabaseError)
                  else (db\<lparr>transactions := transactions db @
                            [\<lparr>tx_id = i, tx_account = acc, tx_type = txType, tx_amount = c,
                              tx_description = description, tx_created = db_now db\<rparr>]\<rparr>,
                        Inr \<lparr>TxID = i, AccountID = acc, TxType = txType, Amount = load_numeric c,
                             Description = description, TxCreatedAt = db_now db\<rparr>))"

text \<open>
  \<open>ORDER BY created_at DESC\<close> leaves the order of rows of the same time open, so the ordering
  the server applies is an argument.
\<close>

definition ListByAccountID ::
  "(tx_row list \<Rightarrow> tx_row list) \<Rightarrow> db_fault \<Rightarrow> int \<Rightarrow> int \<Rightarrow> int \<Rightarrow> bank_db \<Rightarrow> bank_error + bank_transaction list" where
  "ListByAccountID order fault acc limit offset db =
     (if fault = FailAt CallSelect then Inl DatabaseError
      else Inr (map (\<lambda>t. \<lparr>TxID = tx_id t, AccountID = tx_account t, TxType = tx_type t,
                        Amount = load_numeric (tx_amount t), Description = tx_description t,
                        TxCreatedAt = tx_created t\<rparr>)
                (take (nat limit) (drop (nat offset)
                  (order (filter (\<lambda>t. tx_account t = acc) (transactions db)))))))"

section \<open>Account service\<close>

definition svc_GetAccount :: "db_fault \<Rightarrow> string \<Rightarrow> bank_db \<Rightarrow> bank_error + bank_account" where
  "svc_GetAccount fault num db = GetByAccountNumber fault num db"

text \<open>The part of \<open>Deposit\<close> and \<open>Withdraw\<close> after the new balance is known.\<close>

definition book ::
  "db_fault \<Rightarrow> bank_account \<Rightarrow> string \<Rightarrow> rat \<Rightarrow> rat \<Rightarrow> bank_db \<Rightarrow> bank_db \<times> (bank_error + bank_account)" where
  "book fault account txType amount newBalance db =
     (case UpdateBalance fault (ID account) newBalance db of
        Inl e \<Rightarrow> (db, Inl e)
      | Inr work \<Rightarrow>
          (case Create_transaction fault (ID account) txType amount '''' work of
             (work, Inl e) \<Rightarrow> (rollback db work, Inl e)
           | (work, Inr _) \<Rightarrow>
               (case fault of
                  FailAt CallCommit \<Rightarrow> (rollback db work, Inl DatabaseError)
                | CommitLost applied \<Rightarrow> (if applied then work else rollback db work, Inl DatabaseError)
                | _ \<Rightarrow> (work, Inr (account\<lparr>Balance := newBalance\<rparr>)))))"

definition svc_Deposit ::
  "db_fault \<Rightarrow> string \<Rightarrow> rat \<Rightarrow> bank_db \<Rightarrow> bank_db \<times> (bank_error + bank_account)" where
  "svc_Deposit fault num amount db =
     (if amount \<le> 0 then (db, Inl AmountNotPositive)
      else if fault = FailAt CallBegin then (db, Inl DatabaseError)
      else case GetByAccountNumberForUpdate fault num db of
             Inl e \<Rightarrow> (db, Inl e)
           | Inr account \<Rightarrow>
               let newBalance = fl (Balance account + amount)
               in book fault account ''deposit'' amount newBalance db)"

definition svc_Withdraw ::
  "db_fault \<Rightarrow> string \<Rightarrow> rat \<Rightarrow> bank_db \<Rightarrow> bank_db \<times> (bank_error + bank_account)" where
  "svc_Withdraw fault num amount db =
     (if amount \<le> 0 then (db, Inl AmountNotPositive)
      else if fault = FailAt CallBegin then (db, Inl DatabaseError)
      else case GetByAccountNumberForUpdate fault num db of
             Inl e \<Rightarrow> (db, Inl e)
           | Inr account \<Rightarrow>
               if Balance account < amount then (db, Inl ErrInsufficientFunds)
               else let newBalance = fl (Balance account - amount)
                    in book fault account ''withdrawal'' amount newBalance db)"

definition svc_ListTransactions ::
  "(tx_row list \<Rightarrow> tx_row list) \<Rightarrow> db_fault \<Rightarrow> string \<Rightarrow> int \<Rightarrow> int \<Rightarrow> bank_db \<Rightarrow> bank_error + bank_transaction list" where
  "svc_ListTransactions order fault num limit offset db =
     (case GetByAccountNumber fault num db of
        Inl e \<Rightarrow> Inl e
      | Inr account \<Rightarrow> ListByAccountID order fault (ID account) limit offset db)"

section \<open>Opening an account\<close>

text \<open>
  \<open>VARCHAR(n)\<close> counts characters, that is bytes that do not continue a UTF-8 sequence, and text
  columns refuse the NUL byte; other bytes that are no UTF-8 do not come out of a JSON decoder. The
  key is drawn from the sequence before the unique index is consulted. The insert is a transaction
  of its own, whose confirmation can be lost after it was applied.
\<close>

definition char_length :: "string \<Rightarrow> nat" where
  "char_length s = length (filter (\<lambda>c. (of_char c :: nat) < 128 \<or> 192 \<le> (of_char c :: nat)) s)"

definition Create_account ::
  "db_fault \<Rightarrow> string \<Rightarrow> string \<Rightarrow> bank_db \<Rightarrow> bank_db \<times> (bank_error + bank_account)" where
  "Create_account fault num owner db =
     (if fault = FailAt CallInsert \<or> CHR 0x00 \<in> set num \<or> CHR 0x00 \<in> set owner
      then (db, Inl DatabaseError)
      else let i = account_seq db; db = db\<lparr>account_seq := i + 1\<rparr>
           in if char_length num > 50 \<or> char_length owner > 100 then (db, Inl DatabaseError)
              else if select_account db num \<noteq> None then (db, Inl UniqueViolation)
              else let r = \<lparr>row_id = i, row_number = num, row_owner = owner, row_balance = 0,
                            row_created = db_now db\<rparr>;
                       work = db\<lparr>bank_accounts := bank_accounts db @ [r]\<rparr>
                   in case fault of
                        CommitLost applied \<Rightarrow> (if applied then work else db, Inl DatabaseError)
                      | _ \<Rightarrow> (work, scanAccount (Some r)))"

definition svc_CreateAccount ::
  "db_fault \<Rightarrow> string \<Rightarrow> string \<Rightarrow> bank_db \<Rightarrow> bank_db \<times> (bank_error + bank_account)" where
  "svc_CreateAccount fault num owner db =
     (case Create_account fault num owner db of
        (db, Inl e) \<Rightarrow> (db, Inl (if e = UniqueViolation then ErrAccountAlreadyExists else e))
      | (db, Inr account) \<Rightarrow> (db, Inr account))"

end
