(* ===== verification/BankFacts.thy ===== *)
theory BankFacts
  imports Bank
begin

text \<open>
  What holds of the bank: the tables stay well formed and no balance becomes negative whatever
  amount is sent and whatever call fails, a failed operation leaves the tables as they were, and
  for amounts of whole cents a booking moves exactly that many cents and keeps the books.
\<close>

section \<open>Well-formed tables\<close>

definition cents_ok :: "int \<Rightarrow> bool" where
  "cents_ok c \<longleftrightarrow> 0 \<le> c \<and> c < 10 ^ 15"

definition bank_ok :: "bank_db \<Rightarrow> bool" where
  "bank_ok db \<longleftrightarrow>
     distinct (map row_id (bank_accounts db)) \<and> distinct (map row_number (bank_accounts db)) \<and>
     (\<forall>r \<in> set (bank_accounts db). cents_ok (row_balance r) \<and> row_id r < account_seq db) \<and>
     distinct (map tx_id (transactions db)) \<and>
     (\<forall>t \<in> set (transactions db). 0 < tx_amount t \<and> tx_amount t < 10 ^ 15 \<and> tx_id t < tx_seq db \<and>
        tx_type t \<in> {''deposit'', ''withdrawal''} \<and> tx_account t \<in> row_id ` set (bank_accounts db))"

definition set_balance :: "int \<Rightarrow> int \<Rightarrow> account_row list \<Rightarrow> account_row list" where
  "set_balance i c rs = map (\<lambda>r. if row_id r = i then r\<lparr>row_balance := c\<rparr> else r) rs"

lemma set_balance_keys [simp]:
  "map row_id (set_balance i c rs) = map row_id rs"
  "map row_number (set_balance i c rs) = map row_number rs"
  by (simp_all add: set_balance_def)

lemma set_balance_ids [simp]: "row_id ` set (set_balance i c rs) = row_id ` set rs"
  using set_balance_keys(1) [of i c rs] by (metis list.set_map)

lemma has_row: "list_ex (\<lambda>r. row_id r = i) rs \<longleftrightarrow> i \<in> row_id ` set rs"
  by (metis (mono_tags, lifting) image_iff list_ex_iff)

lemma select_account_Some:
  "select_account db num = Some r \<Longrightarrow> r \<in> set (bank_accounts db) \<and> row_number r = num"
  by (auto simp: select_account_def find_Some_iff)

text \<open>What a booking that goes through leaves behind.\<close>

definition booked :: "int \<Rightarrow> string \<Rightarrow> int \<Rightarrow> int \<Rightarrow> bank_db \<Rightarrow> bank_db" where
  "booked i txType c balance db = db\<lparr>bank_accounts := set_balance i balance (bank_accounts db),
     transactions := transactions db @
       [\<lparr>tx_id = tx_seq db, tx_account = i, tx_type = txType, tx_amount = c,
         tx_description = '''', tx_created = db_now db\<rparr>],
     tx_seq := tx_seq db + 1\<rparr>"

definition same_tables :: "bank_db \<Rightarrow> bank_db \<Rightarrow> bool" where
  "same_tables db db' \<longleftrightarrow> bank_accounts db' = bank_accounts db \<and> transactions db' = transactions db \<and>
     account_seq db' = account_seq db \<and> tx_seq db \<le> tx_seq db'"

lemma same_tables_refl [simp]: "same_tables db db"
  by (simp add: same_tables_def)

lemma bank_ok_same: "bank_ok db \<Longrightarrow> same_tables db db' \<Longrightarrow> bank_ok db'"
  by (force simp: bank_ok_def same_tables_def)

lemma bank_ok_booked:
  assumes "bank_ok db" and "i \<in> row_id ` set (bank_accounts db)" and "txType \<in> {''deposit'', ''withdrawal''}"
    and "0 < c" "c < 10 ^ 15" and "cents_ok balance"
  shows "bank_ok (booked i txType c balance db)"
proof -
  have "\<forall>r \<in> set (set_balance i balance (bank_accounts db)). cents_ok (row_balance r) \<and> row_id r < account_seq db"
    using assms(1,6) by (auto simp: set_balance_def bank_ok_def)
  moreover have "tx_seq db \<notin> tx_id ` set (transactions db)" "\<forall>t \<in> set (transactions db). tx_id t < tx_seq db + 1"
    using assms(1) by (auto simp: bank_ok_def)
  ultimately show ?thesis
    using assms unfolding bank_ok_def booked_def by simp
qed

section \<open>A booking\<close>

lemma Create_transaction_cases:
  assumes "list_ex (\<lambda>r. row_id r = i) (bank_accounts db)" and "txType \<in> {''deposit'', ''withdrawal''}"
  shows "(\<exists>n. Create_transaction fault i txType amount desc db =
      (db\<lparr>tx_seq := tx_seq db + n\<rparr>, Inl DatabaseError) \<and> 0 \<le> n) \<or>
    (\<exists>c t. store_numeric amount = Some c \<and> 0 < c \<and> Create_transaction fault i txType amount desc db =
      (db\<lparr>tx_seq := tx_seq db + 1, transactions := transactions db @
         [\<lparr>tx_id = tx_seq db, tx_account = i, tx_type = txType, tx_amount = c,
           tx_description = desc, tx_created = db_now db\<rparr>]\<rparr>, Inr t))"
proof (cases "fault = FailAt CallInsert")
  case True
  then show ?thesis by (intro disjI1 exI [of _ 0]) (simp add: Create_transaction_def)
next
  case False
  show ?thesis
  proof (cases "\<exists>c. store_numeric amount = Some c \<and> 0 < c")
    case True
    with False assms show ?thesis by (intro disjI2) (auto simp: Create_transaction_def Let_def)
  next
    case no: False
    with False show ?thesis
      by (intro disjI1 exI [of _ 1]) (auto simp: Create_transaction_def Let_def split: option.split)
  qed
qed

lemma book_cases:
  assumes "book fault acct txType amount newBalance db = (db', res)"
    and "list_ex (\<lambda>r. row_id r = ID acct) (bank_accounts db)" and "txType \<in> {''deposit'', ''withdrawal''}"
  shows "(res = Inl DatabaseError \<and> same_tables db db') \<or>
    (\<exists>c balance. store_numeric amount = Some c \<and> 0 < c \<and> store_numeric newBalance = Some balance \<and>
       db' = booked (ID acct) txType c balance db \<and>
       (res = Inr (acct\<lparr>Balance := newBalance\<rparr>) \<or> res = Inl DatabaseError \<and> fault = CommitLost True))"
proof (cases "UpdateBalance fault (ID acct) newBalance db")
  case (Inl e)
  with assms(1) show ?thesis by (auto simp: book_def UpdateBalance_def split: if_splits option.splits)
next
  case (Inr work)
  then obtain balance where b: "store_numeric newBalance = Some balance"
    and w: "work = db\<lparr>bank_accounts := set_balance (ID acct) balance (bank_accounts db)\<rparr>"
    by (auto simp: UpdateBalance_def set_balance_def split: if_splits option.splits)
  have ex: "list_ex (\<lambda>r. row_id r = ID acct) (bank_accounts work)" using assms(2) by (simp add: w has_row)
  note book = assms(1) [unfolded book_def Inr sum.case]
  from Create_transaction_cases [OF ex assms(3), of fault amount "''''"] show ?thesis
  proof (elim disjE exE conjE)
    fix n assume "0 \<le> n" "Create_transaction fault (ID acct) txType amount '''' work =
      (work\<lparr>tx_seq := tx_seq work + n\<rparr>, Inl DatabaseError)"
    with book show ?thesis by (auto simp: rollback_def same_tables_def w)
  next
    fix c t assume c: "store_numeric amount = Some c" "0 < c" and
      "Create_transaction fault (ID acct) txType amount '''' work =
        (work\<lparr>tx_seq := tx_seq work + 1, transactions := transactions work @
         [\<lparr>tx_id = tx_seq work, tx_account = ID acct, tx_type = txType, tx_amount = c,
           tx_description = '''', tx_created = db_now work\<rparr>]\<rparr>, Inr t)"
    with book b show ?thesis
      by (cases fault) (auto simp: rollback_def same_tables_def booked_def w split: db_call.splits if_splits)
  qed
qed

lemma book_exact:
  assumes "store_numeric amount = Some c" and "0 < c" and "store_numeric newBalance = Some balance"
    and "list_ex (\<lambda>r. row_id r = ID acct) (bank_accounts db)" and "txType \<in> {''deposit'', ''withdrawal''}"
  shows "book NoFault acct txType amount newBalance db =
    (booked (ID acct) txType c balance db, Inr (acct\<lparr>Balance := newBalance\<rparr>))"
proof -
  let ?work = "db\<lparr>bank_accounts := set_balance (ID acct) balance (bank_accounts db)\<rparr>"
  have "UpdateBalance NoFault (ID acct) newBalance db = Inr ?work"
    using assms(3) by (simp add: UpdateBalance_def set_balance_def)
  moreover have "list_ex (\<lambda>r. row_id r = ID acct) (bank_accounts ?work)" using assms(4) by (simp add: has_row)
  ultimately show ?thesis
    using assms(1,2,5) by (auto simp: book_def Create_transaction_def Let_def booked_def)
qed

section \<open>Deposits and withdrawals\<close>

lemma selected_row:
  assumes "GetByAccountNumberForUpdate fault num db = Inr acct"
  shows "\<exists>r. select_account db num = Some r \<and> ID acct = row_id r \<and> Balance acct = load_numeric (row_balance r) \<and>
    AccountNumber acct = num \<and> list_ex (\<lambda>r. row_id r = ID acct) (bank_accounts db)"
  using assms select_account_Some [of db num]
  by (auto simp: GetByAccountNumberForUpdate_def scan_number_def scanAccount_def has_row split: if_splits option.splits)

definition booking_of ::
  "bank_db \<Rightarrow> db_fault \<Rightarrow> string \<Rightarrow> string \<Rightarrow> rat \<Rightarrow> (rat \<Rightarrow> rat) \<Rightarrow> bank_db \<Rightarrow> bank_error + bank_account \<Rightarrow> bool" where
  "booking_of db fault num txType amount f db' res \<longleftrightarrow>
     (\<exists>e. res = Inl e \<and> same_tables db db') \<or>
     (\<exists>r c balance. select_account db num = Some r \<and> store_numeric amount = Some c \<and> 0 < c \<and>
        store_numeric (f (load_numeric (row_balance r))) = Some balance \<and>
        db' = booked (row_id r) txType c balance db \<and>
        ((\<exists>acct. res = Inr acct \<and> AccountNumber acct = num \<and> Balance acct = f (load_numeric (row_balance r))) \<or>
         res = Inl DatabaseError \<and> fault = CommitLost True))"

lemma booking_refused: "(db', res) = (db, Inl e) \<Longrightarrow> booking_of db fault num txType amount f db' res"
  by (simp add: booking_of_def)

lemma book_booking:
  assumes "GetByAccountNumberForUpdate fault num db = Inr acct" and "txType \<in> {''deposit'', ''withdrawal''}"
    and "book fault acct txType amount (f (Balance acct)) db = (db', res)"
  shows "booking_of db fault num txType amount f db' res"
proof -
  from selected_row [OF assms(1)] obtain r where r: "select_account db num = Some r" "ID acct = row_id r"
    "Balance acct = load_numeric (row_balance r)" "AccountNumber acct = num"
    "list_ex (\<lambda>r. row_id r = ID acct) (bank_accounts db)" by blast
  from book_cases [OF assms(3) r(5) assms(2)] show ?thesis
    unfolding booking_of_def by (elim disjE) (use r in auto)
qed

lemma svc_Deposit_booking:
  assumes "svc_Deposit fault num amount db = (db', res)"
  shows "booking_of db fault num ''deposit'' amount (\<lambda>b. fl (b + amount)) db' res"
proof (cases "amount \<le> 0 \<or> fault = FailAt CallBegin")
  case True
  with assms show ?thesis by (auto simp: svc_Deposit_def booking_of_def split: if_splits)
next
  case False
  show ?thesis
  proof (cases "GetByAccountNumberForUpdate fault num db")
    case (Inl e)
    with False assms show ?thesis by (intro booking_refused [of _ _ _ e]) (simp add: svc_Deposit_def)
  next
    case (Inr acct)
    from False assms have "book fault acct ''deposit'' amount (fl (Balance acct + amount)) db = (db', res)"
      by (auto simp: svc_Deposit_def Inr)
    then show ?thesis
      using book_booking [OF Inr, of "''deposit''" amount "\<lambda>b. fl (b + amount)" db' res] by simp
  qed
qed

lemma svc_Withdraw_booking:
  assumes "svc_Withdraw fault num amount db = (db', res)"
  shows "booking_of db fault num ''withdrawal'' amount (\<lambda>b. fl (b - amount)) db' res"
proof (cases "amount \<le> 0 \<or> fault = FailAt CallBegin")
  case True
  with assms show ?thesis by (auto simp: svc_Withdraw_def booking_of_def split: if_splits)
next
  case False
  show ?thesis
  proof (cases "GetByAccountNumberForUpdate fault num db")
    case (Inl e)
    with False assms show ?thesis by (intro booking_refused [of _ _ _ e]) (simp add: svc_Withdraw_def)
  next
    case (Inr acct)
    show ?thesis
    proof (cases "Balance acct < amount")
      case True
      with False assms Inr show ?thesis
        by (intro booking_refused [of _ _ _ ErrInsufficientFunds]) (simp add: svc_Withdraw_def)
    next
      case covered: False
      with False assms have "book fault acct ''withdrawal'' amount (fl (Balance acct - amount)) db = (db', res)"
        by (auto simp: svc_Withdraw_def Inr)
      then show ?thesis
        using book_booking [OF Inr, of "''withdrawal''" amount "\<lambda>b. fl (b - amount)" db' res] by simp
    qed
  qed
qed

section \<open>The invariant and the books\<close>

lemma booking_tables:
  assumes "booking_of db fault num txType amount f db' res"
  obtains "same_tables db db'"
    | r c balance where "select_account db num = Some r" "store_numeric amount = Some c" "0 < c"
        "store_numeric (f (load_numeric (row_balance r))) = Some balance"
        "db' = booked (row_id r) txType c balance db"
  using assms unfolding booking_of_def by blast

lemma booking_ok:
  assumes "booking_of db fault num txType amount f db' res" and "bank_ok db"
    and "txType \<in> {''deposit'', ''withdrawal''}" and "0 \<le> amount"
    and "\<And>r. select_account db num = Some r \<Longrightarrow> store_numeric (f (load_numeric (row_balance r))) \<noteq> None \<Longrightarrow>
           db' \<noteq> db \<Longrightarrow> 0 \<le> f (load_numeric (row_balance r))"
  shows "bank_ok db'"
  using assms(1)
proof (cases rule: booking_tables)
  case 1
  with assms(2) show ?thesis by (rule bank_ok_same)
next
  case (2 r c balance)
  note r = 2(1) and c = 2(2,3) and b = 2(4) and db' = 2(5)
  have "tx_seq db' \<noteq> tx_seq db" by (simp add: db' booked_def)
  then have "0 \<le> f (load_numeric (row_balance r))" using assms(5) [OF r] b by auto
  then have "cents_ok balance" using store_nonneg b by (simp add: cents_ok_def)
  moreover have "c < 10 ^ 15" using store_nonneg [OF assms(4) c(1)] by simp
  ultimately show ?thesis
    unfolding db' using assms(2,3) c select_account_Some [OF r] by (intro bank_ok_booked) auto
qed

lemma load_nonneg: "0 \<le> c \<Longrightarrow> 0 \<le> load_numeric c"
  by (simp add: load_numeric_def fl_nonneg)

lemma row_cents: "bank_ok db \<Longrightarrow> select_account db num = Some r \<Longrightarrow> cents_ok (row_balance r)"
  using select_account_Some [of db num r] by (auto simp: bank_ok_def)

lemma svc_Deposit_ok:
  assumes "svc_Deposit fault num amount db = (db', res)" and "bank_ok db"
  shows "bank_ok db'"
proof (cases "amount \<le> 0")
  case True
  with assms show ?thesis by (simp add: svc_Deposit_def)
next
  case False
  show ?thesis
    by (rule booking_ok [OF svc_Deposit_booking [OF assms(1)] assms(2)])
      (use False row_cents [OF assms(2)] in \<open>auto simp: cents_ok_def intro!: fl_nonneg add_nonneg_nonneg load_nonneg\<close>)
qed

lemma svc_Withdraw_covered:
  assumes "svc_Withdraw fault num amount db = (db', res)" and "db' \<noteq> db" and "select_account db num = Some r"
  shows "amount \<le> load_numeric (row_balance r)"
  using assms by (auto simp: svc_Withdraw_def GetByAccountNumberForUpdate_def scan_number_def scanAccount_def split: if_splits)

lemma svc_Withdraw_ok:
  assumes "svc_Withdraw fault num amount db = (db', res)" and "bank_ok db"
  shows "bank_ok db'"
proof (cases "amount \<le> 0")
  case True
  with assms show ?thesis by (simp add: svc_Withdraw_def)
next
  case False
  show ?thesis
    by (rule booking_ok [OF svc_Withdraw_booking [OF assms(1)] assms(2)])
      (use False svc_Withdraw_covered [OF assms(1)] in \<open>auto intro!: fl_nonneg\<close>)
qed

subsection \<open>Whole cents\<close>

lemma Deposit_exact:
  assumes "bank_ok db" and "select_account db num = Some r" and "0 < a" and "row_balance r + a < 10 ^ 15"
  shows "\<exists>acct. svc_Deposit NoFault num (load_numeric a) db =
    (booked (row_id r) ''deposit'' a (row_balance r + a) db, Inr acct) \<and> AccountNumber acct = num"
proof -
  have cents: "0 \<le> row_balance r" using row_cents [OF assms(1,2)] by (simp add: cents_ok_def)
  have row: "r \<in> set (bank_accounts db)" "row_number r = num" using select_account_Some [OF assms(2)] by auto
  let ?acct = "\<lparr>ID = row_id r, AccountNumber = row_number r, OwnerName = row_owner r,
    Balance = load_numeric (row_balance r), CreatedAt = row_created r\<rparr>"
  have "svc_Deposit NoFault num (load_numeric a) db =
      book NoFault ?acct ''deposit'' (load_numeric a) (fl (load_numeric (row_balance r) + load_numeric a)) db"
    using assms load_pos [of a] cents
    by (simp add: svc_Deposit_def GetByAccountNumberForUpdate_def scan_number_def scanAccount_def not_le)
  also have "\<dots> = (booked (ID ?acct) ''deposit'' a (row_balance r + a) db,
      Inr (?acct\<lparr>Balance := fl (load_numeric (row_balance r) + load_numeric a)\<rparr>))"
    by (rule book_exact) (use assms cents row in \<open>auto simp: store_load store_add has_row\<close>)
  finally show ?thesis using row by auto
qed

lemma Withdraw_exact:
  assumes "bank_ok db" and "select_account db num = Some r" and "0 < a" and "a \<le> row_balance r"
  shows "\<exists>acct. svc_Withdraw NoFault num (load_numeric a) db =
    (booked (row_id r) ''withdrawal'' a (row_balance r - a) db, Inr acct) \<and> AccountNumber acct = num"
proof -
  have cents: "0 \<le> row_balance r" "row_balance r < 10 ^ 15" using row_cents [OF assms(1,2)] by (auto simp: cents_ok_def)
  have row: "r \<in> set (bank_accounts db)" "row_number r = num" using select_account_Some [OF assms(2)] by auto
  let ?acct = "\<lparr>ID = row_id r, AccountNumber = row_number r, OwnerName = row_owner r,
    Balance = load_numeric (row_balance r), CreatedAt = row_created r\<rparr>"
  have "svc_Withdraw NoFault num (load_numeric a) db =
      book NoFault ?acct ''withdrawal'' (load_numeric a) (fl (load_numeric (row_balance r) - load_numeric a)) db"
    using assms load_pos [of a] cents load_less [of a "row_balance r"]
    by (simp add: svc_Withdraw_def GetByAccountNumberForUpdate_def scan_number_def scanAccount_def not_le)
  also have "\<dots> = (booked (ID ?acct) ''withdrawal'' a (row_balance r - a) db,
      Inr (?acct\<lparr>Balance := fl (load_numeric (row_balance r) - load_numeric a)\<rparr>))"
    by (rule book_exact) (use assms cents row in \<open>auto simp: store_load store_sub has_row\<close>)
  finally show ?thesis using row by auto
qed

lemma Withdraw_refused:
  assumes "bank_ok db" and "select_account db num = Some r" and "row_balance r < a" and "a < 10 ^ 15"
  shows "svc_Withdraw NoFault num (load_numeric a) db = (db, Inl ErrInsufficientFunds)"
proof -
  have cents: "0 \<le> row_balance r" "row_balance r < 10 ^ 15" using row_cents [OF assms(1,2)] by (auto simp: cents_ok_def)
  with assms load_pos [of a] load_less [of a "row_balance r"] show ?thesis
    by (simp add: svc_Withdraw_def GetByAccountNumberForUpdate_def scan_number_def scanAccount_def not_le)
qed

subsection \<open>The ledger\<close>

definition ledger :: "int \<Rightarrow> tx_row list \<Rightarrow> int" where
  "ledger i ts = sum_list (map (\<lambda>t. if tx_account t \<noteq> i then 0
     else if tx_type t = ''deposit'' then tx_amount t else - tx_amount t) ts)"

definition books_agree :: "bank_db \<Rightarrow> bool" where
  "books_agree db \<longleftrightarrow> (\<forall>r \<in> set (bank_accounts db). row_balance r = ledger (row_id r) (transactions db))"

lemma books_agree_booked:
  assumes "books_agree db" and "r \<in> set (bank_accounts db)" and "distinct (map row_id (bank_accounts db))"
    and "balance = row_balance r + (if txType = ''deposit'' then c else - c)"
  shows "books_agree (booked (row_id r) txType c balance db)"
proof -
  have "q = r" if "q \<in> set (bank_accounts db)" "row_id q = row_id r" for q
    using assms(2,3) that by (metis distinct_map inj_onD)
  with assms(1,2,4) show ?thesis
    by (auto simp: books_agree_def booked_def set_balance_def ledger_def)
qed

end
