(* ===== verification/BankHandlers.thy ===== *)
theory BankHandlers
  imports BankFacts
begin

text \<open>
  The HTTP handlers of the bank (\<open>internal/handler/account.go\<close>, \<open>deposit.go\<close>, \<open>withdraw.go\<close>,
  \<open>transaction.go\<close>, and \<open>admin.go\<close> of the variant with an admin role). A handler gets the
  claims its middleware put into the context; without any, the nil pointer makes it panic. It
  returns the database it leaves and the response.
\<close>

section \<open>Claims\<close>

record claims =
  Sub :: string
  PreferredUsername :: string
  Email :: string
  BankAccountNumber :: string

definition nil_dereference :: served where
  "nil_dereference = Panicked ''invalid memory address or nil pointer dereference''"

section \<open>Numbers in JSON\<close>

text \<open>The value of a JSON number literal, and the \<open>float64\<close> it decodes to.\<close>

definition exponent_value :: "string \<Rightarrow> int" where
  "exponent_value s = (case s of
      [] \<Rightarrow> 0
    | _ # ds \<Rightarrow> if take 1 ds = ''-'' then - digits_val (drop 1 ds)
                else if take 1 ds = ''+'' then digits_val (drop 1 ds) else digits_val ds)"

definition literal_value :: "string \<Rightarrow> rat" where
  "literal_value lit =
     (let neg = (take 1 lit = ''-'');
          s = (if neg then drop 1 lit else lit);
          whole = takeWhile is_digit s; s = dropWhile is_digit s;
          frac = (if take 1 s = ''.'' then takeWhile is_digit (drop 1 s) else []);
          s = (if take 1 s = ''.'' then dropWhile is_digit (drop 1 s) else s);
          v = of_int (digits_val (whole @ frac)) * pow10 (exponent_value s - int (length frac))
      in if neg then - v else v)"

fun json_float :: "json \<Rightarrow> rat option" where
  "json_float (JNum lit) =
     (let x = fl (literal_value lit) in if \<bar>x\<bar> < pow2 1024 then Some x else None)"
| "json_float _ = None"

definition JFloat :: "rat \<Rightarrow> json" where
  "JFloat x = JNum (json_float_text x)"

definition errorResponse :: "string \<Rightarrow> json" where
  "errorResponse msg = JObj [(''error'', JStr msg)]"

definition bank_respond :: "nat \<Rightarrow> json \<Rightarrow> served" where
  "bank_respond code v = write_json Map.empty code v"

section \<open>Handlers\<close>

definition GetAccount :: "db_fault \<Rightarrow> 'a claims_scheme option \<Rightarrow> bank_db \<Rightarrow> served" where
  "GetAccount fault claims db =
     (case claims of
        None \<Rightarrow> nil_dereference
      | Some cl \<Rightarrow>
          (case svc_GetAccount fault (BankAccountNumber cl) db of
             Inl e \<Rightarrow> if e = ErrNotFound
                      then bank_respond 404 (errorResponse ''no bank account found for this user'')
                      else bank_respond 500 (errorResponse ''internal error'')
           | Inr account \<Rightarrow> bank_respond 200 (JObj [(''account_number'', JStr (AccountNumber account)),
               (''owner_name'', JStr (OwnerName account)), (''balance'', JFloat (Balance account)),
               (''created_at'', JStr (RFC3339Nano (CreatedAt account)))])))"

definition balance_json :: "bank_account \<Rightarrow> json" where
  "balance_json account = JObj [(''account_number'', JStr (AccountNumber account)),
     (''balance'', JFloat (Balance account))]"

definition Deposit ::
  "db_fault \<Rightarrow> 'a claims_scheme option \<Rightarrow> request \<Rightarrow> bank_db \<Rightarrow> bank_db \<times> served" where
  "Deposit fault claims r db =
     (let (decoded, amount) = decode_field json_float ''amount'' 0 (req_body r)
      in if \<not> decoded \<or> amount \<le> 0
         then (db, bank_respond 400 (errorResponse ''amount must be a positive number''))
         else case claims of
                None \<Rightarrow> (db, nil_dereference)
              | Some cl \<Rightarrow>
                  (case svc_Deposit fault (BankAccountNumber cl) amount db of
                     (db, Inl e) \<Rightarrow>
                       (db, if e = ErrNotFound
                            then bank_respond 404 (errorResponse ''no bank account found for this user'')
                            else bank_respond 500 (errorResponse ''internal error''))
                   | (db, Inr account) \<Rightarrow> (db, bank_respond 200 (balance_json account))))"

definition Withdraw ::
  "db_fault \<Rightarrow> 'a claims_scheme option \<Rightarrow> request \<Rightarrow> bank_db \<Rightarrow> bank_db \<times> served" where
  "Withdraw fault claims r db =
     (let (decoded, amount) = decode_field json_float ''amount'' 0 (req_body r)
      in if \<not> decoded \<or> amount \<le> 0
         then (db, bank_respond 400 (errorResponse ''amount must be a positive number''))
         else case claims of
                None \<Rightarrow> (db, nil_dereference)
              | Some cl \<Rightarrow>
                  (case svc_Withdraw fault (BankAccountNumber cl) amount db of
                     (db, Inl e) \<Rightarrow>
                       (db, if e = ErrNotFound
                            then bank_respond 404 (errorResponse ''no bank account found for this user'')
                            else if e = ErrInsufficientFunds
                            then bank_respond 422 (errorResponse ''insufficient funds'')
                            else bank_respond 500 (errorResponse ''internal error''))
                   | (db, Inr account) \<Rightarrow> (db, bank_respond 200 (balance_json account))))"

definition queryInt :: "request \<Rightarrow> string \<Rightarrow> int \<Rightarrow> int" where
  "queryInt r key defaultVal =
     (let s = Query_Get r key
      in if s = '''' then defaultVal
         else case ParseInt s of
                None \<Rightarrow> defaultVal
              | Some v \<Rightarrow> if v < 0 then defaultVal else v)"

text \<open>A description is omitted when it is empty.\<close>

definition transaction_json :: "bank_transaction \<Rightarrow> json" where
  "transaction_json t = JObj ([(''id'', JInt (TxID t)), (''type'', JStr (TxType t)),
     (''amount'', JFloat (Amount t))] @
     (if Description t = '''' then [] else [(''description'', JStr (Description t))]) @
     [(''created_at'', JStr (RFC3339Nano (TxCreatedAt t)))])"

definition page_limit :: "request \<Rightarrow> int" where
  "page_limit r = (let limit = queryInt r ''limit'' 20 in if limit < 1 \<or> limit > 100 then 20 else limit)"

definition ListTransactions ::
  "(tx_row list \<Rightarrow> tx_row list) \<Rightarrow> db_fault \<Rightarrow> 'a claims_scheme option \<Rightarrow> request \<Rightarrow> bank_db \<Rightarrow> served" where
  "ListTransactions order fault claims r db =
     (let limit = page_limit r; offset = queryInt r ''offset'' 0
      in case claims of
           None \<Rightarrow> nil_dereference
         | Some cl \<Rightarrow>
             (case svc_ListTransactions order fault (BankAccountNumber cl) limit offset db of
                Inl e \<Rightarrow> if e = ErrNotFound
                         then bank_respond 404 (errorResponse ''no bank account found for this user'')
                         else bank_respond 500 (errorResponse ''internal error'')
              | Inr txs \<Rightarrow> bank_respond 200 (JObj [(''transactions'', JArr (map transaction_json txs))])))"

text \<open>Decoding an object into two string fields.\<close>

definition CreateAccount :: "db_fault \<Rightarrow> request \<Rightarrow> bank_db \<Rightarrow> bank_db \<times> served" where
  "CreateAccount fault r db =
     (let (good1, num) = decode_field json_string ''account_number'' '''' (req_body r);
          (good2, owner) = decode_field json_string ''owner_name'' '''' (req_body r)
      in if \<not> good1 \<or> \<not> good2 then (db, bank_respond 400 (errorResponse ''invalid request body''))
         else if num = '''' \<or> owner = ''''
         then (db, bank_respond 400 (errorResponse ''account_number and owner_name are required''))
         else case svc_CreateAccount fault num owner db of
                (db, Inl e) \<Rightarrow>
                  (db, if e = ErrAccountAlreadyExists
                       then bank_respond 409 (errorResponse ''an account with this number already exists'')
                       else bank_respond 500 (errorResponse ''internal error''))
              | (db, Inr account) \<Rightarrow>
                  (db, bank_respond 201 (JObj [(''account_number'', JStr (AccountNumber account)),
                     (''balance'', JFloat (Balance account)), (''owner_name'', JStr (OwnerName account))])))"

end
