(* ===== verification/Keycloak.thy ===== *)
theory Keycloak
  imports BankHandlers "HOL-Library.AList"
begin

text \<open>
  The Keycloak admin client (\<open>internal/admin/keycloak.go\<close>). The HTTP transport is an argument:
  it takes a request and the state of the outside world and gives the new state and the response,
  or no response. A decoded JSON document is a Go \<open>map[string]any\<close>: an association list with one
  entry per key, written back with sorted keys and numbers that went through \<open>float64\<close>.
\<close>

section \<open>Documents as maps\<close>

definition map_insert :: "string \<times> json \<Rightarrow> (string \<times> json) list \<Rightarrow> (string \<times> json) list" where
  "map_insert kv m = AList.update (fst kv) (snd kv) m"

definition members_map :: "(string \<times> json) list \<Rightarrow> (string \<times> json) list" where
  "members_map ms = fold map_insert ms []"

text \<open>What decoding into \<open>any\<close> and encoding again makes of a value.\<close>

primrec go_any :: "json \<Rightarrow> json" where
  "go_any JNull = JNull"
| "go_any (JBool b) = JBool b"
| "go_any (JNum lit) = JFloat (fl (literal_value lit))"
| "go_any (JStr s) = JStr s"
| "go_any (JArr xs) = JArr (map go_any xs)"
| "go_any (JObj ms) = JObj (sort_key fst (members_map (map (map_prod id go_any) ms)))"

datatype go_map = NilMap | GoMap "(string \<times> json) list"

text \<open>
  \<open>json.Unmarshal\<close> into \<open>map[string]any\<close>: \<open>null\<close> leaves the nil map, and a number beyond the range
  of \<open>float64\<close> anywhere in the document is an error.
\<close>

primrec fits_any :: "json \<Rightarrow> bool" where
  "fits_any JNull = True"
| "fits_any (JBool b) = True"
| "fits_any (JNum lit) = (json_float (JNum lit) \<noteq> None)"
| "fits_any (JStr s) = True"
| "fits_any (JArr xs) = list_all id (map fits_any xs)"
| "fits_any (JObj ms) = list_all snd (map (map_prod id fits_any) ms)"

definition unmarshal_map :: "json option \<Rightarrow> go_map option" where
  "unmarshal_map body = (case body of
      Some (JObj ms) \<Rightarrow> if fits_any (JObj ms) then Some (GoMap (members_map ms)) else None
    | Some JNull \<Rightarrow> Some NilMap
    | _ \<Rightarrow> None)"

definition marshal_map :: "(string \<times> json) list \<Rightarrow> json" where
  "marshal_map m = JObj (sort_key fst (map (map_prod id go_any) m))"

section \<open>URLs and forms\<close>

definition hex_digit :: "nat \<Rightarrow> char" where
  "hex_digit n = ''0123456789ABCDEF'' ! n"

definition percent :: "char \<Rightarrow> string" where
  "percent c = (let n = of_char c :: nat in [CHR ''%'', hex_digit (n div 16), hex_digit (n mod 16)])"

definition unreserved :: "char \<Rightarrow> bool" where
  "unreserved c \<longleftrightarrow> (let n = of_char c :: nat in
     48 \<le> n \<and> n \<le> 57 \<or> 65 \<le> n \<and> n \<le> 90 \<or> 97 \<le> n \<and> n \<le> 122) \<or> c \<in> set ''-_.~''"

definition PathEscape :: "string \<Rightarrow> string" where
  "PathEscape s = concat (map (\<lambda>c. if unreserved c \<or> c \<in> set ''$&+:=@'' then [c] else percent c) s)"

definition QueryEscape :: "string \<Rightarrow> string" where
  "QueryEscape s = concat (map (\<lambda>c. if unreserved c then [c] else if c = CHR '' '' then ''+'' else percent c) s)"

definition Values_Encode :: "(string \<times> string) list \<Rightarrow> string" where
  "Values_Encode kvs = Join (map (\<lambda>(k, v). QueryEscape k @ ''='' @ QueryEscape v) (sort_key fst kvs)) ''&''"

section \<open>The client\<close>

datatype out_body = NoContent | FormContent string | JsonContent json

record out_request =
  out_method :: string
  out_url :: string
  out_auth :: string
  out_body :: out_body

text \<open>A response: its status, the first JSON value of its body, and its body as one JSON value.\<close>

record in_response =
  in_status :: nat
  in_first :: "json option"
  in_whole :: "json option"

type_synonym 'w transport = "out_request \<Rightarrow> 'w \<Rightarrow> 'w \<times> in_response option"

record keycloak_admin =
  baseURL :: string
  targetRealm :: string
  kc_user :: string
  kc_pass :: string
  kc_token :: string
  kc_expiry :: int

datatype kc_error = MissingArgument | Unreachable | BadStatus nat | BadDocument
datatype 'a kc_result = KcOk 'a | KcErr kc_error | KcPanic

definition New_admin :: "string \<Rightarrow> string \<Rightarrow> string \<Rightarrow> string \<Rightarrow> keycloak_admin" where
  "New_admin base realm usr pass = \<lparr>baseURL = base, targetRealm = realm, kc_user = usr, kc_pass = pass,
     kc_token = '''', kc_expiry = 0\<rparr>"

text \<open>\<open>now\<close> is the reading of the clock before the exchange, \<open>later\<close> the one after it.\<close>

definition token_request :: "keycloak_admin \<Rightarrow> out_request" where
  "token_request k = \<lparr>out_method = ''POST'',
     out_url = baseURL k @ ''/realms/master/protocol/openid-connect/token'', out_auth = '''',
     out_body = FormContent (Values_Encode [(''grant_type'', ''password''), (''client_id'', ''admin-cli''),
       (''username'', kc_user k), (''password'', kc_pass k)])\<rparr>"

definition token_ttl :: "int \<Rightarrow> int" where
  "token_ttl expiresIn = (let ttl = wrap64 (expiresIn - 30) in if ttl < 30 then 30 else ttl)"

definition adminToken ::
  "'w transport \<Rightarrow> int \<Rightarrow> int \<Rightarrow> keycloak_admin \<Rightarrow> 'w \<Rightarrow> keycloak_admin \<times> 'w \<times> string kc_result" where
  "adminToken send now later k w =
     (if kc_token k \<noteq> '''' \<and> now < kc_expiry k then (k, w, KcOk (kc_token k))
      else case send (token_request k) w of
             (w, None) \<Rightarrow> (k, w, KcErr Unreachable)
           | (w, Some resp) \<Rightarrow>
               if in_status resp \<noteq> 200 then (k, w, KcErr (BadStatus (in_status resp)))
               else let (good1, tok) = decode_field json_string ''access_token'' '''' (in_first resp);
                        (good2, expires) = decode_field json_int ''expires_in'' 0 (in_first resp)
                    in if \<not> good1 \<or> \<not> good2 then (k, w, KcErr BadDocument)
                       else (k\<lparr>kc_token := tok,
                               kc_expiry := later + wrap64 (token_ttl expires * nanos_per_second)\<rparr>,
                             w, KcOk tok))"

definition realm_url :: "keycloak_admin \<Rightarrow> string \<Rightarrow> string" where
  "realm_url k path = baseURL k @ ''/admin/realms/'' @ targetRealm k @ path"

definition bearer :: "string \<Rightarrow> string" where
  "bearer tok = ''Bearer '' @ tok"

definition clearUserCache ::
  "'w transport \<Rightarrow> keycloak_admin \<Rightarrow> string \<Rightarrow> 'w \<Rightarrow> 'w \<times> unit kc_result" where
  "clearUserCache send k tok w =
     (case send \<lparr>out_method = ''POST'', out_url = realm_url k ''/clear-user-cache'',
                 out_auth = bearer tok, out_body = NoContent\<rparr> w of
        (w, None) \<Rightarrow> (w, KcErr Unreachable)
      | (w, Some resp) \<Rightarrow>
          (w, if in_status resp \<ge> 300 then KcErr (BadStatus (in_status resp)) else KcOk ()))"

text \<open>The user document with the address and the two attributes set.\<close>

definition with_email_mfa :: "string \<Rightarrow> (string \<times> json) list \<Rightarrow> (string \<times> json) list" where
  "with_email_mfa email usr =
     (let usr = AList.update ''email'' (JStr email) usr;
          usr = AList.update ''emailVerified'' (JBool True) usr;
          attrs = (case map_of usr ''attributes'' of Some (JObj ms) \<Rightarrow> members_map ms | _ \<Rightarrow> []);
          attrs = AList.update ''mfa_enabled'' (JArr [JStr ''true'']) attrs;
          attrs = AList.update ''mfa_method'' (JArr [JStr ''email'']) attrs
      in AList.update ''attributes'' (JObj attrs) usr)"

definition EnableEmailMFA_put ::
  "'w transport \<Rightarrow> keycloak_admin \<Rightarrow> string \<Rightarrow> string \<Rightarrow> (string \<times> json) list \<Rightarrow> 'w \<Rightarrow> 'w \<times> unit kc_result" where
  "EnableEmailMFA_put send k tok userURL usr w =
     (case send \<lparr>out_method = ''PUT'', out_url = userURL, out_auth = bearer tok,
                 out_body = JsonContent (marshal_map usr)\<rparr> w of
        (w, None) \<Rightarrow> (w, KcErr Unreachable)
      | (w, Some resp) \<Rightarrow>
          if in_status resp \<ge> 300 then (w, KcErr (BadStatus (in_status resp)))
          else clearUserCache send k tok w)"

definition EnableEmailMFA ::
  "'w transport \<Rightarrow> int \<Rightarrow> int \<Rightarrow> string \<Rightarrow> string \<Rightarrow> keycloak_admin \<Rightarrow> 'w
     \<Rightarrow> keycloak_admin \<times> 'w \<times> unit kc_result" where
  "EnableEmailMFA send now later userID email k w =
     (if userID = '''' \<or> email = '''' then (k, w, KcErr MissingArgument)
      else case adminToken send now later k w of
             (k, w, KcErr e) \<Rightarrow> (k, w, KcErr e)
           | (k, w, KcPanic) \<Rightarrow> (k, w, KcPanic)
           | (k, w, KcOk tok) \<Rightarrow>
               let userURL = realm_url k (''/users/'' @ PathEscape userID)
               in case send \<lparr>out_method = ''GET'', out_url = userURL, out_auth = bearer tok, out_body = NoContent\<rparr> w of
                    (w, None) \<Rightarrow> (k, w, KcErr Unreachable)
                  | (w, Some resp) \<Rightarrow>
                      if in_status resp \<noteq> 200 then (k, w, KcErr (BadStatus (in_status resp)))
                      else case unmarshal_map (in_whole resp) of
                             None \<Rightarrow> (k, w, KcErr BadDocument)
                           | Some NilMap \<Rightarrow> (k, w, KcPanic)
                           | Some (GoMap usr) \<Rightarrow>
                               (k, EnableEmailMFA_put send k tok userURL (with_email_mfa email usr) w))"

definition EnsureUnmanagedAttributesEnabled ::
  "'w transport \<Rightarrow> int \<Rightarrow> int \<Rightarrow> keycloak_admin \<Rightarrow> 'w \<Rightarrow> keycloak_admin \<times> 'w \<times> unit kc_result" where
  "EnsureUnmanagedAttributesEnabled send now later k w =
     (case adminToken send now later k w of
        (k, w, KcErr e) \<Rightarrow> (k, w, KcErr e)
      | (k, w, KcPanic) \<Rightarrow> (k, w, KcPanic)
      | (k, w, KcOk tok) \<Rightarrow>
          let url = realm_url k ''/users/profile''
          in case send \<lparr>out_method = ''GET'', out_url = url, out_auth = bearer tok, out_body = NoContent\<rparr> w of
               (w, None) \<Rightarrow> (k, w, KcErr Unreachable)
             | (w, Some resp) \<Rightarrow>
                 if in_status resp \<noteq> 200 then (k, w, KcErr (BadStatus (in_status resp)))
                 else case unmarshal_map (in_whole resp) of
                        None \<Rightarrow> (k, w, KcErr BadDocument)
                      | Some NilMap \<Rightarrow> (k, w, KcPanic)
                      | Some (GoMap profile) \<Rightarrow>
                          if map_of profile ''unmanagedAttributePolicy'' = Some (JStr ''ENABLED'') then (k, w, KcOk ())
                          else case send \<lparr>out_method = ''PUT'', out_url = url, out_auth = bearer tok,
                                  out_body = JsonContent (marshal_map
                                    (AList.update ''unmanagedAttributePolicy'' (JStr ''ENABLED'') profile))\<rparr> w of
                                 (w, None) \<Rightarrow> (k, w, KcErr Unreachable)
                               | (w, Some resp) \<Rightarrow>
                                   (k, w, if in_status resp \<ge> 300 then KcErr (BadStatus (in_status resp)) else KcOk ()))"

end
