(* ===== verification/Mux.thy ===== *)
theory Mux
  imports Http
begin

text \<open>
  The multiplexer of \<open>net/http\<close> for patterns without wildcards: a pattern is a method and a
  path, the empty method stands for any, and GET also serves HEAD. A path that is known only
  under other methods is answered with 405 and the methods it has, an unknown one with 404. Paths
  are in the clean form; that the multiplexer first redirects a path with \<open>.\<close>, \<open>..\<close> or empty
  elements to its clean form is not modelled.
\<close>

type_synonym 's route = "string \<times> string \<times> ('s \<Rightarrow> 's \<times> served)"

definition method_matches :: "string \<Rightarrow> string \<Rightarrow> bool" where
  "method_matches m meth \<longleftrightarrow> m = '''' \<or> m = meth \<or> (m = ''GET'' \<and> meth = ''HEAD'')"

definition allowed_methods :: "'s route list \<Rightarrow> string \<Rightarrow> string list" where
  "allowed_methods routes path =
     sort (remdups (concat (map (\<lambda>(m, p, _). if p = path then (if m = ''GET'' then [''GET'', ''HEAD''] else [m]) else []) routes)))"

definition not_found :: served where
  "not_found = http_Error Map.empty ''404 page not found'' 404"

definition method_not_allowed :: "string list \<Rightarrow> served" where
  "method_not_allowed ms = http_Error (header_Set Map.empty ''Allow'' (Join ms '', '')) ''Method Not Allowed'' 405"

definition mux_serve :: "'s route list \<Rightarrow> request \<Rightarrow> 's \<Rightarrow> 's \<times> served" where
  "mux_serve routes r s =
     (case find (\<lambda>(m, p, _). p = req_path r \<and> method_matches m (req_method r)) routes of
        Some (_, _, h) \<Rightarrow> h s
      | None \<Rightarrow>
          (s, case allowed_methods routes (req_path r) of
                [] \<Rightarrow> not_found
              | ms \<Rightarrow> method_not_allowed ms))"

text \<open>A request that changes the state was served by one of the routes, under its path.\<close>

lemma mux_serve_route:
  assumes "mux_serve routes r s = (s', out)" and "s' \<noteq> s"
  shows "\<exists>m h. (m, req_path r, h) \<in> set routes \<and> method_matches m (req_method r) \<and> h s = (s', out)"
  using assms
  by (auto simp: mux_serve_def split: option.splits prod.splits dest!: find_SomeD)

end
