(* ===== verification/MfaApi.thy ===== *)
theory MfaApi
  imports Enrollment Keycloak Mux
begin

text \<open>
  The banking API behind the wrapper (\<open>api-keycloak-mfa-email/api\<close>): its configuration, the
  middleware of \<open>internal/auth\<close>, the enrollment and status handlers, and the routes of
  \<open>cmd/server/main.go\<close>. The state of the process is the enrollment store, the admin client, the
  bank's database, the mails sent and the world behind Keycloak's transport. What one request
  reads from its surroundings (the clock at each point, the random number, whether the mail
  server accepts, which database call fails) is its environment.
\<close>

section \<open>Configuration\<close>

record api_config =
  DBHost :: string
  DBPort :: string
  DBUser :: string
  DBPassword :: string
  DBName :: string
  APIPort :: string
  KeycloakBaseURL :: string
  KeycloakAdminUser :: string
  KeycloakAdminPass :: string
  KeycloakTargetRealm :: string
  SMTPHost :: string
  SMTPFrom :: string
  WrapperHMACSecret :: string

definition getEnv :: "(string \<Rightarrow> string) \<Rightarrow> string \<Rightarrow> string \<Rightarrow> string" where
  "getEnv env key defaultVal = (let v = env key in if v \<noteq> '''' then v else defaultVal)"

text \<open>\<open>None\<close> is the panic over a required variable that is not set.\<close>

definition mustGetEnv :: "(string \<Rightarrow> string) \<Rightarrow> string \<Rightarrow> string option" where
  "mustGetEnv env key = (let v = env key in if v = '''' then None else Some v)"

definition api_Load :: "(string \<Rightarrow> string) \<Rightarrow> api_config option" where
  "api_Load env =
     Option.bind (mustGetEnv env ''DB_USER'') (\<lambda>usr.
     Option.bind (mustGetEnv env ''DB_PASSWORD'') (\<lambda>pass.
     Option.bind (mustGetEnv env ''DB_NAME'') (\<lambda>name.
     Option.bind (mustGetEnv env ''WRAPPER_HMAC_SECRET'') (\<lambda>secret.
     Some \<lparr>DBHost = getEnv env ''DB_HOST'' ''localhost'', DBPort = getEnv env ''DB_PORT'' ''5432'',
       DBUser = usr, DBPassword = pass, DBName = name, APIPort = getEnv env ''API_PORT'' ''8080'',
       KeycloakBaseURL = getEnv env ''KEYCLOAK_BASE_URL'' '''',
       KeycloakAdminUser = getEnv env ''KEYCLOAK_ADMIN_USER'' '''',
       KeycloakAdminPass = getEnv env ''KEYCLOAK_ADMIN_PASSWORD'' '''',
       KeycloakTargetRealm = getEnv env ''KEYCLOAK_TARGET_REALM'' '''',
       SMTPHost = getEnv env ''SMTP_HOST'' ''mailpit:1025'',
       SMTPFrom = getEnv env ''SMTP_FROM'' ''no-reply@banking.local'',
       WrapperHMACSecret = secret\<rparr>))))"

definition DBConnString :: "api_config \<Rightarrow> string" where
  "DBConnString c = ''postgres://'' @ DBUser c @ '':'' @ DBPassword c @ ''@'' @ DBHost c @ '':'' @
     DBPort c @ ''/'' @ DBName c"

section \<open>State and environment\<close>

record mail =
  mail_host :: string
  mail_from :: string
  mail_to :: string
  mail_text :: string

record 'w api_state =
  enroll :: enroll_store
  keycloak :: keycloak_admin
  bank :: bank_db
  outbox :: "mail list"
  outside :: 'w

record 'w api_env =
  at_signature :: int
  at_mfa :: int
  at_start :: int
  at_verify :: int
  at_verified :: int
  at_token :: int
  at_token_reply :: int
  at_response :: int
  random_code :: "nat option"
  mail_accepted :: bool
  db_faults :: db_fault
  tx_order :: "tx_row list \<Rightarrow> tx_row list"
  send :: "'w transport"

section \<open>Middleware\<close>

record mfa_claims = claims +
  MFAVerified :: bool
  MFAMethod :: string

type_synonym 's handler = "mfa_claims option \<Rightarrow> request \<Rightarrow> 's \<Rightarrow> 's \<times> served"

definition auth_writeJSON :: "nat \<Rightarrow> json \<Rightarrow> served" where
  "auth_writeJSON code v = write_json Map.empty code v"

lemma auth_writeJSON_eq [simp]: "auth_writeJSON = write_json Map.empty"
  by (intro ext) (simp add: auth_writeJSON_def)

definition VerifyWrapperSignature :: "string \<Rightarrow> int \<Rightarrow> 's handler \<Rightarrow> 's handler" where
  "VerifyWrapperSignature secret now next ctx r s =
     (case sig_Verify (header_Get (req_header r)) secret (now div nanos_per_second) of
        Some e \<Rightarrow> (s, auth_writeJSON 401 (JObj [(''detail'', JStr (sig_message e)),
                     (''error'', JStr ''untrusted upstream'')]))
      | None \<Rightarrow> next ctx r s)"

definition header_claims :: "request \<Rightarrow> mfa_claims" where
  "header_claims r = (let get = header_Get (req_header r) in
     \<lparr>Sub = get ''X-User-Sub'', PreferredUsername = get ''X-User-Username'', Email = get ''X-User-Email'',
      BankAccountNumber = get ''X-Bank-Account-Number'', MFAVerified = (get ''X-MFA-Verified'' = ''true''),
      MFAMethod = get ''X-MFA-Method''\<rparr>)"

definition auth_Middleware :: "'s handler \<Rightarrow> 's handler" where
  "auth_Middleware next ctx r s =
     (if header_Get (req_header r) ''X-User-Sub'' = ''''
      then (s, auth_writeJSON 401 (JObj [(''error'', JStr ''missing identity headers'')]))
      else next (Some (header_claims r)) r s)"

definition RequireMFA :: "(string \<Rightarrow> 's \<Rightarrow> 's \<times> bool) \<Rightarrow> 's handler \<Rightarrow> 's handler" where
  "RequireMFA check next ctx r s =
     (case ctx of
        None \<Rightarrow> (s, auth_writeJSON 401 (JObj [(''error'', JStr ''no claims in context'')]))
      | Some cl \<Rightarrow>
          if MFAVerified cl then next ctx r s
          else case check (Sub cl) s of
                 (s, True) \<Rightarrow> next ctx r s
               | (s, False) \<Rightarrow> (s, auth_writeJSON 403 (JObj [
                   (''error'', JStr ''mfa required for this endpoint''),
                   (''hint'', JStr ''enroll an OTP via POST /api/v1/mfa/enroll/start to step up your current session''),
                   (''method'', JStr ''email'')])))"

section \<open>Enrollment and status handlers\<close>

definition regex_space :: "char \<Rightarrow> bool" where
  "regex_space c \<longleftrightarrow> c \<in> {CHR 0x09, CHR 0x0A, CHR 0x0C, CHR 0x0D, CHR '' ''}"

text \<open>\<open>^[^@\s]+@[^@\s]+\.[^@\s]+$\<close>\<close>

definition enrollEmailRE :: "string \<Rightarrow> bool" where
  "enrollEmailRE s \<longleftrightarrow>
     (let name = takeWhile (\<lambda>c. c \<noteq> CHR ''@'') s; rest = dropWhile (\<lambda>c. c \<noteq> CHR ''@'') s
      in list_all (\<lambda>c. \<not> regex_space c) s \<and> name \<noteq> [] \<and> rest \<noteq> [] \<and>
         CHR ''@'' \<notin> set (tl rest) \<and> CHR ''.'' \<in> set (butlast (tl (tl rest))))"

definition crlf :: string where "crlf = [CHR 0x0D, CHR 0x0A]"

definition otp_mail :: "string \<Rightarrow> string \<Rightarrow> string \<Rightarrow> string" where
  "otp_mail from recipient code = ''From: '' @ from @ crlf @ ''To: '' @ recipient @ crlf @
     ''Subject: Your Banking MFA code'' @ crlf @ crlf @
     ''Your one-time MFA enrollment code is: '' @ code @ crlf @ crlf @
     ''It is valid for 5 minutes.'' @ crlf"

record mailer =
  mailer_host :: string
  mailer_from :: string

definition NewMailer :: "string \<Rightarrow> string \<Rightarrow> mailer" where
  "NewMailer host from = \<lparr>mailer_host = host, mailer_from = from\<rparr>"

text \<open>\<open>smtp.SendMail\<close> refuses line breaks in the addresses before it connects.\<close>

definition Send :: "mailer \<Rightarrow> bool \<Rightarrow> string \<Rightarrow> string \<Rightarrow> mail list \<Rightarrow> mail list \<times> bool" where
  "Send m accepted recipient code box =
     (if \<not> accepted \<or> list_ex (\<lambda>c. c = CHR 0x0D \<or> c = CHR 0x0A) (mailer_from m @ recipient) then (box, False)
      else (box @ [\<lparr>mail_host = mailer_host m, mail_from = mailer_from m, mail_to = recipient,
              mail_text = otp_mail (mailer_from m) recipient code\<rparr>], True))"

definition api_error :: "nat \<Rightarrow> string \<Rightarrow> served" where
  "api_error code msg = write_json Map.empty code (errorResponse msg)"

definition EnrollStart :: "api_config \<Rightarrow> 'w api_env \<Rightarrow> 'w api_state handler" where
  "EnrollStart cfg env ctx r s =
     (case ctx of
        None \<Rightarrow> (s, api_error 401 ''no claims in context'')
      | Some cl \<Rightarrow>
          if Sub cl = '''' then (s, api_error 401 ''no claims in context'')
          else let (decoded, email) = decode_field json_string ''email'' '''' (req_body r)
               in if \<not> decoded then (s, api_error 400 ''invalid request body'')
                  else if \<not> enrollEmailRE email then (s, api_error 400 ''invalid email address'')
                  else case Start (random_code env) (at_start env) (Sub cl) email (enroll s) of
                         (st, None) \<Rightarrow> (s\<lparr>enroll := st\<rparr>, api_error 500 ''could not allocate OTP'')
                       | (st, Some code) \<Rightarrow>
                           (case Send (NewMailer (SMTPHost cfg) (SMTPFrom cfg)) (mail_accepted env) email code (outbox s) of
                              (box, False) \<Rightarrow> (s\<lparr>enroll := st, outbox := box\<rparr>, api_error 502 ''could not send OTP email'')
                            | (box, True) \<Rightarrow> (s\<lparr>enroll := st, outbox := box\<rparr>,
                                write_json Map.empty 200 (JObj [(''status'', JStr ''code_sent''), (''email'', JStr email),
                                  (''expires_in_seconds'', JInt 300),
                                  (''note'', JStr ''check Mailpit at http://localhost:8025 for the 6-digit code'')]))))"

definition verify_status :: "enroll_error \<Rightarrow> nat" where
  "verify_status e = (if e = ErrCodeExpired \<or> e = ErrTooManyTries then 403 else 401)"

text \<open>The rest of \<open>EnrollVerify\<close> once the code was accepted.\<close>

definition EnrollVerify_persist ::
  "'w api_env \<Rightarrow> mfa_claims \<Rightarrow> 'w api_state \<Rightarrow> 'w api_state \<times> served" where
  "EnrollVerify_persist env cl s =
     (let email = fst (PendingEmail (Sub cl) (enroll s));
          email = (if email = '''' then Email cl else email);
          done = write_json Map.empty 200 (JObj [(''status'', JStr ''mfa_verified''),
            (''step_up_verified_until'', JStr (RFC3339 (at_response env + StepUpTTL))),
            (''note'', JStr ''current session is now MFA-verified; retry the protected endpoint without re-login'')])
      in if email = '''' then (s, done)
         else case EnableEmailMFA (send env) (at_token env) (at_token_reply env) (Sub cl) email
                     (keycloak s) (outside s) of
                (k, w, KcPanic) \<Rightarrow> (s\<lparr>keycloak := k, outside := w\<rparr>, Panicked ''assignment to entry in nil map'')
              | (k, w, _) \<Rightarrow> (s\<lparr>keycloak := k, outside := w\<rparr>, done))"

definition EnrollVerify :: "'w api_env \<Rightarrow> 'w api_state handler" where
  "EnrollVerify env ctx r s =
     (case ctx of
        None \<Rightarrow> (s, api_error 401 ''no claims in context'')
      | Some cl \<Rightarrow>
          if Sub cl = '''' then (s, api_error 401 ''no claims in context'')
          else let (decoded, code) = decode_field json_string ''code'' '''' (req_body r)
               in if \<not> decoded \<or> code = '''' then (s, api_error 400 ''invalid request body'')
                  else case otp_Verify (at_verify env) (at_verified env) (Sub cl) code (enroll s) of
                         (st, Some e) \<Rightarrow> (s\<lparr>enroll := st\<rparr>, api_error (verify_status e) (enroll_message e))
                       | (st, None) \<Rightarrow> EnrollVerify_persist env cl (s\<lparr>enroll := st\<rparr>))"

definition MFAStatus :: "'s handler" where
  "MFAStatus ctx r s =
     (case ctx of
        None \<Rightarrow> (s, api_error 401 ''no claims in context'')
      | Some cl \<Rightarrow> (s, write_json Map.empty 200 (JObj [(''verified'', JBool (MFAVerified cl)),
          (''method'', JStr (if MFAMethod cl = '''' then ''none'' else MFAMethod cl)),
          (''sub'', JStr (Sub cl)), (''email'', JStr (Email cl))])))"

section \<open>Routes\<close>

definition on_bank :: "(bank_db \<Rightarrow> bank_db \<times> served) \<Rightarrow> 'w api_state \<Rightarrow> 'w api_state \<times> served" where
  "on_bank f s = (case f (bank s) of (db, out) \<Rightarrow> (s\<lparr>bank := db\<rparr>, out))"

definition check_step_up :: "'w api_env \<Rightarrow> string \<Rightarrow> 'w api_state \<Rightarrow> 'w api_state \<times> bool" where
  "check_step_up env sub s =
     (case IsStepUpVerified (at_mfa env) sub (enroll s) of (st, yes) \<Rightarrow> (s\<lparr>enroll := st\<rparr>, yes))"

definition protected :: "api_config \<Rightarrow> 'w api_env \<Rightarrow> request \<Rightarrow> 'w api_state handler \<Rightarrow> 'w api_state \<Rightarrow> 'w api_state \<times> served" where
  "protected cfg env r h s =
     VerifyWrapperSignature (WrapperHMACSecret cfg) (at_signature env) (auth_Middleware h) None r s"

definition api_Deposit :: "'w api_env \<Rightarrow> 'w api_state handler" where
  "api_Deposit env ctx r s = on_bank (Deposit (db_faults env) ctx r) s"

definition api_Withdraw :: "'w api_env \<Rightarrow> 'w api_state handler" where
  "api_Withdraw env ctx r s = on_bank (Withdraw (db_faults env) ctx r) s"

definition health :: "'s \<Rightarrow> 's \<times> served" where
  "health s = (s, write_json Map.empty 200 (JObj [(''status'', JStr ''ok'')]))"

definition api_routes :: "api_config \<Rightarrow> 'w api_env \<Rightarrow> request \<Rightarrow> 'w api_state route list" where
  "api_routes cfg env r =
     [(''GET'', ''/health'', health),
      (''GET'', ''/api/v1/mfa/status'', protected cfg env r MFAStatus)] @
     (if KeycloakBaseURL cfg \<noteq> '''' then
       [(''POST'', ''/api/v1/mfa/enroll/start'', protected cfg env r (EnrollStart cfg env)),
        (''POST'', ''/api/v1/mfa/enroll/verify'', protected cfg env r (EnrollVerify env))] else []) @
     [(''GET'', ''/api/v1/accounts/me'',
         protected cfg env r (\<lambda>ctx r s. (s, GetAccount (db_faults env) ctx (bank s)))),
      (''POST'', ''/api/v1/accounts/me/deposit'',
         protected cfg env r (RequireMFA (check_step_up env) (api_Deposit env))),
      (''POST'', ''/api/v1/accounts/me/withdraw'',
         protected cfg env r (RequireMFA (check_step_up env) (api_Withdraw env))),
      (''GET'', ''/api/v1/accounts/me/transactions'',
         protected cfg env r (\<lambda>ctx r s. (s, ListTransactions (tx_order env) (db_faults env) ctx r (bank s))))]"

definition api_serve :: "api_config \<Rightarrow> 'w api_env \<Rightarrow> request \<Rightarrow> 'w api_state \<Rightarrow> 'w api_state \<times> served" where
  "api_serve cfg env r s = mux_serve (api_routes cfg env r) r s"

section \<open>Start-up\<close>

datatype api_start_error = ApiMissingVariable | ApiNoDatabase | ApiPanic

text \<open>
  \<open>db_ok\<close> tells whether the database can be opened and answers the ping. A refused change of the
  user profile is logged and does not stop the start.
\<close>

definition api_main ::
  "'w transport \<Rightarrow> int \<Rightarrow> int \<Rightarrow> bool \<Rightarrow> (string \<Rightarrow> string) \<Rightarrow> bank_db \<Rightarrow> 'w \<Rightarrow> api_start_error + api_config \<times> 'w api_state" where
  "api_main net now later db_ok env db w =
     (case api_Load env of
        None \<Rightarrow> Inl ApiMissingVariable
      | Some cfg \<Rightarrow>
          if \<not> db_ok then Inl ApiNoDatabase
          else let k = New_admin (KeycloakBaseURL cfg) (KeycloakTargetRealm cfg) (KeycloakAdminUser cfg) (KeycloakAdminPass cfg);
                   st = (\<lambda>k w. \<lparr>enroll = NewStore, keycloak = k, bank = db, outbox = [], outside = w\<rparr>)
               in if KeycloakBaseURL cfg \<noteq> '''' then
                    (case EnsureUnmanagedAttributesEnabled net now later k w of
                       (_, _, KcPanic) \<Rightarrow> Inl ApiPanic
                     | (k, w, _) \<Rightarrow> Inr (cfg, st k w))
                  else Inr (cfg, st k w))"

lemma api_main_start:
  "api_main net now later db_ok env db w = Inr (cfg, s) \<Longrightarrow> enroll s = NewStore \<and> bank s = db \<and> outbox s = []"
  by (auto simp: api_main_def Let_def split: option.splits if_splits prod.splits kc_result.splits)

end
