(* ===== verification/MfaFacts.thy ===== *)
theory MfaFacts
  imports MfaApi
begin

text \<open>
  What holds of the banking API: money moves only for a request the wrapper signed and a caller
  with a verified second factor, and only on the account the signed headers name; every other
  handler leaves the bank alone.
\<close>

section \<open>The middleware chain\<close>

definition signed :: "api_config \<Rightarrow> 'w api_env \<Rightarrow> request \<Rightarrow> bool" where
  "signed cfg env r \<longleftrightarrow>
     sig_Verify (header_Get (req_header r)) (WrapperHMACSecret cfg) (at_signature env div nanos_per_second) = None"

lemma protected_cases:
  assumes "protected cfg env r h s = (s', out)"
  obtains "s' = s" "\<exists>resp. out = Served resp \<and> resp_status resp = 401"
    | "signed cfg env r" "Sub (header_claims r) \<noteq> ''''" "h (Some (header_claims r)) r s = (s', out)"
  using assms
  by (auto simp: protected_def VerifyWrapperSignature_def auth_Middleware_def signed_def header_claims_def
      write_json_def Let_def split: option.splits if_splits)

text \<open>The gate depends on its checker only through the answer, so it inherits the contract.\<close>

lemma RequireMFA_cases:
  assumes "RequireMFA check h (Some cl) r s = (s', out)"
  obtains "MFAVerified cl" "h (Some cl) r s = (s', out)"
    | "\<not> MFAVerified cl" "snd (check (Sub cl) s)" "h (Some cl) r (fst (check (Sub cl) s)) = (s', out)"
    | "\<not> MFAVerified cl" "\<not> snd (check (Sub cl) s)" "s' = fst (check (Sub cl) s)"
        "\<exists>resp. out = Served resp \<and> resp_status resp = 403"
  using assms
  by (auto simp: RequireMFA_def write_json_def split: if_splits prod.splits bool.splits)

context step_up_checker
begin

definition lets_through :: "int \<Rightarrow> mfa_claims \<Rightarrow> 's \<Rightarrow> bool" where
  "lets_through now cl s \<longleftrightarrow> MFAVerified cl \<or> snd (check now (Sub cl) s)"

lemma lets_through_stable:
  "\<forall>(t, sub) \<in> set qs. t \<le> now \<Longrightarrow>
     lets_through now cl (fold (\<lambda>(t, sub) s. fst (check t sub s)) qs s) = lets_through now cl s"
  by (simp add: lets_through_def ask_all)

end

section \<open>What each handler leaves alone\<close>

lemma check_step_up_bank [simp]: "bank (fst (check_step_up env sub s)) = bank s"
  by (simp add: check_step_up_def split: prod.split)

lemma check_step_up_answer [simp]:
  "snd (check_step_up env sub s) = snd (IsStepUpVerified (at_mfa env) sub (enroll s))"
  by (simp add: check_step_up_def split: prod.split)

lemma EnrollStart_bank: "EnrollStart cfg env ctx r s = (s', out) \<Longrightarrow> bank s' = bank s"
  by (auto simp: EnrollStart_def Let_def split: option.splits if_splits prod.splits bool.splits)

lemma EnrollVerify_bank: "EnrollVerify env ctx r s = (s', out) \<Longrightarrow> bank s' = bank s"
  by (auto simp: EnrollVerify_def EnrollVerify_persist_def Let_def
      split: option.splits if_splits prod.splits kc_result.splits)

definition moves_money :: "db_fault \<Rightarrow> string \<Rightarrow> bank_db \<Rightarrow> bank_db \<Rightarrow> bool" where
  "moves_money fault num db db' \<longleftrightarrow>
     (\<exists>amount > 0. db' = fst (svc_Deposit fault num amount db) \<or> db' = fst (svc_Withdraw fault num amount db))"

lemma Deposit_moves:
  "Deposit fault (Some cl) r db = (db', out) \<Longrightarrow> db' = db \<or> moves_money fault (BankAccountNumber cl) db db'"
  by (fastforce simp: Deposit_def moves_money_def not_le split: prod.splits if_splits sum.splits)

lemma Withdraw_moves:
  "Withdraw fault (Some cl) r db = (db', out) \<Longrightarrow> db' = db \<or> moves_money fault (BankAccountNumber cl) db db'"
  by (fastforce simp: Withdraw_def moves_money_def not_le split: prod.splits if_splits sum.splits)

lemma moves_money_ok: "moves_money fault num db db' \<Longrightarrow> bank_ok db \<Longrightarrow> bank_ok db'"
  unfolding moves_money_def by (metis prod.collapse svc_Deposit_ok svc_Withdraw_ok)

section \<open>Money moves only past both gates\<close>

definition second_factor :: "'w api_env \<Rightarrow> request \<Rightarrow> 'w api_state \<Rightarrow> bool" where
  "second_factor env r s \<longleftrightarrow> MFAVerified (header_claims r) \<or>
     snd (IsStepUpVerified (at_mfa env) (Sub (header_claims r)) (enroll s))"

lemma gated_money:
  assumes "protected cfg env r (RequireMFA (check_step_up env) (\<lambda>ctx r s. on_bank (f ctx r) s)) s = (s', out)"
    and "bank s' \<noteq> bank s"
    and "\<And>db db' out. f (Some (header_claims r)) r db = (db', out) \<Longrightarrow> db' = db \<or> moves_money fault num db db'"
  shows "signed cfg env r \<and> second_factor env r s \<and> moves_money fault num (bank s) (bank s')"
  using assms(1)
proof (cases rule: protected_cases)
  case 2
  from 2(3) have "second_factor env r s \<and> (\<exists>t. bank t = bank s \<and> on_bank (f (Some (header_claims r)) r) t = (s', out))"
  proof (cases rule: RequireMFA_cases)
    case 2
    then show ?thesis
      by (intro conjI exI [of _ "fst (check_step_up env (Sub (header_claims r)) s)"]) (simp_all add: second_factor_def)
  next
    case 3
    with assms(2) show ?thesis by simp
  qed (auto simp: second_factor_def)
  then obtain t where "second_factor env r s" "bank t = bank s" "on_bank (f (Some (header_claims r)) r) t = (s', out)"
    by blast
  with 2(1) assms(2) show ?thesis by (auto simp: on_bank_def split: prod.splits dest: assms(3))
qed (use assms(2) in simp)

lemma protected_bank:
  assumes "protected cfg env r h s = (s', out)"
    and "\<And>ctx t u out. h ctx r t = (u, out) \<Longrightarrow> bank u = bank t"
  shows "bank s' = bank s"
  using assms(1) by (cases rule: protected_cases) (auto dest: assms(2))

lemma api_serve_money:
  assumes "api_serve cfg env r s = (s', out)" and "bank s' \<noteq> bank s"
  shows "signed cfg env r \<and> second_factor env r s \<and>
    moves_money (db_faults env) (BankAccountNumber (header_claims r)) (bank s) (bank s')"
proof -
  from mux_serve_route [OF assms(1) [unfolded api_serve_def]] assms(2) obtain m h where
    h: "(m, req_path r, h) \<in> set (api_routes cfg env r)" "h s = (s', out)" by blast
  let ?gate = "\<lambda>f. protected cfg env r (RequireMFA (check_step_up env) f)"
  have "h = ?gate (api_Deposit env) \<or> h = ?gate (api_Withdraw env) \<or> bank s' = bank s"
    using h protected_bank [of cfg env r]
    by (auto simp: api_routes_def health_def MFAStatus_def split: if_splits option.splits
        dest!: protected_bank EnrollStart_bank EnrollVerify_bank)
  then show ?thesis
  proof (elim disjE)
    assume "h = ?gate (api_Deposit env)"
    then show ?thesis
      by (intro gated_money [OF _ assms(2), where f = "Deposit (db_faults env)" and out = out])
        (use h(2) in \<open>auto simp: api_Deposit_def [abs_def] dest: Deposit_moves\<close>)
  next
    assume "h = ?gate (api_Withdraw env)"
    then show ?thesis
      by (intro gated_money [OF _ assms(2), where f = "Withdraw (db_faults env)" and out = out])
        (use h(2) in \<open>auto simp: api_Withdraw_def [abs_def] dest: Withdraw_moves\<close>)
  qed (use assms(2) in simp)
qed

end
