(* ===== verification/WrapSigner.thy ===== *)
theory WrapSigner
  imports WrapSig
begin

text \<open>
  The authorizer's own copy of the signature code (\<open>authz/internal/wrapsig/sign.go\<close>), of which it
  uses \<open>Sign\<close>. The file is the API's, so what is proved of the functions of the theory \<open>WrapSig\<close> holds
  of this copy too; \<open>Verify\<close> is called only in the API.
\<close>

section \<open>The copy\<close>

definition wrapper_SignedHeaders :: "string list" where
  "wrapper_SignedHeaders = [''X-User-Sub'', ''X-User-Email'', ''X-User-Username'', ''X-User-Roles'',
     ''X-Bank-Account-Number'', ''X-MFA-Verified'', ''X-MFA-Method'', ''X-Wrapper-Timestamp'']"

fun wrapper_lines :: "(string \<Rightarrow> string) \<Rightarrow> string list \<Rightarrow> string list \<Rightarrow> string list" where
  "wrapper_lines get lines [] = lines"
| "wrapper_lines get lines (h # hs) = wrapper_lines get (lines @ [ToLower h @ ''='' @ get h]) hs"

definition wrapper_canonical :: "(string \<Rightarrow> string) \<Rightarrow> string" where
  "wrapper_canonical get = Join (sort (wrapper_lines get [] wrapper_SignedHeaders)) [CHR 0x0A]"

definition wrapper_Sign :: "(string \<Rightarrow> string) \<Rightarrow> string \<Rightarrow> string" where
  "wrapper_Sign get secret = RawURL_encode (hmac_Sum secret (wrapper_canonical get))"

section \<open>It signs what the API verifies\<close>

lemma wrapper_SignedHeaders_eq [simp]: "wrapper_SignedHeaders = SignedHeaders"
  by (simp add: wrapper_SignedHeaders_def SignedHeaders_def)

lemma wrapper_lines_map: "wrapper_lines get lines hs = lines @ map (canonical_line get) hs"
  by (induction hs arbitrary: lines) (simp_all add: canonical_line_def)

lemma wrapper_canonical_eq [simp]: "wrapper_canonical get = canonical get"
  by (simp add: wrapper_canonical_def canonical_def wrapper_lines_map newline_def)

lemma wrapper_Sign_eq [simp]: "wrapper_Sign get secret = Sign get secret"
  by (simp add: wrapper_Sign_def Sign_def)

end
