(* ===== verification/Authz.thy ===== *)
theory Authz
  imports MfaFacts WrapSigner
begin

text \<open>
  The wrapper in front of the API (\<open>api-keycloak-mfa-email/authz\<close>): its configuration, token
  validation (\<open>internal/jws/validate.go\<close>), and the two handlers of \<open>cmd/server/main.go\<close>. The
  token library and the key cache are arguments: parsing a signed token under a key set and an
  issuer, decrypting and encrypting with the wrapper's key, and fetching or refreshing the keys.
\<close>

section \<open>Configuration\<close>

record authz_config =
  authz_Port :: string
  JWKSUrl :: string
  JWTIssuer :: string
  JWKSRefreshInterval :: int
  APIPublicKeyURL :: string
  BFFPrivateKeyBase64 :: string
  authz_HMACSecret :: string
  KeycloakTokenURL :: string

text \<open>This program has its own copies of the two functions that read a variable.\<close>

definition authz_getEnv :: "(string \<Rightarrow> string) \<Rightarrow> string \<Rightarrow> string \<Rightarrow> string" where
  "authz_getEnv env key defaultVal = (let v = env key in if v \<noteq> '''' then v else defaultVal)"

definition authz_mustGetEnv :: "(string \<Rightarrow> string) \<Rightarrow> string \<Rightarrow> string option" where
  "authz_mustGetEnv env key = (let v = env key in if v = '''' then None else Some v)"

definition authz_Load :: "(string \<Rightarrow> string) \<Rightarrow> authz_config option" where
  "authz_Load env =
     (let secs = (case ParseInt (authz_getEnv env ''JWKS_REFRESH_INTERVAL'' ''300'') of Some n \<Rightarrow> n | None \<Rightarrow> 300)
      in Option.bind (authz_mustGetEnv env ''KEYCLOAK_JWKS_URL'') (\<lambda>jwks.
         Option.bind (authz_mustGetEnv env ''KEYCLOAK_ISSUER'') (\<lambda>issuer.
         Option.bind (authz_mustGetEnv env ''API_PUBLIC_KEY_URL'') (\<lambda>api.
         Option.bind (authz_mustGetEnv env ''AUTHZ_PRIVATE_KEY_BASE64'') (\<lambda>key.
         Option.bind (authz_mustGetEnv env ''WRAPPER_HMAC_SECRET'') (\<lambda>secret.
         Option.bind (authz_mustGetEnv env ''KEYCLOAK_TOKEN_URL'') (\<lambda>url.
         Some \<lparr>authz_Port = authz_getEnv env ''AUTHZ_PORT'' ''9000'', JWKSUrl = jwks, JWTIssuer = issuer,
           JWKSRefreshInterval = wrap64 (secs * nanos_per_second), APIPublicKeyURL = api,
           BFFPrivateKeyBase64 = key, authz_HMACSecret = secret, KeycloakTokenURL = url\<rparr>)))))))"

section \<open>Tokens\<close>

text \<open>A parsed token: its subject and its other claims as decoded JSON.\<close>

record jwt_token =
  Subject :: string
  private_claims :: "(string \<times> json) list"

definition token_Get :: "jwt_token \<Rightarrow> string \<Rightarrow> json option" where
  "token_Get token key = map_of (private_claims token) key"

definition stringClaim :: "jwt_token \<Rightarrow> string \<Rightarrow> string" where
  "stringClaim token key = (case token_Get token key of Some (JStr s) \<Rightarrow> s | _ \<Rightarrow> '''')"

definition boolClaim :: "jwt_token \<Rightarrow> string \<Rightarrow> bool" where
  "boolClaim token key = (case token_Get token key of
      Some (JBool b) \<Rightarrow> b
    | Some (JStr s) \<Rightarrow> s = ''true''
    | _ \<Rightarrow> False)"

fun string_members :: "json list \<Rightarrow> string list" where
  "string_members [] = []"
| "string_members (JStr s # xs) = s # string_members xs"
| "string_members (_ # xs) = string_members xs"

definition extractRealmRoles :: "jwt_token \<Rightarrow> string list" where
  "extractRealmRoles token = (case token_Get token ''realm_access'' of
      Some (JObj ms) \<Rightarrow>
        (case map_of (members_map ms) ''roles'' of Some (JArr rs) \<Rightarrow> string_members rs | _ \<Rightarrow> [])
    | _ \<Rightarrow> [])"

record jws_result =
  res_Sub :: string
  res_Email :: string
  res_PreferredUsername :: string
  res_RealmRoles :: "string list"
  res_BankAccountNumber :: string
  res_MFAVerified :: bool
  res_MFAMethod :: string

definition result_of :: "jwt_token \<Rightarrow> jws_result" where
  "result_of token = \<lparr>res_Sub = Subject token, res_Email = stringClaim token ''email'',
     res_PreferredUsername = stringClaim token ''preferred_username'',
     res_RealmRoles = extractRealmRoles token,
     res_BankAccountNumber = stringClaim token ''bank_account_number'',
     res_MFAVerified = boolClaim token ''mfa_verified'',
     res_MFAMethod = stringClaim token ''mfa_method''\<rparr>"

text \<open>
  The token library and the cache of Keycloak's keys, as one request finds them: whether a token is
  valid depends on the time of the request, so a later request has another \<open>jwt_Parse\<close>.
\<close>

record ('c, 'k) token_lib =
  jwt_Parse :: "'k \<Rightarrow> string \<Rightarrow> string \<Rightarrow> jwt_token option"
  cache_KeySet :: "'c \<Rightarrow> 'c \<times> 'k option"
  cache_Refresh :: "'c \<Rightarrow> 'c \<times> 'k option"
  bff_Decrypt :: "string \<Rightarrow> string option"
  bff_Encrypt :: "'c \<Rightarrow> string \<Rightarrow> 'c \<times> string option"

definition Validate ::
  "('c, 'k) token_lib \<Rightarrow> string \<Rightarrow> string \<Rightarrow> 'c \<Rightarrow> 'c \<times> jws_result option" where
  "Validate L issuer tokenStr c =
     (case cache_KeySet L c of
        (c, None) \<Rightarrow> (c, None)
      | (c, Some ks) \<Rightarrow>
          (case jwt_Parse L ks issuer tokenStr of
             Some token \<Rightarrow> (c, Some (result_of token))
           | None \<Rightarrow>
               (case cache_Refresh L c of
                  (c, None) \<Rightarrow> (c, None)
                | (c, Some ks2) \<Rightarrow> (c, map_option result_of (jwt_Parse L ks2 issuer tokenStr)))))"

section \<open>GET /verify\<close>

definition authz_error :: "nat \<Rightarrow> string \<Rightarrow> served" where
  "authz_error code msg = write_json (header_Set Map.empty ''Cache-Control'' ''no-store'') code
     (JObj [(''error'', JStr msg)])"

definition identity_headers :: "string \<Rightarrow> int \<Rightarrow> jws_result \<Rightarrow> header" where
  "identity_headers secret now res =
     (let h = header_Set Map.empty ''Cache-Control'' ''no-store'';
          h = header_Set h ''X-User-Sub'' (res_Sub res);
          h = header_Set h ''X-User-Email'' (res_Email res);
          h = header_Set h ''X-User-Username'' (res_PreferredUsername res);
          h = header_Set h ''X-User-Roles'' (Join (res_RealmRoles res) '','');
          h = header_Set h ''X-Bank-Account-Number'' (res_BankAccountNumber res);
          h = header_Set h ''X-MFA-Verified'' (if res_MFAVerified res then ''true'' else ''false'');
          h = (if res_MFAMethod res \<noteq> '''' then header_Set h ''X-MFA-Method'' (res_MFAMethod res) else h);
          h = header_Set h HeaderTimestamp (FormatInt (now div nanos_per_second))
      in header_Set h HeaderSignature (wrapper_Sign (header_Get h) secret))"

definition verifyHandler ::
  "('c, 'k) token_lib \<Rightarrow> string \<Rightarrow> string \<Rightarrow> int \<Rightarrow> request \<Rightarrow> 'c \<Rightarrow> 'c \<times> served" where
  "verifyHandler L issuer secret now r c =
     (let authHeader = header_Get (req_header r) ''Authorization''
      in if \<not> HasPrefix authHeader ''Bearer '' then (c, authz_error 401 ''missing or invalid Authorization header'')
         else let tokenStr = TrimPrefix authHeader ''Bearer ''; dots = CountByte tokenStr CHR ''.''
              in if dots = 4 then
                   (case bff_Decrypt L tokenStr of
                      None \<Rightarrow> (c, authz_error 401 ''token decryption failed'')
                    | Some plain \<Rightarrow>
                        (case Validate L issuer plain c of
                           (c, None) \<Rightarrow> (c, authz_error 401 ''invalid or expired token'')
                         | (c, Some res) \<Rightarrow> (c, write_status (identity_headers secret now res) 200)))
                 else if dots = 2 then (c, authz_error 401 ''expected encrypted access token (JWE)'')
                 else (c, authz_error 401 ''malformed bearer token''))"

section \<open>POST /token-proxy\<close>

text \<open>
  The request's raw body (\<open>None\<close> when reading it fails) is forwarded; the upstream reply is its
  status, its raw body and that body as one JSON value.
\<close>

record token_reply =
  reply_status :: nat
  reply_text :: string
  reply_json :: "json option"

definition tokenProxyHandler ::
  "('c, 'k) token_lib \<Rightarrow> string \<Rightarrow> (string \<Rightarrow> 'c \<Rightarrow> 'c \<times> token_reply option) \<Rightarrow> string option \<Rightarrow> 'c \<Rightarrow> 'c \<times> served" where
  "tokenProxyHandler L issuer post body c =
     (case body of
        None \<Rightarrow> (c, authz_error 400 ''could not read request body'')
      | Some form \<Rightarrow>
          (case post form c of
             (c, None) \<Rightarrow> (c, authz_error 502 ''keycloak unreachable'')
           | (c, Some resp) \<Rightarrow>
               if reply_status resp \<ge> 400
               then (c, Served \<lparr>resp_status = reply_status resp,
                       resp_header = header_Set (header_Set Map.empty ''Cache-Control'' ''no-store'')
                         ''Content-Type'' ''application/json'', resp_body = TextBody (reply_text resp)\<rparr>)
               else case unmarshal_map (reply_json resp) of
                      None \<Rightarrow> (c, authz_error 502 ''unexpected upstream response'')
                    | Some payload \<Rightarrow>
                        let members = (case payload of NilMap \<Rightarrow> [] | GoMap m \<Rightarrow> m)
                        in case map_of members ''access_token'' of
                             Some (JStr raw) \<Rightarrow>
                               if CountByte raw CHR ''.'' \<noteq> 2
                               then (c, authz_error 502 ''no access_token in upstream response'')
                               else (case Validate L issuer raw c of
                                       (c, None) \<Rightarrow> (c, authz_error 502 ''upstream JWS rejected'')
                                     | (c, Some _) \<Rightarrow>
                                         (case bff_Encrypt L c raw of
                                            (c, None) \<Rightarrow> (c, authz_error 500 ''encryption failure'')
                                          | (c, Some jwe) \<Rightarrow>
                                              (c, write_json (header_Set Map.empty ''Cache-Control'' ''no-store'') 200
                                                    (marshal_map (AList.update ''access_token'' (JStr jwe) members)))))
                           | _ \<Rightarrow> (c, authz_error 502 ''no access_token in upstream response'')))"

section \<open>Routes\<close>

definition authz_routes ::
  "authz_config \<Rightarrow> ('c, 'k) token_lib \<Rightarrow> json \<Rightarrow> (string \<Rightarrow> 'c \<Rightarrow> 'c \<times> token_reply option) \<Rightarrow> int
     \<Rightarrow> string option \<Rightarrow> request \<Rightarrow> 'c route list" where
  "authz_routes cfg L jwksJSON post now body r =
     [(''GET'', ''/health'', health),
      (''GET'', ''/.well-known/jwks.json'', \<lambda>c. (c, write_json Map.empty 200 jwksJSON)),
      (''POST'', ''/token-proxy'', tokenProxyHandler L (JWTIssuer cfg) post body),
      ('''', ''/verify'', verifyHandler L (JWTIssuer cfg) (authz_HMACSecret cfg) now r)]"

definition authz_serve ::
  "authz_config \<Rightarrow> ('c, 'k) token_lib \<Rightarrow> json \<Rightarrow> (string \<Rightarrow> 'c \<Rightarrow> 'c \<times> token_reply option) \<Rightarrow> int
     \<Rightarrow> string option \<Rightarrow> request \<Rightarrow> 'c \<Rightarrow> 'c \<times> served" where
  "authz_serve cfg L jwksJSON post now body r c = mux_serve (authz_routes cfg L jwksJSON post now body r) r c"

end
