(* ===== verification/AuthzFacts.thy ===== *)
theory AuthzFacts
  imports Authz
begin

text \<open>
  What holds of the wrapper: it vouches only for tokens that decrypt and validate, its headers
  carry exactly the token's claims, and the API accepts them within the time window and reads the
  same identity back from them.
\<close>

section \<open>Header names\<close>

lemma canonical_names:
  "CanonicalHeaderKey ''X-User-Sub'' = ''X-User-Sub''"
  "CanonicalHeaderKey ''X-User-Email'' = ''X-User-Email''"
  "CanonicalHeaderKey ''X-User-Username'' = ''X-User-Username''"
  "CanonicalHeaderKey ''X-User-Roles'' = ''X-User-Roles''"
  "CanonicalHeaderKey ''X-Bank-Account-Number'' = ''X-Bank-Account-Number''"
  "CanonicalHeaderKey ''X-MFA-Verified'' = ''X-Mfa-Verified''"
  "CanonicalHeaderKey ''X-MFA-Method'' = ''X-Mfa-Method''"
  "CanonicalHeaderKey ''X-Wrapper-Timestamp'' = ''X-Wrapper-Timestamp''"
  "CanonicalHeaderKey ''X-Wrapper-Signature'' = ''X-Wrapper-Signature''"
  "CanonicalHeaderKey ''Cache-Control'' = ''Cache-Control''"
  by code_simp+

lemma identity_headers_get:
  "header_Get (identity_headers secret now res) ''X-User-Sub'' = res_Sub res"
  "header_Get (identity_headers secret now res) ''X-User-Email'' = res_Email res"
  "header_Get (identity_headers secret now res) ''X-User-Username'' = res_PreferredUsername res"
  "header_Get (identity_headers secret now res) ''X-User-Roles'' = Join (res_RealmRoles res) '',''"
  "header_Get (identity_headers secret now res) ''X-Bank-Account-Number'' = res_BankAccountNumber res"
  "header_Get (identity_headers secret now res) ''X-MFA-Verified'' = (if res_MFAVerified res then ''true'' else ''false'')"
  "header_Get (identity_headers secret now res) ''X-MFA-Method'' = res_MFAMethod res"
  "header_Get (identity_headers secret now res) HeaderTimestamp = FormatInt (now div nanos_per_second)"
  by (simp_all add: identity_headers_def Let_def canonical_names HeaderTimestamp_def HeaderSignature_def)

lemma identity_headers_signature:
  "header_Get (identity_headers secret now res) HeaderSignature =
     Sign (header_Get (identity_headers secret now res)) secret"
proof -
  obtain h where h: "identity_headers secret now res = header_Set h HeaderSignature (Sign (header_Get h) secret)"
    by (simp add: identity_headers_def Let_def)
  have names: "\<forall>n \<in> set SignedHeaders. CanonicalHeaderKey n \<noteq> CanonicalHeaderKey HeaderSignature" by code_simp
  have "Sign (header_Get h) secret = Sign (header_Get (identity_headers secret now res)) secret"
    by (rule Sign_cong) (use names in \<open>simp add: h\<close>)
  then show ?thesis by (simp add: h)
qed

section \<open>On the wire\<close>

text \<open>\<open>net/http\<close> writes a header value with line breaks turned into spaces and trimmed.\<close>

definition wire_space :: "char \<Rightarrow> bool" where
  "wire_space c \<longleftrightarrow> c \<in> {CHR '' '', CHR 0x09, CHR 0x0A, CHR 0x0D}"

definition wire_value :: "string \<Rightarrow> string" where
  "wire_value v =
     (let s = map (\<lambda>c. if c = CHR 0x0A \<or> c = CHR 0x0D then CHR '' '' else c) v
      in rev (dropWhile wire_space (rev (dropWhile wire_space s))))"

lemma wire_value_plain: "list_all plain_byte v \<Longrightarrow> wire_value v = v"
proof -
  assume v: "list_all plain_byte v"
  have ns: "\<not> wire_space c \<and> c \<noteq> CHR 0x0A \<and> c \<noteq> CHR 0x0D" if "c \<in> set v" for c
    using v that by (auto simp: list_all_iff plain_byte_def wire_space_def Let_def)
  have "map (\<lambda>c. if c = CHR 0x0A \<or> c = CHR 0x0D then CHR '' '' else c) v = v"
    using ns by (simp add: map_idI)
  moreover have "dropWhile wire_space v = v" using ns by (cases v) auto
  moreover have "dropWhile wire_space (rev v) = rev v" using ns by (cases "rev v") (auto simp: dest: sym)
  ultimately show ?thesis by (simp add: wire_value_def)
qed

lemma b64_plain: "plain_byte (b64_char n)"
proof -
  have "list_all plain_byte b64_alphabet" "length b64_alphabet = 64" by code_simp+
  then show ?thesis by (simp add: b64_char_def list_all_length)
qed

lemma RawURL_encode_plain: "list_all plain_byte (RawURL_encode s)"
  by (induction s rule: RawURL_encode.induct) (simp_all add: b64_plain)

definition clean_result :: "jws_result \<Rightarrow> bool" where
  "clean_result res \<longleftrightarrow> list_all (\<lambda>v. wire_value v = v) [res_Sub res, res_Email res, res_PreferredUsername res,
     Join (res_RealmRoles res) '','', res_BankAccountNumber res, res_MFAMethod res]"

text \<open>nginx hands the wrapper's headers on to the API.\<close>

definition forwarded :: "header \<Rightarrow> request \<Rightarrow> bool" where
  "forwarded h r \<longleftrightarrow> list_all (\<lambda>n. header_Get (req_header r) n = wire_value (header_Get h n))
     (SignedHeaders @ [HeaderSignature])"

lemma SignedHeaders_cases:
  "n \<in> set SignedHeaders \<Longrightarrow> n \<in> {''X-User-Sub'', ''X-User-Email'', ''X-User-Username'', ''X-User-Roles'',
     ''X-Bank-Account-Number'', ''X-MFA-Verified'', ''X-MFA-Method'', HeaderTimestamp}"
  by (simp add: SignedHeaders_def HeaderTimestamp_def)

lemma wire_identity:
  assumes "clean_result res" and "n \<in> set SignedHeaders \<or> n = HeaderSignature"
  shows "wire_value (header_Get (identity_headers secret now res) n) = header_Get (identity_headers secret now res) n"
proof (cases "n = HeaderSignature")
  case True
  then show ?thesis
    by (simp only: identity_headers_signature) (simp add: Sign_def wire_value_plain RawURL_encode_plain)
next
  case False
  have flags: "wire_value ''true'' = ''true''" "wire_value ''false'' = ''false''" by code_simp+
  from False assms(2) have "n \<in> set SignedHeaders" by simp
  from SignedHeaders_cases [OF this] assms(1) show ?thesis
    by (auto simp: identity_headers_get clean_result_def wire_value_plain [OF FormatInt_plain] flags)
qed

lemma forwarded_get:
  assumes "clean_result res" and "forwarded (identity_headers secret now res) r"
    and "n \<in> set SignedHeaders \<or> n = HeaderSignature"
  shows "header_Get (req_header r) n = header_Get (identity_headers secret now res) n"
  using wire_identity [OF assms(1,3)] assms(2,3) by (auto simp: forwarded_def list_all_iff)

lemma forwarded_same:
  "clean_result res \<Longrightarrow> req_header r = identity_headers secret now res \<Longrightarrow>
     forwarded (identity_headers secret now res) r"
  by (auto simp: forwarded_def list_all_iff wire_identity)

section \<open>From the token to the API\<close>

lemma wrapper_accepted:
  assumes "clean_result res" and "forwarded (identity_headers secret now res) r"
    and "in_int64 (now div nanos_per_second)" and "\<bar>later - now div nanos_per_second\<bar> \<le> 30"
  shows "sig_Verify (header_Get (req_header r)) secret later = None"
proof -
  let ?g = "header_Get (req_header r)" and ?t = "now div nanos_per_second"
  have get: "?g n = header_Get (identity_headers secret now res) n" if "n \<in> set SignedHeaders \<or> n = HeaderSignature" for n
    using forwarded_get [OF assms(1,2)] that .
  have "?g HeaderSignature = Sign ?g secret"
    using get identity_headers_signature [of secret now res]
      Sign_cong [of ?g "header_Get (identity_headers secret now res)" secret] by metis
  moreover have "HeaderTimestamp \<in> set SignedHeaders" by code_simp
  then have "ParseInt (TrimSpace (?g HeaderTimestamp)) = Some ?t"
    using get assms(3) by (simp add: identity_headers_get TrimSpace_plain FormatInt_plain ParseInt_FormatInt)
  moreover have "wrap64 (window_delta later ?t * Second) \<le> MaxSkew"
  proof (subst window_exact)
    show "in_int64 (later - ?t)" using assms(4) by (simp add: in_int64_def) linarith
    show "\<bar>later - ?t\<bar> * Second < 2 ^ 63" using assms(4) by (simp add: Second_def)
  qed (use assms(4) in simp)
  ultimately show ?thesis by (simp add: sig_Verify_None_iff)
qed

lemma wrapper_claims:
  assumes "clean_result res" and "forwarded (identity_headers secret now res) r"
  shows "header_claims r = \<lparr>Sub = res_Sub res, PreferredUsername = res_PreferredUsername res, Email = res_Email res,
    BankAccountNumber = res_BankAccountNumber res, MFAVerified = res_MFAVerified res, MFAMethod = res_MFAMethod res\<rparr>"
proof -
  have "{''X-User-Sub'', ''X-User-Email'', ''X-User-Username'', ''X-Bank-Account-Number'', ''X-MFA-Verified'',
      ''X-MFA-Method''} \<subseteq> set SignedHeaders" by code_simp
  then show ?thesis
    using forwarded_get [OF assms] by (simp add: header_claims_def Let_def identity_headers_get)
qed

end
