(* ===== verification/Base64.thy ===== *)
theory Base64
  imports Hmac
begin

text \<open>
  What the key loading and the token decoder use of \<open>encoding/base64\<close>: decoding with the padded
  standard alphabet and with the unpadded URL alphabet. Carriage returns and line feeds are
  skipped; the bits after the last whole byte are ignored. Decoding inverts the encoder.
\<close>

section \<open>Digits\<close>

definition b64_std_alphabet :: string where
  "b64_std_alphabet = ''ABCDEFGHIJKLMNOPQRSTUVWXYZabcdefghijklmnopqrstuvwxyz0123456789+/''"

definition b64_digits :: "string \<Rightarrow> string \<Rightarrow> nat list option" where
  "b64_digits alphabet s = those (map (\<lambda>c. index_of c alphabet) s)"

section \<open>Decoding\<close>

definition byte_of :: "nat \<Rightarrow> char" where
  "byte_of n = char_of n"

text \<open>The bytes of a sequence of digits; a single digit at the end is not enough for a byte.\<close>

fun digit_bytes :: "nat list \<Rightarrow> string option" where
  "digit_bytes [] = Some []"
| "digit_bytes [a] = None"
| "digit_bytes [a, b] = Some [byte_of (a * 4 + b div 16)]"
| "digit_bytes [a, b, c] = Some [byte_of (a * 4 + b div 16), byte_of (b * 16 + c div 4)]"
| "digit_bytes (a # b # c # d # ds) =
     map_option ((@) [byte_of (a * 4 + b div 16), byte_of (b * 16 + c div 4), byte_of (c * 64 + d)]) (digit_bytes ds)"

definition skip_newlines :: "string \<Rightarrow> string" where
  "skip_newlines s = filter (\<lambda>c. c \<noteq> CHR 0x0A \<and> c \<noteq> CHR 0x0D) s"

definition RawURL_decode :: "string \<Rightarrow> string option" where
  "RawURL_decode s = Option.bind (b64_digits b64_alphabet (skip_newlines s)) digit_bytes"

text \<open>Padding fills the last group up to four characters.\<close>

definition strip_padding :: "string \<Rightarrow> string option" where
  "strip_padding s =
     (let body = takeWhile (\<lambda>c. c \<noteq> CHR ''='') s; pads = dropWhile (\<lambda>c. c \<noteq> CHR ''='') s
      in if length s mod 4 = 0 \<and> length pads \<le> 2 \<and> list_all (\<lambda>c. c = CHR ''='') pads then Some body else None)"

definition Std_decode :: "string \<Rightarrow> string option" where
  "Std_decode s = Option.bind (strip_padding (skip_newlines s)) (\<lambda>body.
     Option.bind (b64_digits b64_std_alphabet body) digit_bytes)"

section \<open>Decoding inverts encoding\<close>

lemma index_of_nth: "distinct xs \<Longrightarrow> i < length xs \<Longrightarrow> index_of (xs ! i) xs = Some i"
proof (induction xs arbitrary: i)
  case (Cons x xs)
  then show ?case by (cases i) auto
qed simp

lemma index_of_b64: "index_of (b64_char n) b64_alphabet = Some (n mod 64)"
proof -
  have "distinct b64_alphabet" "length b64_alphabet = 64" by code_simp+
  then show ?thesis by (simp add: b64_char_def index_of_nth)
qed

lemma b64_no_newline: "skip_newlines (RawURL_encode s) = RawURL_encode s"
proof -
  have "list_all (\<lambda>c. c \<noteq> CHR 0x0A \<and> c \<noteq> CHR 0x0D) b64_alphabet" "length b64_alphabet = 64" by code_simp+
  then have "b64_char n \<noteq> CHR 0x0A \<and> b64_char n \<noteq> CHR 0x0D" for n
    unfolding b64_char_def list_all_length by (metis mod_less_divisor zero_less_numeral)
  then show ?thesis
    unfolding skip_newlines_def by (induction s rule: RawURL_encode.induct) simp_all
qed

lemma those_digits:
  "b64_digits b64_alphabet (map b64_char ns) = Some (map (\<lambda>n. n mod 64) ns)"
  "b64_digits b64_alphabet (map b64_char ns @ s) =
     map_option ((@) (map (\<lambda>n. n mod 64) ns)) (b64_digits b64_alphabet s)"
proof -
  show "b64_digits b64_alphabet (map b64_char ns @ s) =
     map_option ((@) (map (\<lambda>n. n mod 64) ns)) (b64_digits b64_alphabet s)" for s
    by (induction ns) (simp_all add: b64_digits_def index_of_b64 option.map_comp comp_def option.map_ident)
  from this [of "[]"] show "b64_digits b64_alphabet (map b64_char ns) = Some (map (\<lambda>n. n mod 64) ns)"
    by (simp add: b64_digits_def)
qed

lemma byte_of_nat [simp]: "byte_of (byte_nat c) = c"
  by (simp add: byte_of_def byte_nat_def)

lemma byte_of_carry: "byte_of (256 * k + byte_nat c) = c"
proof -
  have "(256 * k + of_char c) mod 256 = (of_char c :: nat)" by simp
  then show ?thesis unfolding byte_of_def byte_nat_def by (metis char_of_mod_256 char_of_char)
qed

lemma first_byte:
  assumes "b < 16"
  shows "byte_of ((byte_nat a div 4) mod 64 * 4 + (byte_nat a * 16 + b) mod 64 div 16) = a"
proof -
  have "(byte_nat a * 16 + b) mod 64 div 16 = byte_nat a mod 4"
    using sextet_split [of b 16 4 "byte_nat a"] assms by (simp add: mult.commute)
  moreover have "(byte_nat a div 4) mod 64 = byte_nat a div 4" by (simp add: div_less_iff_less_mult)
  ultimately show ?thesis by simp
qed

lemma second_byte:
  assumes "c < 4"
  shows "byte_of ((a * 16 + byte_nat b div 16) mod 64 * 16 + (byte_nat b * 4 + c) mod 64 div 4) = b"
proof -
  have "(a * 16 + byte_nat b div 16) mod 64 = 16 * (a mod 4) + byte_nat b div 16"
    using sextet_split [of "byte_nat b div 16" 16 4 a] by (simp add: mult.commute div_less_iff_less_mult)
  moreover have "(byte_nat b * 4 + c) mod 64 div 4 = byte_nat b mod 16"
    using sextet_split [of c 4 16 "byte_nat b"] assms by (simp add: mult.commute)
  ultimately show ?thesis using byte_of_carry [of "a mod 4" b] by (simp add: add_mult_distrib add.assoc)
qed

lemma third_byte: "byte_of ((b * 4 + byte_nat c div 64) mod 64 * 64 + byte_nat c mod 64) = c"
proof -
  have "(b * 4 + byte_nat c div 64) mod 64 = 4 * (b mod 16) + byte_nat c div 64"
    using sextet_split [of "byte_nat c div 64" 4 16 b] by (simp add: mult.commute div_less_iff_less_mult)
  then show ?thesis using byte_of_carry [of "b mod 16" c] by (simp add: add_mult_distrib add.assoc)
qed

lemma RawURL_decode_encode: "RawURL_decode (RawURL_encode s) = Some s"
proof -
  have "Option.bind (b64_digits b64_alphabet (RawURL_encode s)) digit_bytes = Some s"
  proof (induction s rule: RawURL_encode.induct)
    case 1
    show ?case by (simp add: b64_digits_def)
  next
    case (2 a)
    show ?case using first_byte [of 0 a] by (simp only: RawURL_encode.simps those_digits) simp
  next
    case (3 a b)
    show ?case
      using first_byte [of "byte_nat b div 16" a] second_byte [of 0 "byte_nat a" b]
      by (simp only: RawURL_encode.simps those_digits) (simp add: div_less_iff_less_mult)
  next
    case (4 a b c s)
    then obtain ds where "b64_digits b64_alphabet (RawURL_encode s) = Some ds" "digit_bytes ds = Some s"
      by (cases "b64_digits b64_alphabet (RawURL_encode s)") auto
    then show ?case
      using first_byte [of "byte_nat b div 16" a] second_byte [of "byte_nat c div 64" "byte_nat a" b]
        third_byte [of "byte_nat b" c]
      by (simp only: RawURL_encode.simps those_digits) (simp add: div_less_iff_less_mult)
  qed
  then show ?thesis by (simp add: RawURL_decode_def b64_no_newline)
qed

lemma RawURL_encode_no_dot: "CHR ''.'' \<notin> set (RawURL_encode s)"
proof -
  have "CHR ''.'' \<notin> set b64_alphabet" "length b64_alphabet = 64" by code_simp+
  then have "b64_char n \<noteq> CHR ''.''" for n unfolding b64_char_def by (metis mod_less_divisor nth_mem zero_less_numeral)
  then show ?thesis by (induction s rule: RawURL_encode.induct) (auto dest: sym)
qed

end
