(* ===== verification/Keys.thy ===== *)
theory Keys
  imports Base64 Keycloak
begin

text \<open>
  Key material: the private key that decrypts access tokens (\<open>authz/internal/jwe/keypair.go\<close> and
  its twin \<open>internal/auth/encryption.go\<close> of the variant without a wrapper), the document its
  public half is published in, the key sets of Keycloak (\<open>internal/jwks\<close>), and the key the
  authorizer can fetch from the API (\<open>authz/internal/jwe/encrypt.go\<close>). PEM and ASN.1 parsing and
  the JOSE library are arguments. A JWK is the list of its members.
\<close>

section \<open>Libraries\<close>

datatype 'k parsed_key = RSAKey 'k | OtherKey

type_synonym jwk = "(string \<times> json) list"

record 'k key_lib =
  pem_Decode :: "string \<Rightarrow> (string \<times> string) option"
  ParsePKCS1PrivateKey :: "string \<Rightarrow> 'k option"
  ParsePKCS8PrivateKey :: "string \<Rightarrow> 'k parsed_key option"
  jwk_FromRaw :: "'k \<Rightarrow> jwk option"
  jwk_Thumbprint :: "jwk \<Rightarrow> string option"
  jwe_Decrypt :: "'k \<Rightarrow> string \<Rightarrow> string option"
  jwe_Encrypt :: "'k \<Rightarrow> string \<Rightarrow> string option"

section \<open>The private key\<close>

datatype key_error = NoPEMBlock | BadPKCS1 | BadPKCS8 | NotRSA | UnsupportedBlock string | NoJWK

record 'k enc_key =
  key_private :: 'k
  key_public :: jwk

definition rsa_private_key :: "'k key_lib \<Rightarrow> string \<Rightarrow> key_error + 'k" where
  "rsa_private_key L pemBytes =
     (case pem_Decode L pemBytes of
        None \<Rightarrow> Inl NoPEMBlock
      | Some (ty, der) \<Rightarrow>
          if ty = ''RSA PRIVATE KEY'' then
            (case ParsePKCS1PrivateKey L der of None \<Rightarrow> Inl BadPKCS1 | Some pk \<Rightarrow> Inr pk)
          else if ty = ''PRIVATE KEY'' then
            (case ParsePKCS8PrivateKey L der of
               None \<Rightarrow> Inl BadPKCS8
             | Some (RSAKey pk) \<Rightarrow> Inr pk
             | Some OtherKey \<Rightarrow> Inl NotRSA)
          else Inl (UnsupportedBlock ty))"

definition public_jwk :: "'k key_lib \<Rightarrow> 'k \<Rightarrow> jwk option" where
  "public_jwk L rsaKey =
     (case jwk_FromRaw L rsaKey of
        None \<Rightarrow> None
      | Some pubJWK \<Rightarrow>
          let pubJWK = AList.update ''alg'' (JStr ''RSA-OAEP'') pubJWK;
              pubJWK = AList.update ''use'' (JStr ''enc'') pubJWK
          in Some (case jwk_Thumbprint L pubJWK of
               Some thumb \<Rightarrow> AList.update ''kid'' (JStr (RawURL_encode thumb)) pubJWK
             | None \<Rightarrow> pubJWK))"

definition NewBFFKey :: "'k key_lib \<Rightarrow> string \<Rightarrow> key_error + 'k enc_key" where
  "NewBFFKey L pemBytes =
     (case rsa_private_key L pemBytes of
        Inl e \<Rightarrow> Inl e
      | Inr rsaKey \<Rightarrow>
          (case public_jwk L rsaKey of
             None \<Rightarrow> Inl NoJWK
           | Some pubJWK \<Rightarrow> Inr \<lparr>key_private = rsaKey, key_public = pubJWK\<rparr>))"

text \<open>\<open>encryption.go\<close> has the same steps in one function.\<close>

definition NewEncryptionKeyFromPEM :: "'k key_lib \<Rightarrow> string \<Rightarrow> key_error + 'k enc_key" where
  "NewEncryptionKeyFromPEM L pemBytes =
     (case pem_Decode L pemBytes of
        None \<Rightarrow> Inl NoPEMBlock
      | Some (blockType, der) \<Rightarrow>
          (case (if blockType = ''RSA PRIVATE KEY''
                 then (case ParsePKCS1PrivateKey L der of Some pk \<Rightarrow> Inr pk | None \<Rightarrow> Inl BadPKCS1)
                 else if blockType = ''PRIVATE KEY''
                 then (case ParsePKCS8PrivateKey L der of
                         Some (RSAKey pk) \<Rightarrow> Inr pk | Some OtherKey \<Rightarrow> Inl NotRSA | None \<Rightarrow> Inl BadPKCS8)
                 else Inl (UnsupportedBlock blockType)) of
             Inl e \<Rightarrow> Inl e
           | Inr rsaKey \<Rightarrow>
               (case jwk_FromRaw L rsaKey of
                  None \<Rightarrow> Inl NoJWK
                | Some pubJWK \<Rightarrow>
                    let pubJWK = AList.update ''use'' (JStr ''enc'') (AList.update ''alg'' (JStr ''RSA-OAEP'') pubJWK);
                        thumb = jwk_Thumbprint L pubJWK
                    in Inr \<lparr>key_private = rsaKey,
                         key_public = (if thumb \<noteq> None then AList.update ''kid'' (JStr (RawURL_encode (the thumb))) pubJWK
                                       else pubJWK)\<rparr>)))"

definition BFFKey_Decrypt :: "'k key_lib \<Rightarrow> 'k enc_key \<Rightarrow> string \<Rightarrow> string option" where
  "BFFKey_Decrypt L b token = jwe_Decrypt L (key_private b) token"

definition BFFKey_Encrypt :: "'k key_lib \<Rightarrow> 'k enc_key \<Rightarrow> string \<Rightarrow> string option" where
  "BFFKey_Encrypt L b plaintext = jwe_Encrypt L (key_private b) plaintext"

definition EncryptionKey_Decrypt :: "'k key_lib \<Rightarrow> 'k enc_key \<Rightarrow> string \<Rightarrow> string option" where
  "EncryptionKey_Decrypt L e token = jwe_Decrypt L (key_private e) token"

text \<open>A key set with one key, as both services publish it.\<close>

definition PublicJWKSetJSON :: "'k enc_key \<Rightarrow> json" where
  "PublicJWKSetJSON b = JObj [(''keys'', JArr [JObj (sort_key fst (key_public b))])]"

definition ServeJWKS :: "'k enc_key \<Rightarrow> json" where
  "ServeJWKS encKey = JObj [(''keys'', JArr [JObj (sort_key fst (key_public encKey))])]"

section \<open>Keycloak's key sets\<close>

text \<open>
  The cache of the JOSE library: registering an address, fetching it now, and the set it holds.
\<close>

record ('c, 'ks) jwk_cache_lib =
  cache_New :: 'c
  cache_Register :: "string \<Rightarrow> int \<Rightarrow> 'c \<Rightarrow> 'c option"
  cache_Fetch :: "string \<Rightarrow> 'c \<Rightarrow> 'c \<times> 'ks option"
  cache_Get :: "string \<Rightarrow> 'c \<Rightarrow> 'c \<times> 'ks option"

record 'c key_cache =
  cache :: 'c
  cache_url :: string

datatype cache_error = RegisterFailed | InitialFetchFailed

definition NewKeyCache :: "('c, 'ks) jwk_cache_lib \<Rightarrow> string \<Rightarrow> int \<Rightarrow> cache_error + 'c key_cache" where
  "NewKeyCache J jwksURL refreshInterval =
     (case cache_Register J jwksURL refreshInterval (cache_New J) of
        None \<Rightarrow> Inl RegisterFailed
      | Some c \<Rightarrow>
          (case cache_Fetch J jwksURL c of
             (_, None) \<Rightarrow> Inl InitialFetchFailed
           | (c, Some _) \<Rightarrow> Inr \<lparr>cache = c, cache_url = jwksURL\<rparr>))"

definition KeySet :: "('c, 'ks) jwk_cache_lib \<Rightarrow> 'c key_cache \<Rightarrow> 'c key_cache \<times> 'ks option" where
  "KeySet J kc = (case cache_Get J (cache_url kc) (cache kc) of (c, ks) \<Rightarrow> (kc\<lparr>cache := c\<rparr>, ks))"

definition Refresh :: "('c, 'ks) jwk_cache_lib \<Rightarrow> 'c key_cache \<Rightarrow> 'c key_cache \<times> 'ks option" where
  "Refresh J kc = (case cache_Fetch J (cache_url kc) (cache kc) of (c, ks) \<Rightarrow> (kc\<lparr>cache := c\<rparr>, ks))"

section \<open>The API's key\<close>

text \<open>
  One exchange gives no reply or a status with the key set its body parses to. A set is the list of
  its keys, each \<open>Some\<close> public key when it is an RSA key.
\<close>

datatype 'p fetch_error = BadRequest | BadJWKS | EmptyJWKS | NotRSAPublic | AttemptsExhausted "nat option"

record 'p jwks_reply =
  jr_status :: nat
  jr_set :: "'p option list option"

type_synonym ('w, 'p) jwks_get = "'w \<Rightarrow> 'w \<times> 'p jwks_reply option"

fun FetchPublicKey_loop :: "('w, 'p) jwks_get \<Rightarrow> nat \<Rightarrow> nat option \<Rightarrow> 'w \<Rightarrow> 'w \<times> ('p fetch_error + 'p)" where
  "FetchPublicKey_loop get 0 lastErr w = (w, Inl (AttemptsExhausted lastErr))"
| "FetchPublicKey_loop get (Suc n) lastErr w =
     (case get w of
        (w, None) \<Rightarrow> FetchPublicKey_loop get n None w
      | (w, Some resp) \<Rightarrow>
          if jr_status resp = 200 then
            (w, case jr_set resp of
                  None \<Rightarrow> Inl BadJWKS
                | Some [] \<Rightarrow> Inl EmptyJWKS
                | Some (None # _) \<Rightarrow> Inl NotRSAPublic
                | Some (Some raw # _) \<Rightarrow> Inr raw)
          else FetchPublicKey_loop get n (Some (jr_status resp)) w)"

definition FetchPublicKey :: "('w, 'p) jwks_get \<Rightarrow> bool \<Rightarrow> 'w \<Rightarrow> 'w \<times> ('p fetch_error + 'p)" where
  "FetchPublicKey get url_ok w = (if \<not> url_ok then (w, Inl BadRequest) else FetchPublicKey_loop get 30 None w)"

text \<open>
  What is called on the fetched key: encrypting with RSA-OAEP and A256GCM, the length of the
  modulus in bytes, and the exponent.
\<close>

record 'p rsa_public_lib =
  rsa_Encrypt :: "'p \<Rightarrow> string \<Rightarrow> string option"
  rsa_Size :: "'p \<Rightarrow> int"
  rsa_E :: "'p \<Rightarrow> int"

definition PublicKey_Encrypt :: "'p rsa_public_lib \<Rightarrow> 'p \<Rightarrow> string \<Rightarrow> string option" where
  "PublicKey_Encrypt P p token = (case rsa_Encrypt P p token of None \<Rightarrow> None | Some jwe \<Rightarrow> Some jwe)"

definition DebugJSON :: "'p rsa_public_lib \<Rightarrow> 'p \<Rightarrow> json" where
  "DebugJSON P p = JObj [(''e'', JInt (rsa_E P p)), (''size'', JInt (rsa_Size P p * 8))]"

section \<open>What the published document says\<close>

lemma public_jwk_members:
  assumes "public_jwk L k = Some j" and "jwk_FromRaw L k = Some raw"
  shows "map_of j ''alg'' = Some (JStr ''RSA-OAEP'')" "map_of j ''use'' = Some (JStr ''enc'')"
    "key \<notin> {''alg'', ''use'', ''kid''} \<Longrightarrow> map_of j key = map_of raw key"
  using assms by (auto simp: public_jwk_def Let_def update_conv split: option.splits)

lemma NewBFFKey_same: "NewBFFKey L pem = NewEncryptionKeyFromPEM L pem"
  by (auto simp: NewBFFKey_def NewEncryptionKeyFromPEM_def rsa_private_key_def public_jwk_def Let_def
      split: option.split parsed_key.split sum.split)

text \<open>A fetch makes at most 30 exchanges, and a key comes from a reply with status 200.\<close>

lemma FetchPublicKey_loop_attempts:
  assumes "\<And>w :: nat. fst (get w) = Suc w"
  shows "fst (FetchPublicKey_loop get n e w) \<le> w + n"
proof (induction n arbitrary: e w)
  case (Suc n)
  obtain x where "get w = (Suc w, x)" using assms by (metis prod.collapse)
  with Suc [of None "Suc w"] Suc [of "Some (jr_status (the x))" "Suc w"] show ?case
    by (auto split: option.split)
qed simp

lemma FetchPublicKey_attempts: "(\<And>w :: nat. fst (get w) = Suc w) \<Longrightarrow> fst (FetchPublicKey get ok 0) \<le> 30"
  using FetchPublicKey_loop_attempts [of get 30 None 0] by (simp add: FetchPublicKey_def)

lemma FetchPublicKey_loop_key:
  "FetchPublicKey_loop get n e w = (w', Inr raw) \<Longrightarrow>
     \<exists>v resp ks. get v = (w', Some resp) \<and> jr_status resp = 200 \<and> jr_set resp = Some (Some raw # ks)"
proof (induction n arbitrary: e w)
  case (Suc n)
  obtain v x where g: "get w = (v, x)" by fastforce
  show ?case
  proof (cases x)
    case None
    with Suc g show ?thesis by simp
  next
    case (Some resp)
    with Suc g show ?thesis by (cases "jr_status resp = 200") (auto split: option.splits list.splits)
  qed
qed simp

end
