(* ===== verification/KeycloakFacts.thy ===== *)
theory KeycloakFacts
  imports Keycloak
begin

text \<open>
  What holds of the admin client: documents keep one entry per key through decoding, updating and
  encoding, enabling the second factor writes to one user only and keeps what it does not mean to
  change, and a token is fetched again exactly when its cached time is over.
\<close>

section \<open>Documents\<close>

lemma distinct_map_insert [simp]: "distinct (map fst m) \<Longrightarrow> distinct (map fst (map_insert kv m))"
  by (simp add: map_insert_def distinct_update)

lemma distinct_fold_insert: "distinct (map fst m) \<Longrightarrow> distinct (map fst (fold map_insert ms m))"
  by (induction ms arbitrary: m) simp_all

lemma distinct_members_map [simp]: "distinct (map fst (members_map ms))"
  by (simp add: members_map_def distinct_fold_insert)

lemma map_of_map_prod_go_any: "map_of (map (map_prod id go_any) m) key = map_option go_any (map_of m key)"
  by (induction m) auto

lemma map_of_marshal:
  assumes "distinct (map fst m)"
  shows "map_of (sort_key fst (map (map_prod id go_any) m)) key = map_option go_any (map_of m key)"
proof -
  let ?m = "map (map_prod id go_any) m"
  have d: "distinct (map fst ?m)" using assms by (simp add: comp_def)
  then have "distinct (map fst (sort_key fst ?m))"
    by (metis distinct_map distinct_sort set_sort)
  with d have "map_of (sort_key fst ?m) = map_of ?m" by (subst map_of_inject_set) simp_all
  then show ?thesis by (simp add: map_of_map_prod_go_any)
qed

lemma distinct_with_email_mfa [simp]: "distinct (map fst m) \<Longrightarrow> distinct (map fst (with_email_mfa email m))"
  by (simp add: with_email_mfa_def Let_def distinct_update)

lemma with_email_mfa_get:
  "map_of (with_email_mfa email m) ''email'' = Some (JStr email)"
  "map_of (with_email_mfa email m) ''emailVerified'' = Some (JBool True)"
  "key \<notin> {''email'', ''emailVerified'', ''attributes''} \<Longrightarrow> map_of (with_email_mfa email m) key = map_of m key"
  by (simp_all add: with_email_mfa_def Let_def update_conv)

lemma map_of_members_map: "map_of (members_map ms) = map_of (rev ms)"
proof -
  have "map_of (fold map_insert ms m) = map_of (rev ms @ m)" for m
  proof (induction ms arbitrary: m)
    case (Cons kv ms)
    then show ?case by (simp add: map_insert_def update_conv' map_add_def fun_eq_iff split: option.split)
  qed simp
  from this [of "[]"] show ?thesis by (simp add: members_map_def)
qed

lemma map_of_go_any_object:
  assumes "distinct (map fst m)"
  shows "\<exists>ms. go_any (JObj m) = JObj ms \<and> (\<forall>key. map_of ms key = map_option go_any (map_of m key))"
proof -
  let ?m = "map (map_prod id go_any) m" and ?d = "members_map (map (map_prod id go_any) m)"
  have d: "distinct (map fst ?m)" using assms by (simp add: comp_def)
  have "distinct (map fst (sort_key fst ?d))"
    by (metis distinct_map distinct_sort set_sort distinct_members_map)
  then have "map_of (sort_key fst ?d) = map_of ?d" by (subst map_of_inject_set) simp_all
  also have "\<dots> = map_of ?m" using d by (subst map_of_members_map) (subst map_of_inject_set; simp add: rev_map [symmetric])
  finally have "map_of (sort_key fst ?d) key = map_option go_any (map_of m key)" for key
    by (simp add: map_of_map_prod_go_any)
  then show ?thesis by simp
qed

definition old_attributes :: "(string \<times> json) list \<Rightarrow> string \<Rightarrow> json option" where
  "old_attributes usr key = (case map_of usr ''attributes'' of Some (JObj ms) \<Rightarrow> map_of (members_map ms) key | _ \<Rightarrow> None)"

text \<open>The attributes of the document: the two of the second factor, and those there were.\<close>

lemma with_email_mfa_attributes:
  "\<exists>attrs. map_option go_any (map_of (with_email_mfa email m) ''attributes'') = Some (JObj attrs) \<and>
     map_of attrs ''mfa_enabled'' = Some (JArr [JStr ''true'']) \<and> map_of attrs ''mfa_method'' = Some (JArr [JStr ''email'']) \<and>
     (\<forall>key. key \<notin> {''mfa_enabled'', ''mfa_method''} \<longrightarrow> map_of attrs key = map_option go_any (old_attributes m key))"
proof -
  define old where "old = (case map_of m ''attributes'' of Some (JObj ms) \<Rightarrow> members_map ms | _ \<Rightarrow> [])"
  define new where "new = AList.update ''mfa_method'' (JArr [JStr ''email'']) (AList.update ''mfa_enabled'' (JArr [JStr ''true'']) old)"
  have a: "map_of (with_email_mfa email m) ''attributes'' = Some (JObj new)"
    by (simp add: with_email_mfa_def Let_def update_conv' new_def old_def)
  have "distinct (map fst old)" by (auto simp: old_def split: option.split json.split)
  then have "distinct (map fst new)" by (simp add: new_def distinct_update)
  from map_of_go_any_object [OF this] obtain ms where
    ms: "go_any (JObj new) = JObj ms" "\<And>key. map_of ms key = map_option go_any (map_of new key)" by blast
  have "map_of old key = old_attributes m key" for key
    by (auto simp: old_def old_attributes_def split: option.split json.split)
  with ms a show ?thesis by (intro exI [of _ ms]) (simp add: new_def update_conv')
qed

section \<open>The recording transport\<close>

text \<open>A transport that writes down the requests and answers them by a function.\<close>

definition recorded :: "(out_request \<Rightarrow> in_response option) \<Rightarrow> out_request list transport" where
  "recorded answer q w = (w @ [q], answer q)"

lemma adminToken_same_realm:
  "adminToken send now later k w = (k', w', res) \<Longrightarrow> baseURL k' = baseURL k \<and> targetRealm k' = targetRealm k"
  by (auto simp: adminToken_def Let_def split: if_splits prod.splits option.splits)

lemma adminToken_recorded:
  "adminToken (recorded answer) now later k w = (k', w', res) \<Longrightarrow> w' = w \<or> w' = w @ [token_request k]"
  by (auto simp: adminToken_def recorded_def Let_def split: if_splits prod.splits option.splits)

lemma put_recorded:
  "EnableEmailMFA_put (recorded answer) k tok url usr w = (w', res) \<Longrightarrow> q \<in> set w' \<Longrightarrow> out_method q = ''PUT'' \<Longrightarrow>
     q \<in> set w \<or> out_url q = url \<and> out_body q = JsonContent (marshal_map usr)"
  by (auto simp: EnableEmailMFA_put_def clearUserCache_def recorded_def split: if_splits prod.splits option.splits)

lemma EnableEmailMFA_puts:
  assumes "EnableEmailMFA (recorded answer) now later userID email k [] = (k', w', res)"
    and "q \<in> set w'" and "out_method q = ''PUT''"
  obtains tok resp ms where "answer \<lparr>out_method = ''GET'', out_url = realm_url k (''/users/'' @ PathEscape userID),
      out_auth = bearer tok, out_body = NoContent\<rparr> = Some resp" "in_status resp = 200" "in_whole resp = Some (JObj ms)"
    "out_url q = realm_url k (''/users/'' @ PathEscape userID)"
    "out_body q = JsonContent (marshal_map (with_email_mfa email (members_map ms)))"
proof -
  obtain k1 w1 r1 where a: "adminToken (recorded answer) now later k [] = (k1, w1, r1)" by (metis prod_cases3)
  have url: "realm_url k1 p = realm_url k p" for p
    using adminToken_same_realm [OF a] by (simp add: realm_url_def)
  have noput: "\<forall>q \<in> set w1. out_method q \<noteq> ''PUT''"
    using adminToken_recorded [OF a] by (auto simp: token_request_def)
  show thesis
  proof (cases r1)
    case (KcOk tok)
    let ?get = "\<lparr>out_method = ''GET'', out_url = realm_url k (''/users/'' @ PathEscape userID),
      out_auth = bearer tok, out_body = NoContent\<rparr>"
    from assms KcOk a noput obtain resp ms where resp: "answer ?get = Some resp" "in_status resp = 200"
      "in_whole resp = Some (JObj ms)" and put: "EnableEmailMFA_put (recorded answer) k1 tok
        (realm_url k (''/users/'' @ PathEscape userID)) (with_email_mfa email (members_map ms)) (w1 @ [?get]) = (w', res)"
      by (auto simp: EnableEmailMFA_def recorded_def url Let_def unmarshal_map_def
          split: if_splits prod.splits option.splits go_map.splits json.splits)
    from put_recorded [OF put assms(2,3)] noput assms(3) resp show thesis by (auto intro: that)
  qed (use assms a noput in \<open>auto simp: EnableEmailMFA_def split: if_splits\<close>)
qed

lemma EnableEmailMFA_one_put:
  assumes "EnableEmailMFA (recorded answer) now later userID email k [] = (k', w', res)"
  shows "length (filter (\<lambda>q. out_method q = ''PUT'') w') \<le> 1"
proof -
  obtain k1 w1 r1 where a: "adminToken (recorded answer) now later k [] = (k1, w1, r1)" by (metis prod_cases3)
  have none: "filter (\<lambda>q. out_method q = ''PUT'') w1 = []"
    using adminToken_recorded [OF a] by (auto simp: token_request_def)
  from assms none show ?thesis
    by (auto simp: EnableEmailMFA_def a EnableEmailMFA_put_def clearUserCache_def recorded_def Let_def
        split: if_splits kc_result.splits option.splits go_map.splits)
qed

text \<open>The client panics only when Keycloak answers the request for the user's document with null.\<close>

lemma adminToken_no_panic: "adminToken net now later k w \<noteq> (k', w', KcPanic)"
  by (auto simp: adminToken_def Let_def split: prod.split option.split)

definition user_request :: "keycloak_admin \<Rightarrow> string \<Rightarrow> string \<Rightarrow> out_request" where
  "user_request k userID tok = \<lparr>out_method = ''GET'', out_url = realm_url k (''/users/'' @ PathEscape userID),
     out_auth = bearer tok, out_body = NoContent\<rparr>"

lemma EnableEmailMFA_panic:
  assumes "EnableEmailMFA net now later userID email k w = (k', w', KcPanic)"
  shows "\<exists>tok v resp. adminToken net now later k w = (k', v, KcOk tok) \<and>
    net (user_request k userID tok) v = (w', Some resp) \<and> in_status resp = 200 \<and> in_whole resp = Some JNull"
proof -
  obtain k1 v r1 where a: "adminToken net now later k w = (k1, v, r1)" by (metis prod_cases3)
  have url: "realm_url k1 p = realm_url k p" for p
    using adminToken_same_realm [OF a] by (simp add: realm_url_def)
  have put: "EnableEmailMFA_put net k1 tok u usr x \<noteq> (w', KcPanic)" for tok u usr x
    by (auto simp: EnableEmailMFA_put_def clearUserCache_def split: prod.split option.split)
  have "r1 \<noteq> KcPanic" using a adminToken_no_panic [of net now later k w k1 v] by auto
  with assms put show ?thesis
    by (auto simp: EnableEmailMFA_def a url Let_def unmarshal_map_def user_request_def
        split: if_splits kc_result.splits prod.splits option.splits go_map.splits json.splits)
qed

section \<open>The cached token\<close>

lemma token_ttl_exact:
  "- (2 ^ 63) + 30 \<le> e \<Longrightarrow> e < 2 ^ 63 \<Longrightarrow> token_ttl e = max 30 (e - 30)"
  by (simp add: token_ttl_def Let_def max_def in_int64_def)

section \<open>Escaping\<close>

lemma hex_digit_in: "n < 16 \<Longrightarrow> hex_digit n \<in> set ''0123456789ABCDEF''"
  unfolding hex_digit_def by (rule nth_mem) simp

lemma PathEscape_no_slash: "CHR ''/'' \<notin> set (PathEscape s)"
proof -
  have "CHR ''/'' \<notin> set (percent c)" for c
    using hex_digit_in [of "of_char c div 16"] hex_digit_in [of "of_char c mod 16"] nat_of_char_less_256 [of c]
    by (auto simp: percent_def Let_def less_mult_imp_div_less)
  moreover have "\<not> unreserved CHR ''/''" by code_simp
  ultimately show ?thesis by (auto simp: PathEscape_def)
qed

end
