(* ===== verification/AuthzMain.thy ===== *)
theory AuthzMain
  imports AuthzFacts Keys KeycloakFacts
begin

text \<open>
  Start-up of the authorizer (\<open>authz/cmd/server/main.go\<close>): from the environment to the key cache,
  the private key and the document it publishes. What the handlers use of the token library is
  then given by these keys.
\<close>

definition BFFPrivateKeyPEM :: "authz_config \<Rightarrow> string option" where
  "BFFPrivateKeyPEM cfg = Std_decode (BFFPrivateKeyBase64 cfg)"

datatype start_error = MissingVariable | NoKeyCache cache_error | BadBase64 | BadKey key_error

record ('c, 'k) authz_server =
  srv_config :: authz_config
  srv_cache :: "'c key_cache"
  srv_key :: "'k enc_key"
  srv_jwks :: json

definition authz_main ::
  "('c, 'ks) jwk_cache_lib \<Rightarrow> 'k key_lib \<Rightarrow> (string \<Rightarrow> string) \<Rightarrow> start_error + ('c, 'k) authz_server" where
  "authz_main J L env =
     (case authz_Load env of
        None \<Rightarrow> Inl MissingVariable
      | Some cfg \<Rightarrow>
          (case NewKeyCache J (JWKSUrl cfg) (JWKSRefreshInterval cfg) of
             Inl e \<Rightarrow> Inl (NoKeyCache e)
           | Inr kc \<Rightarrow>
               (case BFFPrivateKeyPEM cfg of
                  None \<Rightarrow> Inl BadBase64
                | Some pemBytes \<Rightarrow>
                    (case NewBFFKey L pemBytes of
                       Inl e \<Rightarrow> Inl (BadKey e)
                     | Inr bffKey \<Rightarrow> Inr \<lparr>srv_config = cfg, srv_cache = kc, srv_key = bffKey,
                         srv_jwks = PublicJWKSetJSON bffKey\<rparr>))))"

text \<open>
  The token library as the handlers see it through the cache and the key, for a request at time
  \<open>t\<close>: validating a token looks at the clock.
\<close>

definition key_token_lib ::
  "(int \<Rightarrow> 'ks \<Rightarrow> string \<Rightarrow> string \<Rightarrow> jwt_token option) \<Rightarrow> int \<Rightarrow> ('c, 'ks) jwk_cache_lib \<Rightarrow> 'k key_lib \<Rightarrow> 'k enc_key
     \<Rightarrow> ('c key_cache, 'ks) token_lib" where
  "key_token_lib parse t J L key = \<lparr>jwt_Parse = parse t, cache_KeySet = KeySet J, cache_Refresh = Refresh J,
     bff_Decrypt = BFFKey_Decrypt L key, bff_Encrypt = (\<lambda>c t. (c, BFFKey_Encrypt L key t))\<rparr>"

section \<open>What the proxy hands out\<close>

lemma proxy_reply:
  assumes "tokenProxyHandler L issuer post body c = (c', Served resp)" and "resp_status resp = 200"
  shows "\<exists>form reply raw jwe res c1 c2 ms doc. body = Some form \<and> post form c = (c1, Some reply) \<and>
    reply_json reply = Some (JObj ms) \<and> map_of (members_map ms) ''access_token'' = Some (JStr raw) \<and>
    Validate L issuer raw c1 = (c2, Some res) \<and> bff_Encrypt L c2 raw = (c', Some jwe) \<and>
    resp_body resp = JsonBody (JObj doc) \<and> map_of doc ''access_token'' = Some (JStr jwe) \<and>
    (\<forall>key. key \<noteq> ''access_token'' \<longrightarrow> map_of doc key = map_option go_any (map_of (members_map ms) key))"
proof -
  have 200: "authz_error code msg = Served resp \<Longrightarrow> code = 200" for code msg
    using assms(2) by (auto simp: authz_error_def write_json_def)
  from assms obtain form reply raw jwe res c1 c2 ms where p: "body = Some form" "post form c = (c1, Some reply)"
    "reply_json reply = Some (JObj ms)" "map_of (members_map ms) ''access_token'' = Some (JStr raw)"
    "Validate L issuer raw c1 = (c2, Some res)" "bff_Encrypt L c2 raw = (c', Some jwe)"
    and doc: "resp_body resp = JsonBody (marshal_map (AList.update ''access_token'' (JStr jwe) (members_map ms)))"
    by (auto simp: tokenProxyHandler_def unmarshal_map_def write_json_def Let_def
        split: if_splits option.splits prod.splits go_map.splits json.splits dest!: 200)
  let ?doc = "sort_key fst (map (map_prod id go_any) (AList.update ''access_token'' (JStr jwe) (members_map ms)))"
  have "resp_body resp = JsonBody (JObj ?doc)" "map_of ?doc ''access_token'' = Some (JStr jwe)"
    "key \<noteq> ''access_token'' \<Longrightarrow> map_of ?doc key = map_option go_any (map_of (members_map ms) key)" for key
    using doc by (simp_all add: marshal_map_def map_of_marshal distinct_update update_conv)
  with p show ?thesis by blast
qed

section \<open>A token handed out comes back\<close>

text \<open>What is relied on of JWE under the wrapper's key: five parts, and decryption undoes encryption.\<close>

definition jwe_lawful :: "'k key_lib \<Rightarrow> 'k enc_key \<Rightarrow> bool" where
  "jwe_lawful L key \<longleftrightarrow> (\<forall>p t. jwe_Encrypt L (key_private key) p = Some t \<longrightarrow>
     jwe_Decrypt L (key_private key) t = Some p \<and> CountByte t CHR ''.'' = 4)"

lemma handed_out_verifies:
  assumes "jwe_lawful L key" and "bff_Encrypt (key_token_lib parse t J L key) c raw = (c', Some jwe)"
    and "header_Get (req_header r) ''Authorization'' = ''Bearer '' @ jwe"
  shows "verifyHandler (key_token_lib parse t' J L key) issuer secret now r d =
    (case Validate (key_token_lib parse t' J L key) issuer raw d of
       (d', None) \<Rightarrow> (d', authz_error 401 ''invalid or expired token'')
     | (d', Some res) \<Rightarrow> (d', write_status (identity_headers secret now res) 200))"
proof -
  have "HasPrefix (''Bearer '' @ jwe) ''Bearer ''" "TrimPrefix (''Bearer '' @ jwe) ''Bearer '' = jwe"
    by (rule HasPrefix_append, rule TrimPrefix_append)
  moreover have "bff_Decrypt (key_token_lib parse t' J L key) jwe = Some raw" "CountByte jwe CHR ''.'' = 4"
    using assms(1,2) by (auto simp: jwe_lawful_def key_token_lib_def BFFKey_Decrypt_def BFFKey_Encrypt_def)
  ultimately show ?thesis
    unfolding verifyHandler_def Let_def assms(3) by simp
qed

lemma Validate_parsed:
  "Validate T issuer raw c = (c', Some res) \<Longrightarrow> \<exists>ks token. jwt_Parse T ks issuer raw = Some token \<and> res = result_of token"
  by (auto simp: Validate_def split: prod.splits option.splits)

end
