(* ===== verification/SecurityBank.thy ===== *)
theory SecurityBank
  imports BankHandlers "HOL-Library.State_Monad"
begin

text \<open>
  The bank of \<open>api-keycloak-security/api\<close>, which has its own repositories, service and handlers.
  They are modelled here as the programs they are, statement by statement on a connection with an
  open transaction, a \<open>defer tx.Rollback\<close> and loops over rows, in the state monad; the second part
  proves that every operation does what the functions of the theory \<open>Bank\<close> say, and leaves no
  transaction open.
\<close>

section \<open>The connection\<close>

record pg_conn =
  pg_committed :: bank_db
  pg_work :: "bank_db option"

type_synonym 'a pg = "(pg_conn, bank_error + 'a) state"

text \<open>\<open>x, err := p; if err != nil \{ return nil, err \}\<close>, and the deferred rollback.\<close>

definition and_then :: "'a pg \<Rightarrow> ('a \<Rightarrow> 'b pg) \<Rightarrow> 'b pg" where
  "and_then p f = do {
     r \<leftarrow> p;
     case r of Inl e \<Rightarrow> State_Monad.return (Inl e) | Inr x \<Rightarrow> f x
   }"

definition pg_return :: "bank_error + 'a \<Rightarrow> 'a pg" where
  "pg_return r = State_Monad.return r"

definition pg_Rollback :: "(pg_conn, unit) state" where
  "pg_Rollback = State (\<lambda>c. ((), c\<lparr>pg_work := None\<rparr>))"

definition with_rollback :: "'a pg \<Rightarrow> 'a pg" where
  "with_rollback p = do { r \<leftarrow> p; pg_Rollback; State_Monad.return r }"

definition pg_Begin :: "db_fault \<Rightarrow> unit pg" where
  "pg_Begin fault = State (\<lambda>c. if fault = FailAt CallBegin then (Inl DatabaseError, c)
     else (Inr (), c\<lparr>pg_work := Some (pg_committed c)\<rparr>))"

definition pg_Commit :: "db_fault \<Rightarrow> unit pg" where
  "pg_Commit fault = State (\<lambda>c.
     case pg_work c of
       None \<Rightarrow> (Inl DatabaseError, c)
     | Some w \<Rightarrow>
         (case fault of
            FailAt CallCommit \<Rightarrow> (Inl DatabaseError, c\<lparr>pg_work := None\<rparr>)
          | CommitLost applied \<Rightarrow>
              (Inl DatabaseError, c\<lparr>pg_work := None, pg_committed := if applied then w else pg_committed c\<rparr>)
          | _ \<Rightarrow> (Inr (), c\<lparr>pg_work := None, pg_committed := w\<rparr>)))"

text \<open>
  A statement in the open transaction works on what the transaction sees; the sequences it drew
  from have moved on for good. A statement of the pool is a transaction of its own.
\<close>

definition tx_query :: "(bank_db \<Rightarrow> bank_db \<times> (bank_error + 'a)) \<Rightarrow> 'a pg" where
  "tx_query f = State (\<lambda>c.
     case pg_work c of
       None \<Rightarrow> (Inl DatabaseError, c)
     | Some w \<Rightarrow> (case f w of (w', r) \<Rightarrow>
         (r, c\<lparr>pg_work := Some w', pg_committed := rollback (pg_committed c) w'\<rparr>)))"

definition pool_query :: "(bank_db \<Rightarrow> bank_db \<times> (bank_error + 'a)) \<Rightarrow> 'a pg" where
  "pool_query f = State (\<lambda>c.
     case f (pg_committed c) of
       (w, Inl e) \<Rightarrow> (Inl e, c\<lparr>pg_committed := rollback (pg_committed c) w\<rparr>)
     | (w, Inr x) \<Rightarrow> (Inr x, c\<lparr>pg_committed := w\<rparr>))"

text \<open>A writing statement of the pool, whose confirmation can be lost.\<close>

definition pool_exec :: "db_fault \<Rightarrow> (bank_db \<Rightarrow> bank_db \<times> (bank_error + 'a)) \<Rightarrow> 'a pg" where
  "pool_exec fault f = State (\<lambda>c.
     case f (pg_committed c) of
       (w, Inl e) \<Rightarrow> (Inl e, c\<lparr>pg_committed := rollback (pg_committed c) w\<rparr>)
     | (w, Inr x) \<Rightarrow>
         (case fault of
            CommitLost applied \<Rightarrow> (Inl DatabaseError,
              c\<lparr>pg_committed := if applied then w else rollback (pg_committed c) w\<rparr>)
          | _ \<Rightarrow> (Inr x, c\<lparr>pg_committed := w\<rparr>)))"

section \<open>Repositories\<close>

fun sec_scanAccount :: "account_row list \<Rightarrow> bank_error + bank_account" where
  "sec_scanAccount [] = Inl ErrNotFound"
| "sec_scanAccount (r # _) = Inr \<lparr>ID = row_id r, AccountNumber = row_number r, OwnerName = row_owner r,
     Balance = load_numeric (row_balance r), CreatedAt = row_created r\<rparr>"

fun sec_scan_number :: "string \<Rightarrow> account_row list \<Rightarrow> bank_error + bank_account" where
  "sec_scan_number num [] = (if pg_text num then sec_scanAccount [] else Inl DatabaseError)"
| "sec_scan_number num (r # rs) = sec_scanAccount (r # rs)"

definition sec_GetByAccountNumber :: "db_fault \<Rightarrow> string \<Rightarrow> bank_account pg" where
  "sec_GetByAccountNumber fault num = pool_query (\<lambda>db.
     (db, if fault = FailAt CallSelect then Inl DatabaseError
          else sec_scan_number num (filter (\<lambda>r. row_number r = num) (bank_accounts db))))"

definition sec_GetByAccountNumberForUpdate :: "db_fault \<Rightarrow> string \<Rightarrow> bank_account pg" where
  "sec_GetByAccountNumberForUpdate fault num = tx_query (\<lambda>db.
     (db, if fault = FailAt CallSelect then Inl DatabaseError
          else sec_scan_number num (filter (\<lambda>r. row_number r = num) (bank_accounts db))))"

definition sec_UpdateBalance :: "db_fault \<Rightarrow> int \<Rightarrow> rat \<Rightarrow> unit pg" where
  "sec_UpdateBalance fault i newBalance = tx_query (\<lambda>db.
     if fault = FailAt CallUpdate then (db, Inl DatabaseError)
     else case store_numeric newBalance of
            None \<Rightarrow> (db, Inl DatabaseError)
          | Some c \<Rightarrow> (db\<lparr>bank_accounts :=
              map (\<lambda>r. if row_id r = i then r\<lparr>row_balance := c\<rparr> else r) (bank_accounts db)\<rparr>, Inr ()))"

definition sec_Create_account :: "db_fault \<Rightarrow> string \<Rightarrow> string \<Rightarrow> bank_account pg" where
  "sec_Create_account fault num owner = pool_exec fault (\<lambda>db.
     if fault = FailAt CallInsert \<or> CHR 0x00 \<in> set num \<or> CHR 0x00 \<in> set owner then (db, Inl DatabaseError)
     else let drawn = db\<lparr>account_seq := account_seq db + 1\<rparr>
          in if char_length num > 50 \<or> char_length owner > 100 then (drawn, Inl DatabaseError)
             else if filter (\<lambda>r. row_number r = num) (bank_accounts db) \<noteq> [] then (drawn, Inl UniqueViolation)
             else let row = \<lparr>row_id = account_seq db, row_number = num, row_owner = owner, row_balance = 0,
                             row_created = db_now db\<rparr>
                  in (drawn\<lparr>bank_accounts := bank_accounts db @ [row]\<rparr>, sec_scanAccount [row]))"

definition sec_scanTransaction :: "tx_row \<Rightarrow> bank_transaction" where
  "sec_scanTransaction t = \<lparr>TxID = tx_id t, AccountID = tx_account t, TxType = tx_type t,
     Amount = load_numeric (tx_amount t), Description = tx_description t, TxCreatedAt = tx_created t\<rparr>"

definition sec_Create_transaction :: "db_fault \<Rightarrow> int \<Rightarrow> string \<Rightarrow> rat \<Rightarrow> string \<Rightarrow> bank_transaction pg" where
  "sec_Create_transaction fault acc txType amount description = tx_query (\<lambda>db.
     if fault = FailAt CallInsert then (db, Inl DatabaseError)
     else let drawn = db\<lparr>tx_seq := tx_seq db + 1\<rparr>
          in case store_numeric amount of
               None \<Rightarrow> (drawn, Inl DatabaseError)
             | Some c \<Rightarrow>
                 if c \<le> 0 then (drawn, Inl DatabaseError)
                 else if txType \<noteq> ''deposit'' \<and> txType \<noteq> ''withdrawal'' then (drawn, Inl DatabaseError)
                 else if filter (\<lambda>r. row_id r = acc) (bank_accounts db) = [] then (drawn, Inl DatabaseError)
                 else let row = \<lparr>tx_id = tx_seq db, tx_account = acc, tx_type = txType, tx_amount = c,
                                 tx_description = description, tx_created = db_now db\<rparr>
                      in (drawn\<lparr>transactions := transactions db @ [row]\<rparr>, Inr (sec_scanTransaction row)))"

text \<open>\<open>for rows.Next()\<close>: each row is scanned and appended.\<close>

fun sec_scan_rows :: "bank_transaction list \<Rightarrow> tx_row list \<Rightarrow> bank_transaction list" where
  "sec_scan_rows txs [] = txs"
| "sec_scan_rows txs (t # rows) = sec_scan_rows (txs @ [sec_scanTransaction t]) rows"

definition sec_ListByAccountID ::
  "(tx_row list \<Rightarrow> tx_row list) \<Rightarrow> db_fault \<Rightarrow> int \<Rightarrow> int \<Rightarrow> int \<Rightarrow> bank_transaction list pg" where
  "sec_ListByAccountID order fault acc limit offset = pool_query (\<lambda>db.
     (db, if fault = FailAt CallSelect then Inl DatabaseError
          else let rows = order (filter (\<lambda>t. tx_account t = acc) (transactions db))
               in Inr (sec_scan_rows [] (take (nat limit) (drop (nat offset) rows)))))"

section \<open>Account service\<close>

definition sec_svc_GetAccount :: "db_fault \<Rightarrow> string \<Rightarrow> bank_account pg" where
  "sec_svc_GetAccount fault num = sec_GetByAccountNumber fault num"

definition sec_svc_Deposit :: "db_fault \<Rightarrow> string \<Rightarrow> rat \<Rightarrow> bank_account pg" where
  "sec_svc_Deposit fault num amount =
     (if amount \<le> 0 then pg_return (Inl AmountNotPositive)
      else and_then (pg_Begin fault) (\<lambda>_. with_rollback (
        and_then (sec_GetByAccountNumberForUpdate fault num) (\<lambda>account.
        let newBalance = fl (Balance account + amount) in
        and_then (sec_UpdateBalance fault (ID account) newBalance) (\<lambda>_.
        and_then (sec_Create_transaction fault (ID account) ''deposit'' amount '''') (\<lambda>_.
        and_then (pg_Commit fault) (\<lambda>_.
        pg_return (Inr (account\<lparr>Balance := newBalance\<rparr>)))))))))"

definition sec_svc_Withdraw :: "db_fault \<Rightarrow> string \<Rightarrow> rat \<Rightarrow> bank_account pg" where
  "sec_svc_Withdraw fault num amount =
     (if amount \<le> 0 then pg_return (Inl AmountNotPositive)
      else and_then (pg_Begin fault) (\<lambda>_. with_rollback (
        and_then (sec_GetByAccountNumberForUpdate fault num) (\<lambda>account.
        if Balance account < amount then pg_return (Inl ErrInsufficientFunds)
        else let newBalance = fl (Balance account - amount) in
        and_then (sec_UpdateBalance fault (ID account) newBalance) (\<lambda>_.
        and_then (sec_Create_transaction fault (ID account) ''withdrawal'' amount '''') (\<lambda>_.
        and_then (pg_Commit fault) (\<lambda>_.
        pg_return (Inr (account\<lparr>Balance := newBalance\<rparr>)))))))))"

definition sec_svc_ListTransactions ::
  "(tx_row list \<Rightarrow> tx_row list) \<Rightarrow> db_fault \<Rightarrow> string \<Rightarrow> int \<Rightarrow> int \<Rightarrow> bank_transaction list pg" where
  "sec_svc_ListTransactions order fault num limit offset =
     and_then (sec_GetByAccountNumber fault num) (\<lambda>account.
     sec_ListByAccountID order fault (ID account) limit offset)"

definition sec_svc_CreateAccount :: "db_fault \<Rightarrow> string \<Rightarrow> string \<Rightarrow> bank_account pg" where
  "sec_svc_CreateAccount fault num owner = do {
     r \<leftarrow> sec_Create_account fault num owner;
     case r of
       Inl e \<Rightarrow> if e = UniqueViolation then pg_return (Inl ErrAccountAlreadyExists) else pg_return (Inl e)
     | Inr account \<Rightarrow> pg_return (Inr account)
   }"

section \<open>The programs do what the functions say\<close>

text \<open>On a connection from the pool, with no transaction open before or after.\<close>

definition on_pool :: "'a pg \<Rightarrow> (bank_db \<Rightarrow> bank_db \<times> (bank_error + 'a)) \<Rightarrow> bool" where
  "on_pool p f \<longleftrightarrow> (\<forall>db. run_state p \<lparr>pg_committed = db, pg_work = None\<rparr> =
     (snd (f db), \<lparr>pg_committed = fst (f db), pg_work = None\<rparr>))"

named_theorems pg_run \<open>what a program does to a connection\<close>

lemma run_and_then [pg_run]:
  "run_state (and_then p f) c = (case run_state p c of (Inl e, c') \<Rightarrow> (Inl e, c') | (Inr x, c') \<Rightarrow> run_state (f x) c')"
  by (simp add: and_then_def split: prod.split sum.split)

lemma run_pg_return [pg_run]: "run_state (pg_return r) c = (r, c)"
  by (simp add: pg_return_def)

lemma run_with_rollback [pg_run]:
  "run_state (with_rollback p) c = (case run_state p c of (r, c') \<Rightarrow> (r, c'\<lparr>pg_work := None\<rparr>))"
  by (simp add: with_rollback_def pg_Rollback_def split: prod.split)

lemma run_pool_query [pg_run]:
  "run_state (pool_query f) c = (case f (pg_committed c) of
     (w, Inl e) \<Rightarrow> (Inl e, c\<lparr>pg_committed := rollback (pg_committed c) w\<rparr>) | (w, Inr x) \<Rightarrow> (Inr x, c\<lparr>pg_committed := w\<rparr>))"
  by (simp add: pool_query_def)

lemma run_pool_exec [pg_run]:
  "run_state (pool_exec fault f) c = (case f (pg_committed c) of
       (w, Inl e) \<Rightarrow> (Inl e, c\<lparr>pg_committed := rollback (pg_committed c) w\<rparr>)
     | (w, Inr x) \<Rightarrow> (case fault of
            CommitLost applied \<Rightarrow> (Inl DatabaseError, c\<lparr>pg_committed := if applied then w else rollback (pg_committed c) w\<rparr>)
          | _ \<Rightarrow> (Inr x, c\<lparr>pg_committed := w\<rparr>)))"
  by (simp add: pool_exec_def)

lemma run_tx_query [pg_run]:
  "run_state (tx_query f) \<lparr>pg_committed = db, pg_work = Some w\<rparr> =
     (case f w of (w', r) \<Rightarrow> (r, \<lparr>pg_committed = rollback db w', pg_work = Some w'\<rparr>))"
  by (simp add: tx_query_def split: prod.split)

lemma run_pg_Begin [pg_run]:
  "run_state (pg_Begin fault) c =
     (if fault = FailAt CallBegin then (Inl DatabaseError, c) else (Inr (), c\<lparr>pg_work := Some (pg_committed c)\<rparr>))"
  by (simp add: pg_Begin_def)

lemma scan_find: "sec_scan_number n (filter (\<lambda>r. row_number r = num) rs) = scan_number n (find (\<lambda>r. row_number r = num) rs)"
  by (induction rs) (simp_all add: scanAccount_def scan_number_def)

lemma select_or_fail:
  "(if fault = FailAt CallSelect then Inl DatabaseError
    else sec_scan_number num (filter (\<lambda>r. row_number r = num) (bank_accounts db))) = GetByAccountNumberForUpdate fault num db"
  by (simp add: scan_find GetByAccountNumberForUpdate_def select_account_def)

lemma rollback_self [simp]: "rollback db db = db"
  by (simp add: rollback_def)

text \<open>The three statements of a booking, inside the transaction.\<close>

definition book_program :: "db_fault \<Rightarrow> bank_account \<Rightarrow> string \<Rightarrow> rat \<Rightarrow> rat \<Rightarrow> bank_account pg" where
  "book_program fault account txType amount newBalance =
     and_then (sec_UpdateBalance fault (ID account) newBalance) (\<lambda>_.
     and_then (sec_Create_transaction fault (ID account) txType amount '''') (\<lambda>_.
     and_then (pg_Commit fault) (\<lambda>_.
     pg_return (Inr (account\<lparr>Balance := newBalance\<rparr>)))))"

lemma run_update [pg_run]:
  "run_state (sec_UpdateBalance fault i newBalance) \<lparr>pg_committed = db, pg_work = Some db\<rparr> =
     (case UpdateBalance fault i newBalance db of
        Inl e \<Rightarrow> (Inl e, \<lparr>pg_committed = db, pg_work = Some db\<rparr>)
      | Inr work \<Rightarrow> (Inr (), \<lparr>pg_committed = db, pg_work = Some work\<rparr>))"
  by (cases "store_numeric newBalance")
    (simp_all add: sec_UpdateBalance_def UpdateBalance_def run_tx_query rollback_def)

lemma run_insert [pg_run]:
  "run_state (sec_Create_transaction fault i txType amount desc) \<lparr>pg_committed = db, pg_work = Some w\<rparr> =
     (case Create_transaction fault i txType amount desc w of
        (work, r) \<Rightarrow> (r, \<lparr>pg_committed = rollback db work, pg_work = Some work\<rparr>))"
proof -
  have "(filter (\<lambda>r. row_id r = i) rs = []) = (\<not> list_ex (\<lambda>r. row_id r = i) rs)" for rs :: "account_row list"
    by (auto simp: filter_empty_conv list_ex_iff)
  then show ?thesis
    by (cases "store_numeric amount")
      (auto simp: sec_Create_transaction_def Create_transaction_def run_tx_query Let_def sec_scanTransaction_def)
qed

lemma run_book:
  "run_state (with_rollback (book_program fault account txType amount newBalance)) \<lparr>pg_committed = db, pg_work = Some db\<rparr> =
     (snd (book fault account txType amount newBalance db),
      \<lparr>pg_committed = fst (book fault account txType amount newBalance db), pg_work = None\<rparr>)"
proof (cases "UpdateBalance fault (ID account) newBalance db")
  case (Inl e)
  then show ?thesis by (simp add: book_program_def pg_run book_def)
next
  case (Inr work)
  obtain w r where ins: "Create_transaction fault (ID account) txType amount '''' work = (w, r)" by fastforce
  show ?thesis
    using Inr ins by (cases r; cases fault; simp add: book_program_def pg_run book_def pg_Commit_def split: db_call.split)
qed

lemma Deposit_program: "on_pool (sec_svc_Deposit fault num amount) (svc_Deposit fault num amount)"
  unfolding on_pool_def
proof
  fix db
  show "run_state (sec_svc_Deposit fault num amount) \<lparr>pg_committed = db, pg_work = None\<rparr> =
    (snd (svc_Deposit fault num amount db), \<lparr>pg_committed = fst (svc_Deposit fault num amount db), pg_work = None\<rparr>)"
    using run_book [of fault _ "''deposit''" amount _ db]
    by (cases "GetByAccountNumberForUpdate fault num db")
      (simp_all add: sec_svc_Deposit_def svc_Deposit_def pg_run sec_GetByAccountNumberForUpdate_def select_or_fail
        Let_def book_program_def)
qed

lemma Withdraw_program: "on_pool (sec_svc_Withdraw fault num amount) (svc_Withdraw fault num amount)"
  unfolding on_pool_def
proof
  fix db
  show "run_state (sec_svc_Withdraw fault num amount) \<lparr>pg_committed = db, pg_work = None\<rparr> =
    (snd (svc_Withdraw fault num amount db), \<lparr>pg_committed = fst (svc_Withdraw fault num amount db), pg_work = None\<rparr>)"
    using run_book [of fault _ "''withdrawal''" amount _ db]
    by (cases "GetByAccountNumberForUpdate fault num db")
      (simp_all add: sec_svc_Withdraw_def svc_Withdraw_def pg_run sec_GetByAccountNumberForUpdate_def select_or_fail
        Let_def book_program_def)
qed

lemma GetAccount_program: "on_pool (sec_GetByAccountNumber fault num) (\<lambda>db. (db, GetByAccountNumber fault num db))"
proof -
  have "GetByAccountNumber fault num db = GetByAccountNumberForUpdate fault num db" for db
    by (simp add: GetByAccountNumber_def GetByAccountNumberForUpdate_def)
  then show ?thesis
    unfolding on_pool_def sec_GetByAccountNumber_def select_or_fail
    by (auto simp: pg_run split: sum.split)
qed

lemma scan_rows_map: "sec_scan_rows txs rows = txs @ map sec_scanTransaction rows"
  by (induction rows arbitrary: txs) simp_all

lemma ListTransactions_program:
  "on_pool (sec_svc_ListTransactions order fault num limit offset)
     (\<lambda>db. (db, svc_ListTransactions order fault num limit offset db))"
  unfolding on_pool_def
proof
  fix db
  show "run_state (sec_svc_ListTransactions order fault num limit offset) \<lparr>pg_committed = db, pg_work = None\<rparr> =
    (snd (db, svc_ListTransactions order fault num limit offset db),
     \<lparr>pg_committed = fst (db, svc_ListTransactions order fault num limit offset db), pg_work = None\<rparr>)"
    using GetAccount_program [of fault num, unfolded on_pool_def, rule_format, of db]
    by (cases "GetByAccountNumber fault num db")
      (simp_all add: sec_svc_ListTransactions_def svc_ListTransactions_def pg_run sec_ListByAccountID_def
        ListByAccountID_def scan_rows_map sec_scanTransaction_def [abs_def])
qed

lemma CreateAccount_program: "on_pool (sec_svc_CreateAccount fault num owner) (svc_CreateAccount fault num owner)"
  unfolding on_pool_def
proof
  fix db
  have "(filter (\<lambda>r. row_number r = num) rs \<noteq> []) = (find (\<lambda>r. row_number r = num) rs \<noteq> None)" for rs
    by (induction rs) auto
  then show "run_state (sec_svc_CreateAccount fault num owner) \<lparr>pg_committed = db, pg_work = None\<rparr> =
    (snd (svc_CreateAccount fault num owner db), \<lparr>pg_committed = fst (svc_CreateAccount fault num owner db), pg_work = None\<rparr>)"
    by (auto simp: sec_svc_CreateAccount_def svc_CreateAccount_def sec_Create_account_def Create_account_def pg_run
        Let_def select_account_def scanAccount_def rollback_def split: db_fault.split)
qed

section \<open>Handlers\<close>

text \<open>A handler runs its service call on a connection of the pool.\<close>

definition pg_call :: "'a pg \<Rightarrow> bank_db \<Rightarrow> bank_db \<times> (bank_error + 'a)" where
  "pg_call p db = (case run_state p \<lparr>pg_committed = db, pg_work = None\<rparr> of (res, c) \<Rightarrow> (pg_committed c, res))"

lemma pg_call_on_pool: "on_pool p f \<Longrightarrow> pg_call p db = f db"
  by (simp add: on_pool_def pg_call_def)

definition sec_writeJSON :: "nat \<Rightarrow> json \<Rightarrow> served" where
  "sec_writeJSON code v = Served \<lparr>resp_status = code,
     resp_header = header_Set Map.empty ''Content-Type'' ''application/json'', resp_body = JsonBody v\<rparr>"

definition sec_errorResponse :: "string \<Rightarrow> json" where
  "sec_errorResponse msg = JObj [(''error'', JStr msg)]"

definition sec_GetAccount :: "db_fault \<Rightarrow> 'a claims_scheme option \<Rightarrow> bank_db \<Rightarrow> bank_db \<times> served" where
  "sec_GetAccount fault claims db =
     (case claims of
        None \<Rightarrow> (db, nil_dereference)
      | Some cl \<Rightarrow>
          (case pg_call (sec_svc_GetAccount fault (BankAccountNumber cl)) db of
             (db, Inl e) \<Rightarrow>
               (db, if e = ErrNotFound
                    then sec_writeJSON 404 (sec_errorResponse ''no bank account found for this user'')
                    else sec_writeJSON 500 (sec_errorResponse ''internal error''))
           | (db, Inr account) \<Rightarrow>
               (db, sec_writeJSON 200 (JObj [(''account_number'', JStr (AccountNumber account)),
                 (''owner_name'', JStr (OwnerName account)), (''balance'', JFloat (Balance account)),
                 (''created_at'', JStr (RFC3339Nano (CreatedAt account)))]))))"

definition sec_Deposit :: "db_fault \<Rightarrow> 'a claims_scheme option \<Rightarrow> request \<Rightarrow> bank_db \<Rightarrow> bank_db \<times> served" where
  "sec_Deposit fault claims r db =
     (case decode_field json_float ''amount'' 0 (req_body r) of
        (decoded, amount) \<Rightarrow>
          if \<not> decoded \<or> amount \<le> 0
          then (db, sec_writeJSON 400 (sec_errorResponse ''amount must be a positive number''))
          else case claims of
                 None \<Rightarrow> (db, nil_dereference)
               | Some cl \<Rightarrow>
                   (case pg_call (sec_svc_Deposit fault (BankAccountNumber cl) amount) db of
                      (db, Inl e) \<Rightarrow>
                        (db, if e = ErrNotFound
                             then sec_writeJSON 404 (sec_errorResponse ''no bank account found for this user'')
                             else sec_writeJSON 500 (sec_errorResponse ''internal error''))
                    | (db, Inr account) \<Rightarrow>
                        (db, sec_writeJSON 200 (JObj [(''account_number'', JStr (AccountNumber account)),
                          (''balance'', JFloat (Balance account))]))))"

definition sec_Withdraw :: "db_fault \<Rightarrow> 'a claims_scheme option \<Rightarrow> request \<Rightarrow> bank_db \<Rightarrow> bank_db \<times> served" where
  "sec_Withdraw fault claims r db =
     (case decode_field json_float ''amount'' 0 (req_body r) of
        (decoded, amount) \<Rightarrow>
          if \<not> decoded \<or> amount \<le> 0
          then (db, sec_writeJSON 400 (sec_errorResponse ''amount must be a positive number''))
          else case claims of
                 None \<Rightarrow> (db, nil_dereference)
               | Some cl \<Rightarrow>
                   (case pg_call (sec_svc_Withdraw fault (BankAccountNumber cl) amount) db of
                      (db, Inl e) \<Rightarrow>
                        (db, case e of
                               ErrInsufficientFunds \<Rightarrow> sec_writeJSON 422 (sec_errorResponse ''insufficient funds'')
                             | ErrNotFound \<Rightarrow>
                                 sec_writeJSON 404 (sec_errorResponse ''no bank account found for this user'')
                             | _ \<Rightarrow> sec_writeJSON 500 (sec_errorResponse ''internal error''))
                    | (db, Inr account) \<Rightarrow>
                        (db, sec_writeJSON 200 (JObj [(''account_number'', JStr (AccountNumber account)),
                          (''balance'', JFloat (Balance account))]))))"

definition sec_queryInt :: "request \<Rightarrow> string \<Rightarrow> int \<Rightarrow> int" where
  "sec_queryInt r key defaultVal =
     (let s = Query_Get r key
      in if s = '''' then defaultVal
         else case ParseInt s of Some v \<Rightarrow> if v < 0 then defaultVal else v | None \<Rightarrow> defaultVal)"

text \<open>The loop that builds the response; an empty description is omitted.\<close>

fun sec_append_responses :: "json list \<Rightarrow> bank_transaction list \<Rightarrow> json list" where
  "sec_append_responses resp [] = resp"
| "sec_append_responses resp (t # txs) = sec_append_responses
     (resp @ [JObj ([(''id'', JInt (TxID t)), (''type'', JStr (TxType t)), (''amount'', JFloat (Amount t))] @
        (if Description t \<noteq> '''' then [(''description'', JStr (Description t))] else []) @
        [(''created_at'', JStr (RFC3339Nano (TxCreatedAt t)))])]) txs"

definition sec_ListTransactions ::
  "(tx_row list \<Rightarrow> tx_row list) \<Rightarrow> db_fault \<Rightarrow> 'a claims_scheme option \<Rightarrow> request \<Rightarrow> bank_db \<Rightarrow> bank_db \<times> served" where
  "sec_ListTransactions order fault claims r db =
     (let limit = sec_queryInt r ''limit'' 20;
          offset = sec_queryInt r ''offset'' 0;
          limit = (if limit < 1 \<or> limit > 100 then 20 else limit)
      in case claims of
           None \<Rightarrow> (db, nil_dereference)
         | Some cl \<Rightarrow>
             (case pg_call (sec_svc_ListTransactions order fault (BankAccountNumber cl) limit offset) db of
                (db, Inl e) \<Rightarrow>
                  (db, if e = ErrNotFound
                       then sec_writeJSON 404 (sec_errorResponse ''no bank account found for this user'')
                       else sec_writeJSON 500 (sec_errorResponse ''internal error''))
              | (db, Inr txs) \<Rightarrow>
                  (db, sec_writeJSON 200 (JObj [(''transactions'', JArr (sec_append_responses [] txs))]))))"

text \<open>The request of \<open>admin.go\<close> decodes into two fields.\<close>

definition sec_CreateAccount :: "db_fault \<Rightarrow> request \<Rightarrow> bank_db \<Rightarrow> bank_db \<times> served" where
  "sec_CreateAccount fault r db =
     (let (good1, num) = decode_field json_string ''account_number'' '''' (req_body r);
          (good2, owner) = decode_field json_string ''owner_name'' '''' (req_body r)
      in if \<not> (good1 \<and> good2) then (db, sec_writeJSON 400 (sec_errorResponse ''invalid request body''))
         else if num = '''' \<or> owner = ''''
         then (db, sec_writeJSON 400 (sec_errorResponse ''account_number and owner_name are required''))
         else case pg_call (sec_svc_CreateAccount fault num owner) db of
                (db, Inl e) \<Rightarrow>
                  (db, if e = ErrAccountAlreadyExists
                       then sec_writeJSON 409 (sec_errorResponse ''an account with this number already exists'')
                       else sec_writeJSON 500 (sec_errorResponse ''internal error''))
              | (db, Inr account) \<Rightarrow>
                  (db, sec_writeJSON 201 (JObj [(''account_number'', JStr (AccountNumber account)),
                     (''balance'', JFloat (Balance account)), (''owner_name'', JStr (OwnerName account))])))"

subsection \<open>They answer like the handlers of the bank\<close>

lemma sec_respond [simp]: "sec_writeJSON code v = bank_respond code v" "sec_errorResponse msg = errorResponse msg"
  by (simp_all add: sec_writeJSON_def bank_respond_def write_json_def sec_errorResponse_def errorResponse_def)

lemma sec_GetAccount_eq [simp]: "sec_GetAccount fault claims = (\<lambda>db. (db, GetAccount fault claims db))"
  using pg_call_on_pool [OF GetAccount_program]
  by (intro ext) (simp add: sec_GetAccount_def GetAccount_def sec_svc_GetAccount_def svc_GetAccount_def split: option.split sum.split)

lemma sec_Deposit_eq [simp]: "sec_Deposit = Deposit"
  by (intro ext) (simp add: sec_Deposit_def Deposit_def pg_call_on_pool [OF Deposit_program] balance_json_def
      split: prod.split option.split sum.split)

lemma sec_Withdraw_eq [simp]: "sec_Withdraw = Withdraw"
  by (intro ext) (simp add: sec_Withdraw_def Withdraw_def pg_call_on_pool [OF Withdraw_program] balance_json_def
      split: prod.split option.split sum.split bank_error.split)

lemma append_responses_map: "sec_append_responses resp txs = resp @ map transaction_json txs"
  by (induction txs arbitrary: resp) (simp_all add: transaction_json_def)

lemma sec_queryInt_eq [simp]: "sec_queryInt r key defaultVal = queryInt r key defaultVal"
  by (simp add: sec_queryInt_def queryInt_def Let_def split: option.split)

lemma sec_ListTransactions_eq [simp]:
  "sec_ListTransactions order fault claims r = (\<lambda>db. (db, ListTransactions order fault claims r db))"
  by (intro ext) (simp add: sec_ListTransactions_def ListTransactions_def page_limit_def Let_def append_responses_map
      pg_call_on_pool [OF ListTransactions_program] split: option.split sum.split)

lemma sec_CreateAccount_eq [simp]: "sec_CreateAccount = CreateAccount"
  by (intro ext) (simp add: sec_CreateAccount_def CreateAccount_def pg_call_on_pool [OF CreateAccount_program]
      split: prod.split sum.split)

section \<open>The property\<close>

text \<open>
  C16: each call of the account service, run statement by statement on a connection of the pool
  with any call to the database failing, returns what the one-step function returns, commits the
  tables it leaves, and leaves no transaction open, whichever statement it ends at.
\<close>

theorem service_programs_implement:
  "run_state (sec_svc_GetAccount fault num) \<lparr>pg_committed = db, pg_work = None\<rparr> =
     (svc_GetAccount fault num db, \<lparr>pg_committed = db, pg_work = None\<rparr>) \<and>
   run_state (sec_svc_Deposit fault num amount) \<lparr>pg_committed = db, pg_work = None\<rparr> =
     (snd (svc_Deposit fault num amount db), \<lparr>pg_committed = fst (svc_Deposit fault num amount db), pg_work = None\<rparr>) \<and>
   run_state (sec_svc_Withdraw fault num amount) \<lparr>pg_committed = db, pg_work = None\<rparr> =
     (snd (svc_Withdraw fault num amount db), \<lparr>pg_committed = fst (svc_Withdraw fault num amount db), pg_work = None\<rparr>) \<and>
   run_state (sec_svc_ListTransactions order fault num limit offset) \<lparr>pg_committed = db, pg_work = None\<rparr> =
     (svc_ListTransactions order fault num limit offset db, \<lparr>pg_committed = db, pg_work = None\<rparr>) \<and>
   run_state (sec_svc_CreateAccount fault num owner) \<lparr>pg_committed = db, pg_work = None\<rparr> =
     (snd (svc_CreateAccount fault num owner db), \<lparr>pg_committed = fst (svc_CreateAccount fault num owner db), pg_work = None\<rparr>)"
  using GetAccount_program Deposit_program Withdraw_program ListTransactions_program CreateAccount_program
  unfolding on_pool_def sec_svc_GetAccount_def svc_GetAccount_def by simp

end
