(* ===== verification/SecurityApi.thy ===== *)
theory SecurityApi
  imports AuthzMain SecurityBank
begin

text \<open>
  The banking API without a wrapper (\<open>api-keycloak-security/api\<close>): its configuration, the
  middleware that validates the token itself (\<open>internal/auth/middleware.go\<close>), and the routes of
  \<open>cmd/server/main.go\<close>. The handlers are those of the theory \<open>SecurityBank\<close>. Parsing a token under
  a key set and an issuer is an argument.
\<close>

section \<open>Configuration\<close>

record sec_config =
  sec_DBHost :: string
  sec_DBPort :: string
  sec_DBUser :: string
  sec_DBPassword :: string
  sec_DBName :: string
  sec_JWKSUrl :: string
  sec_JWTIssuer :: string
  sec_JWKSRefreshInterval :: int
  sec_APIPort :: string
  PrivateKeyBase64 :: string

definition sec_getEnv :: "(string \<Rightarrow> string) \<Rightarrow> string \<Rightarrow> string \<Rightarrow> string" where
  "sec_getEnv env key defaultVal = (let v = env key in if v \<noteq> '''' then v else defaultVal)"

definition sec_mustGetEnv :: "(string \<Rightarrow> string) \<Rightarrow> string \<Rightarrow> string option" where
  "sec_mustGetEnv env key = (let v = env key in if v = '''' then None else Some v)"

definition sec_Load :: "(string \<Rightarrow> string) \<Rightarrow> sec_config option" where
  "sec_Load env =
     (let secs = (case ParseInt (sec_getEnv env ''JWKS_REFRESH_INTERVAL'' ''300'') of Some n \<Rightarrow> n | None \<Rightarrow> 300)
      in Option.bind (sec_mustGetEnv env ''DB_USER'') (\<lambda>usr.
         Option.bind (sec_mustGetEnv env ''DB_PASSWORD'') (\<lambda>pass.
         Option.bind (sec_mustGetEnv env ''DB_NAME'') (\<lambda>name.
         Option.bind (sec_mustGetEnv env ''KEYCLOAK_JWKS_URL'') (\<lambda>url.
         Option.bind (sec_mustGetEnv env ''KEYCLOAK_ISSUER'') (\<lambda>issuer.
         Some \<lparr>sec_DBHost = sec_getEnv env ''DB_HOST'' ''localhost'', sec_DBPort = sec_getEnv env ''DB_PORT'' ''5432'',
           sec_DBUser = usr, sec_DBPassword = pass, sec_DBName = name, sec_JWKSUrl = url, sec_JWTIssuer = issuer,
           sec_JWKSRefreshInterval = wrap64 (secs * nanos_per_second),
           sec_APIPort = sec_getEnv env ''API_PORT'' ''8080'',
           PrivateKeyBase64 = env ''API_PRIVATE_KEY_BASE64''\<rparr>))))))"

text \<open>\<open>None\<close> is a decoding error, \<open>Some None\<close> that no key is configured.\<close>

definition PrivateKeyPEM :: "sec_config \<Rightarrow> string option option" where
  "PrivateKeyPEM cfg =
     (if PrivateKeyBase64 cfg = '''' then Some None else map_option Some (Std_decode (PrivateKeyBase64 cfg)))"

definition sec_DBConnString :: "sec_config \<Rightarrow> string" where
  "sec_DBConnString c = ''postgres://'' @ sec_DBUser c @ '':'' @ sec_DBPassword c @ ''@'' @ sec_DBHost c @ '':'' @
     sec_DBPort c @ ''/'' @ sec_DBName c"

section \<open>Middleware\<close>

record sec_claims = claims +
  RealmRoles :: "string list"

text \<open>
  The parser of tokens at the time of the request, the cached keys, and the decryption of the
  configured key, if any.
\<close>

record ('c, 'ks) sec_lib =
  sec_Parse :: "'ks \<Rightarrow> string \<Rightarrow> string \<Rightarrow> jwt_token option"
  sec_KeySet :: "'c \<Rightarrow> 'c \<times> 'ks option"
  encKey :: "(string \<Rightarrow> string option) option"

record 'c sec_state =
  sec_keys :: 'c
  sec_bank :: bank_db

type_synonym 's sec_handler = "sec_claims option \<Rightarrow> request \<Rightarrow> 's \<Rightarrow> 's \<times> served"

definition sec_error :: "nat \<Rightarrow> string \<Rightarrow> served" where
  "sec_error code msg = write_json Map.empty code (JObj [(''error'', JStr msg)])"

text \<open>The claims of a token; the roles are collected in a loop over the raw values.\<close>

definition sec_stringClaim :: "jwt_token \<Rightarrow> string \<Rightarrow> string" where
  "sec_stringClaim token key =
     (case token_Get token key of None \<Rightarrow> [] | Some v \<Rightarrow> (case v of JStr s \<Rightarrow> s | _ \<Rightarrow> []))"

fun sec_collect_roles :: "string list \<Rightarrow> json list \<Rightarrow> string list" where
  "sec_collect_roles roles [] = roles"
| "sec_collect_roles roles (r # rawRoles) =
     sec_collect_roles (case r of JStr s \<Rightarrow> roles @ [s] | _ \<Rightarrow> roles) rawRoles"

definition sec_extractRealmRoles :: "jwt_token \<Rightarrow> string list" where
  "sec_extractRealmRoles token =
     (case token_Get token ''realm_access'' of
        None \<Rightarrow> []
      | Some v \<Rightarrow>
          (case v of
             JObj ms \<Rightarrow> (case map_of (members_map ms) ''roles'' of
                 Some (JArr rawRoles) \<Rightarrow> sec_collect_roles [] rawRoles | _ \<Rightarrow> [])
           | _ \<Rightarrow> []))"

lemma sec_stringClaim_eq [simp]: "sec_stringClaim token key = stringClaim token key"
  by (simp add: sec_stringClaim_def stringClaim_def split: option.split json.split)

lemma collect_roles_members: "sec_collect_roles roles rs = roles @ string_members rs"
  by (induction roles rs rule: sec_collect_roles.induct) (simp_all split: json.split)

lemma sec_extractRealmRoles_eq [simp]: "sec_extractRealmRoles token = extractRealmRoles token"
  by (simp add: sec_extractRealmRoles_def extractRealmRoles_def collect_roles_members split: option.split json.split)

definition token_claims :: "jwt_token \<Rightarrow> sec_claims" where
  "token_claims token = \<lparr>Sub = Subject token, PreferredUsername = sec_stringClaim token ''preferred_username'',
     Email = sec_stringClaim token ''email'', BankAccountNumber = sec_stringClaim token ''bank_account_number'',
     RealmRoles = sec_extractRealmRoles token\<rparr>"

definition sec_validate ::
  "('c, 'ks) sec_lib \<Rightarrow> string \<Rightarrow> 'c sec_state sec_handler \<Rightarrow> string \<Rightarrow> request \<Rightarrow> 'c sec_state \<Rightarrow> 'c sec_state \<times> served" where
  "sec_validate L issuer next tokenStr r s =
     (case sec_KeySet L (sec_keys s) of
        (c, None) \<Rightarrow> (s\<lparr>sec_keys := c\<rparr>, sec_error 500 ''key set unavailable'')
      | (c, Some ks) \<Rightarrow>
          (case sec_Parse L ks issuer tokenStr of
             None \<Rightarrow> (s\<lparr>sec_keys := c\<rparr>, sec_error 401 ''invalid or expired token'')
           | Some token \<Rightarrow> next (Some (token_claims token)) r (s\<lparr>sec_keys := c\<rparr>)))"

definition sec_Middleware ::
  "('c, 'ks) sec_lib \<Rightarrow> string \<Rightarrow> 'c sec_state sec_handler \<Rightarrow> request \<Rightarrow> 'c sec_state \<Rightarrow> 'c sec_state \<times> served" where
  "sec_Middleware L issuer next r s =
     (let authHeader = header_Get (req_header r) ''Authorization''
      in if \<not> HasPrefix authHeader ''Bearer '' then (s, sec_error 401 ''missing or invalid Authorization header'')
         else let tokenStr = TrimPrefix authHeader ''Bearer ''
              in if CountByte tokenStr CHR ''.'' = 4 then
                   (case encKey L of
                      None \<Rightarrow> (s, sec_error 401 ''encrypted token received but no decryption key configured'')
                    | Some decrypt \<Rightarrow>
                        (case decrypt tokenStr of
                           None \<Rightarrow> (s, sec_error 401 ''token decryption failed'')
                         | Some plain \<Rightarrow> sec_validate L issuer next plain r s))
                 else sec_validate L issuer next tokenStr r s)"

fun has_role :: "string \<Rightarrow> string list \<Rightarrow> bool" where
  "has_role role [] = False"
| "has_role role (claimRole # roles) = (if claimRole = role then True else has_role role roles)"

definition RequireRole :: "string \<Rightarrow> 's sec_handler \<Rightarrow> 's sec_handler" where
  "RequireRole role next ctx r s =
     (case ctx of
        None \<Rightarrow> (s, sec_error 401 ''no claims in context'')
      | Some cl \<Rightarrow> if has_role role (RealmRoles cl) then next ctx r s
                   else (s, sec_error 403 ''insufficient permissions''))"

section \<open>Routes\<close>

definition on_sec_bank :: "(bank_db \<Rightarrow> bank_db \<times> served) \<Rightarrow> 'c sec_state \<Rightarrow> 'c sec_state \<times> served" where
  "on_sec_bank f s = (case f (sec_bank s) of (db, out) \<Rightarrow> (s\<lparr>sec_bank := db\<rparr>, out))"

definition sec_routes ::
  "('c, 'ks) sec_lib \<Rightarrow> string \<Rightarrow> json option \<Rightarrow> (tx_row list \<Rightarrow> tx_row list) \<Rightarrow> db_fault \<Rightarrow> request \<Rightarrow> 'c sec_state route list" where
  "sec_routes L issuer jwks order fault r =
     [(''GET'', ''/health'', health)] @
     (case jwks of
        None \<Rightarrow> []
      | Some body \<Rightarrow> [(''GET'', ''/.well-known/jwks.json'', \<lambda>s. (s, write_json Map.empty 200 body))]) @
     [(''GET'', ''/api/v1/accounts/me'',
         sec_Middleware L issuer (\<lambda>ctx r. on_sec_bank (sec_GetAccount fault ctx)) r),
      (''POST'', ''/api/v1/accounts/me/deposit'',
         sec_Middleware L issuer (\<lambda>ctx r. on_sec_bank (sec_Deposit fault ctx r)) r),
      (''POST'', ''/api/v1/accounts/me/withdraw'',
         sec_Middleware L issuer (\<lambda>ctx r. on_sec_bank (sec_Withdraw fault ctx r)) r),
      (''GET'', ''/api/v1/accounts/me/transactions'',
         sec_Middleware L issuer (\<lambda>ctx r. on_sec_bank (sec_ListTransactions order fault ctx r)) r),
      (''POST'', ''/api/v1/admin/accounts'',
         sec_Middleware L issuer (RequireRole ''admin'' (\<lambda>ctx r. on_sec_bank (sec_CreateAccount fault r))) r)]"

definition sec_serve ::
  "('c, 'ks) sec_lib \<Rightarrow> string \<Rightarrow> json option \<Rightarrow> (tx_row list \<Rightarrow> tx_row list) \<Rightarrow> db_fault \<Rightarrow> request
     \<Rightarrow> 'c sec_state \<Rightarrow> 'c sec_state \<times> served" where
  "sec_serve L issuer jwks order fault r s = mux_serve (sec_routes L issuer jwks order fault r) r s"

section \<open>Start-up\<close>

text \<open>This API's own key cache (\<open>internal/auth/jwks.go\<close>), which it never forces to refresh.\<close>

definition sec_NewKeyCache :: "('c, 'ks) jwk_cache_lib \<Rightarrow> string \<Rightarrow> int \<Rightarrow> cache_error + 'c key_cache" where
  "sec_NewKeyCache J jwksURL refreshInterval =
     (case cache_Register J jwksURL refreshInterval (cache_New J) of
        None \<Rightarrow> Inl RegisterFailed
      | Some c \<Rightarrow>
          (let (c, fetched) = cache_Fetch J jwksURL c
           in if fetched = None then Inl InitialFetchFailed else Inr \<lparr>cache = c, cache_url = jwksURL\<rparr>))"

definition sec_cache_KeySet :: "('c, 'ks) jwk_cache_lib \<Rightarrow> 'c key_cache \<Rightarrow> 'c key_cache \<times> 'ks option" where
  "sec_cache_KeySet J kc = (let (c, ks) = cache_Get J (cache_url kc) (cache kc) in (kc\<lparr>cache := c\<rparr>, ks))"

datatype sec_start_error = SecMissingVariable | NoDatabase | SecNoKeyCache cache_error | SecBadBase64 | SecBadKey key_error

record ('c, 'k) sec_server =
  sec_cfg :: sec_config
  sec_cache :: "'c key_cache"
  sec_encKey :: "'k enc_key option"

lemma sec_cache_eq [simp]: "sec_NewKeyCache = NewKeyCache" "sec_cache_KeySet = KeySet"
  by (intro ext, auto simp: sec_NewKeyCache_def NewKeyCache_def sec_cache_KeySet_def KeySet_def Let_def
      split: option.split prod.split)+

text \<open>\<open>db_ok\<close> tells whether the database can be opened and answers the ping.\<close>

definition sec_main ::
  "('c, 'ks) jwk_cache_lib \<Rightarrow> 'k key_lib \<Rightarrow> bool \<Rightarrow> (string \<Rightarrow> string) \<Rightarrow> sec_start_error + ('c, 'k) sec_server" where
  "sec_main J K db_ok env =
     (case sec_Load env of
        None \<Rightarrow> Inl SecMissingVariable
      | Some cfg \<Rightarrow>
          if \<not> db_ok then Inl NoDatabase
          else case sec_NewKeyCache J (sec_JWKSUrl cfg) (sec_JWKSRefreshInterval cfg) of
                 Inl e \<Rightarrow> Inl (SecNoKeyCache e)
               | Inr kc \<Rightarrow>
                   (case PrivateKeyPEM cfg of
                      None \<Rightarrow> Inl SecBadBase64
                    | Some None \<Rightarrow> Inr \<lparr>sec_cfg = cfg, sec_cache = kc, sec_encKey = None\<rparr>
                    | Some (Some pemBytes) \<Rightarrow>
                        (case NewEncryptionKeyFromPEM K pemBytes of
                           Inl e \<Rightarrow> Inl (SecBadKey e)
                         | Inr key \<Rightarrow> Inr \<lparr>sec_cfg = cfg, sec_cache = kc, sec_encKey = Some key\<rparr>)))"

text \<open>The library the routes run on for a request at time \<open>t\<close>, and the document they publish.\<close>

definition server_lib ::
  "(int \<Rightarrow> 'ks \<Rightarrow> string \<Rightarrow> string \<Rightarrow> jwt_token option) \<Rightarrow> int \<Rightarrow> ('c, 'ks) jwk_cache_lib \<Rightarrow> 'k key_lib \<Rightarrow> ('c, 'k) sec_server
     \<Rightarrow> ('c key_cache, 'ks) sec_lib" where
  "server_lib parse t J K srv = \<lparr>sec_Parse = parse t, sec_KeySet = sec_cache_KeySet J,
     encKey = map_option (EncryptionKey_Decrypt K) (sec_encKey srv)\<rparr>"

definition server_jwks :: "('c, 'k) sec_server \<Rightarrow> json option" where
  "server_jwks srv = map_option ServeJWKS (sec_encKey srv)"

end
