(* ===== verification/BankServer.thy ===== *)
theory BankServer
  imports BankHandlers "HOL-Library.Sublist"
begin

text \<open>
  The contract of a server over the bank's tables, which both banking APIs fulfil: every request
  keeps the tables well formed and only adds to them. Accounts keep their key, number and owner,
  and the ledger is append-only. What follows for sequences of requests is proved once, here.
\<close>

section \<open>Tables that only grow\<close>

definition row_identity :: "account_row \<Rightarrow> int \<times> string \<times> string" where
  "row_identity r = (row_id r, row_number r, row_owner r)"

definition extends :: "bank_db \<Rightarrow> bank_db \<Rightarrow> bool" where
  "extends db db' \<longleftrightarrow>
     prefix (map row_identity (bank_accounts db)) (map row_identity (bank_accounts db')) \<and>
     prefix (transactions db) (transactions db')"

lemma extends_refl [simp]: "extends db db"
  by (simp add: extends_def)

lemma extends_trans: "extends a b \<Longrightarrow> extends b c \<Longrightarrow> extends a c"
  unfolding extends_def by (meson prefix_order.trans)

lemma extends_same: "same_tables db db' \<Longrightarrow> extends db db'"
  by (simp add: same_tables_def extends_def)

lemma extends_booked: "extends db (booked i txType c balance db)"
proof -
  have "map row_identity (set_balance i balance rs) = map row_identity rs" for rs
    by (simp add: set_balance_def row_identity_def)
  then show ?thesis by (simp add: extends_def booked_def)
qed

lemma booking_extends: "booking_of db fault num ty amount f db' res \<Longrightarrow> extends db db'"
  by (auto simp: booking_of_def extends_same extends_booked)

lemma svc_Deposit_extends: "extends db (fst (svc_Deposit fault num amount db))"
  by (metis booking_extends prod.collapse svc_Deposit_booking)

lemma svc_Withdraw_extends: "extends db (fst (svc_Withdraw fault num amount db))"
  by (metis booking_extends prod.collapse svc_Withdraw_booking)

text \<open>An account that was there is still found under its number.\<close>

lemma find_identity:
  "find (\<lambda>r. row_number r = num) xs = Some r \<Longrightarrow> prefix (map row_identity xs) (map row_identity ys) \<Longrightarrow>
     \<exists>r'. find (\<lambda>r. row_number r = num) ys = Some r' \<and> row_identity r' = row_identity r"
proof (induction xs arbitrary: ys)
  case (Cons x xs)
  then obtain y ys' where ys: "ys = y # ys'" "row_identity y = row_identity x"
    "prefix (map row_identity xs) (map row_identity ys')" by (cases ys) auto
  with Cons show ?case by (auto simp: row_identity_def split: if_splits)
qed simp

lemma extends_select:
  "extends db db' \<Longrightarrow> select_account db num = Some r \<Longrightarrow>
     \<exists>r'. select_account db' num = Some r' \<and> row_identity r' = row_identity r"
  unfolding extends_def select_account_def using find_identity by blast

section \<open>The contract\<close>

locale bank_server =
  fixes serve :: "'e \<Rightarrow> 's \<Rightarrow> 's" and tables :: "'s \<Rightarrow> bank_db"
  assumes keeps_ok: "bank_ok (tables s) \<Longrightarrow> bank_ok (tables (serve e s))"
    and only_adds: "extends (tables s) (tables (serve e s))"
begin

lemma run_ok: "bank_ok (tables s) \<Longrightarrow> bank_ok (tables (fold serve es s))"
  by (induction es arbitrary: s) (auto simp: keeps_ok)

lemma run_extends: "extends (tables s) (tables (fold serve es s))"
proof (induction es arbitrary: s)
  case (Cons e es)
  show ?case using extends_trans [OF only_adds Cons [of "serve e s"]] by simp
qed simp

lemma run_keeps_account:
  "select_account (tables s) num = Some r \<Longrightarrow>
     \<exists>r'. select_account (tables (fold serve es s)) num = Some r' \<and> row_identity r' = row_identity r"
  by (rule extends_select [OF run_extends])

end

end
