(* ===== verification/SecurityFacts.thy ===== *)
theory SecurityFacts
  imports SecurityApi BankServer
begin

text \<open>
  What holds of the banking API without a wrapper: the tables change only for a request with a
  token that validates, on the account the token names, or, for opening accounts, with the role
  \<open>admin\<close>; and opening an account keeps the tables well formed.
\<close>

section \<open>The token of a request\<close>

definition bearer_token :: "('c, 'ks) sec_lib \<Rightarrow> string \<Rightarrow> request \<Rightarrow> 'c \<Rightarrow> jwt_token \<Rightarrow> bool" where
  "bearer_token L issuer r c token \<longleftrightarrow> (\<exists>tok inner ks.
     header_Get (req_header r) ''Authorization'' = ''Bearer '' @ tok \<and>
     (if CountByte tok CHR ''.'' = 4 then \<exists>decrypt. encKey L = Some decrypt \<and> decrypt tok = Some inner else inner = tok) \<and>
     snd (sec_KeySet L c) = Some ks \<and> sec_Parse L ks issuer inner = Some token)"

lemma sec_validate_cases:
  assumes "sec_validate L issuer h t r s = (s', out)"
  obtains "sec_bank s' = sec_bank s"
    | ks token where "snd (sec_KeySet L (sec_keys s)) = Some ks" "sec_Parse L ks issuer t = Some token"
        "h (Some (token_claims token)) r (s\<lparr>sec_keys := fst (sec_KeySet L (sec_keys s))\<rparr>) = (s', out)"
  using assms by (auto simp: sec_validate_def split: prod.splits option.splits)

lemma sec_Middleware_cases:
  assumes "sec_Middleware L issuer h r s = (s', out)" and "sec_bank s' \<noteq> sec_bank s"
  obtains token c where "bearer_token L issuer r (sec_keys s) token"
    "h (Some (token_claims token)) r (s\<lparr>sec_keys := c\<rparr>) = (s', out)"
proof -
  let ?h = "header_Get (req_header r) ''Authorization''"
  let ?tok = "TrimPrefix ?h ''Bearer ''"
  from assms obtain inner where pre: "HasPrefix ?h ''Bearer ''" and inner:
    "if CountByte ?tok CHR ''.'' = 4 then \<exists>decrypt. encKey L = Some decrypt \<and> decrypt ?tok = Some inner else inner = ?tok"
    and v: "sec_validate L issuer h inner r s = (s', out)"
    by (auto simp: sec_Middleware_def Let_def split: if_splits option.splits)
  from v show thesis
  proof (cases rule: sec_validate_cases)
    case 1
    with assms(2) show thesis by simp
  next
    case (2 ks token)
    have "bearer_token L issuer r (sec_keys s) token"
      unfolding bearer_token_def using TrimPrefix_split [OF pre] inner 2 by blast
    with 2(3) that show thesis by blast
  qed
qed

lemma has_role_iff [simp]: "has_role role roles \<longleftrightarrow> role \<in> set roles"
  by (induction roles) auto

lemma RequireRole_Some:
  "RequireRole role h (Some cl) r s = (s', out) \<Longrightarrow>
     s' = s \<or> role \<in> set (RealmRoles cl) \<and> h (Some cl) r s = (s', out)"
  by (auto simp: RequireRole_def split: if_splits)

section \<open>Opening an account\<close>

definition opened :: "string \<Rightarrow> string \<Rightarrow> bank_db \<Rightarrow> bank_db" where
  "opened num owner db = db\<lparr>account_seq := account_seq db + 1, bank_accounts := bank_accounts db @
     [\<lparr>row_id = account_seq db, row_number = num, row_owner = owner, row_balance = 0, row_created = db_now db\<rparr>]\<rparr>"

lemma svc_CreateAccount_cases:
  assumes "svc_CreateAccount fault num owner db = (db', res)"
  obtains (refused) e n where "res = Inl e" "db' = db\<lparr>account_seq := account_seq db + n\<rparr>" "0 \<le> n"
    | (opened) acct where "res = Inr acct" "db' = opened num owner db" "select_account db num = None"
    | (unconfirmed) "res = Inl DatabaseError" "db' = opened num owner db" "select_account db num = None"
proof -
  have sel: "select_account (db\<lparr>account_seq := i\<rparr>) num = select_account db num" for i
    by (simp add: select_account_def)
  from assms have "(\<exists>e. res = Inl e \<and> (db' = db \<or> db' = db\<lparr>account_seq := account_seq db + 1\<rparr>)) \<or>
      db' = opened num owner db \<and> select_account db num = None \<and> (res = Inl DatabaseError \<or> (\<exists>acct. res = Inr acct))"
    by (cases fault) (auto simp: svc_CreateAccount_def Create_account_def Let_def sel opened_def scanAccount_def split: if_splits)
  with refused [where n = 0] refused [where n = 1] opened unconfirmed show thesis by auto
qed

lemma bank_ok_opened:
  assumes "bank_ok db" and "select_account db num = None"
  shows "bank_ok (opened num owner db)"
proof -
  have "num \<notin> row_number ` set (bank_accounts db)"
    using assms(2) by (auto simp: select_account_def find_None_iff)
  moreover have "account_seq db \<notin> row_id ` set (bank_accounts db)" "\<forall>r \<in> set (bank_accounts db). row_id r < account_seq db + 1"
    using assms(1) by (auto simp: bank_ok_def)
  ultimately show ?thesis
    using assms(1) unfolding bank_ok_def opened_def by (auto simp: cents_ok_def)
qed

lemma svc_CreateAccount_ok:
  assumes "svc_CreateAccount fault num owner db = (db', res)" and "bank_ok db"
  shows "bank_ok db'"
  using assms(1)
proof (cases rule: svc_CreateAccount_cases)
  case (refused e n)
  with assms(2) show ?thesis by (auto simp: bank_ok_def)
next
  case (opened acct)
  with assms(2) show ?thesis by (simp add: bank_ok_opened)
next
  case unconfirmed
  with assms(2) show ?thesis by (simp add: bank_ok_opened)
qed

lemma find_snoc:
  "find P (xs @ [x]) = (case find P xs of Some y \<Rightarrow> Some y | None \<Rightarrow> if P x then Some x else None)"
  by (induction xs) simp_all

lemma select_opened:
  "select_account (opened num owner db) other =
     (case select_account db other of
        Some r \<Rightarrow> Some r
      | None \<Rightarrow> if other = num then Some \<lparr>row_id = account_seq db, row_number = num, row_owner = owner,
                  row_balance = 0, row_created = db_now db\<rparr> else None)"
  by (auto simp: select_account_def opened_def find_snoc split: option.split)

section \<open>What changes the tables\<close>

definition opens_account :: "db_fault \<Rightarrow> bank_db \<Rightarrow> bank_db \<Rightarrow> bool" where
  "opens_account fault db db' \<longleftrightarrow> (\<exists>num owner. num \<noteq> '''' \<and> owner \<noteq> '''' \<and> db' = fst (svc_CreateAccount fault num owner db))"

lemma CreateAccount_opens: "CreateAccount fault r db = (db', out) \<Longrightarrow> db' = db \<or> opens_account fault db db'"
  by (fastforce simp: CreateAccount_def opens_account_def split: prod.splits if_splits sum.splits)

lemma on_sec_bank_cases:
  "on_sec_bank f s = (s', out) \<Longrightarrow> f (sec_bank s) = (sec_bank s', out)"
  by (auto simp: on_sec_bank_def split: prod.splits)

lemma on_sec_bank_reads [simp]: "on_sec_bank (\<lambda>db. (db, g db)) = (\<lambda>s. (s, g (sec_bank s)))"
  by (simp add: on_sec_bank_def fun_eq_iff)

lemma sec_serve_changes:
  assumes "sec_serve L issuer jwks order fault r s = (s', out)" and "sec_bank s' \<noteq> sec_bank s"
  shows "\<exists>token. bearer_token L issuer r (sec_keys s) token \<and>
    (moves_money fault (BankAccountNumber (token_claims token)) (sec_bank s) (sec_bank s') \<or>
     ''admin'' \<in> set (RealmRoles (token_claims token)) \<and> opens_account fault (sec_bank s) (sec_bank s'))"
proof -
  from mux_serve_route [OF assms(1) [unfolded sec_serve_def]] assms(2) obtain m h where
    h: "(m, req_path r, h) \<in> set (sec_routes L issuer jwks order fault r)" "h s = (s', out)" by auto
  let ?mid = "\<lambda>f. sec_Middleware L issuer f r"
  have keep: "?mid (\<lambda>ctx r s. (s, g ctx r s)) s = (s', out) \<Longrightarrow> False" for g
    using assms(2) by (elim sec_Middleware_cases) auto
  have "h = ?mid (\<lambda>ctx r. on_sec_bank (Deposit fault ctx r)) \<or> h = ?mid (\<lambda>ctx r. on_sec_bank (Withdraw fault ctx r)) \<or>
      h = ?mid (RequireRole ''admin'' (\<lambda>ctx r. on_sec_bank (CreateAccount fault r)))"
    using h assms(2) by (auto simp: sec_routes_def health_def dest: keep split: option.splits)
  then consider "?mid (\<lambda>ctx r. on_sec_bank (Deposit fault ctx r)) s = (s', out)"
    | "?mid (\<lambda>ctx r. on_sec_bank (Withdraw fault ctx r)) s = (s', out)"
    | "?mid (RequireRole ''admin'' (\<lambda>ctx r. on_sec_bank (CreateAccount fault r))) s = (s', out)"
    using h(2) by auto
  then show ?thesis
  proof cases
    case 1
    from sec_Middleware_cases [OF this assms(2)] assms(2) show ?thesis
      by (fastforce dest!: on_sec_bank_cases Deposit_moves)
  next
    case 2
    from sec_Middleware_cases [OF this assms(2)] assms(2) show ?thesis
      by (fastforce dest!: on_sec_bank_cases Withdraw_moves)
  next
    case 3
    from sec_Middleware_cases [OF this assms(2)] assms(2) show ?thesis
      by (fastforce dest!: RequireRole_Some on_sec_bank_cases CreateAccount_opens)
  qed
qed

lemma sec_serve_bank_ok:
  assumes "bank_ok (sec_bank s)" and "sec_serve L issuer jwks order fault r s = (s', out)"
  shows "bank_ok (sec_bank s')"
proof (cases "sec_bank s' = sec_bank s")
  case False
  from sec_serve_changes [OF assms(2) False] assms(1) show ?thesis
    by (auto simp: opens_account_def dest: moves_money_ok) (metis prod.collapse svc_CreateAccount_ok)
qed (use assms(1) in simp)

lemma sec_serve_keeps_ok: "bank_ok (sec_bank s) \<Longrightarrow> bank_ok (sec_bank (fst (sec_serve L issuer jwks order fault r s)))"
  by (metis prod.collapse sec_serve_bank_ok)

lemma opens_account_extends: "opens_account fault db db' \<Longrightarrow> extends db db'"
proof -
  assume "opens_account fault db db'"
  then obtain num owner where "db' = fst (svc_CreateAccount fault num owner db)" by (auto simp: opens_account_def)
  then obtain res where "svc_CreateAccount fault num owner db = (db', res)" by (metis prod.collapse)
  then show ?thesis by (cases rule: svc_CreateAccount_cases) (simp_all add: extends_def opened_def)
qed

lemma sec_serve_extends: "extends (sec_bank s) (sec_bank (fst (sec_serve L issuer jwks order fault r s)))"
proof (cases "sec_bank (fst (sec_serve L issuer jwks order fault r s)) = sec_bank s")
  case False
  obtain s' out where serve: "sec_serve L issuer jwks order fault r s = (s', out)" by fastforce
  with sec_serve_changes [OF serve] False show ?thesis
    by (auto simp: moves_money_def svc_Deposit_extends svc_Withdraw_extends dest: opens_account_extends)
qed simp

interpretation security_bank: bank_server "\<lambda>(L, order, fault, r) s. fst (sec_serve L issuer jwks order fault r s)" sec_bank
  for issuer jwks
  by unfold_locales (auto simp: sec_serve_extends sec_serve_keeps_ok)

text \<open>So the tables stay well formed and the ledger only grows, whatever is requested.\<close>

lemma sec_run_tables:
  "bank_ok (sec_bank s) \<Longrightarrow>
     bank_ok (sec_bank (fold (\<lambda>(L, order, fault, r) s. fst (sec_serve L issuer jwks order fault r s)) qs s)) \<and>
     extends (sec_bank s) (sec_bank (fold (\<lambda>(L, order, fault, r) s. fst (sec_serve L issuer jwks order fault r s)) qs s))"
  using security_bank.run_ok security_bank.run_extends by blast

end
