(* ===== verification/MfaRuns.thy ===== *)
theory MfaRuns
  imports MfaFacts BankServer
begin

text \<open>
  Sequences of requests to the banking API. Every request drives the enrollment store by at most
  one operation on behalf of the user its signed headers name, so a run of the API is a run of
  the store, and what is known of store runs carries over.
\<close>

section \<open>The store operation of a request\<close>

definition body_string :: "string \<Rightarrow> request \<Rightarrow> string" where
  "body_string key r = snd (decode_field json_string key '''' (req_body r))"

fun causes :: "api_config \<Rightarrow> 'w api_env \<times> request \<Rightarrow> (int \<times> enroll_event) option \<Rightarrow> bool" where
  "causes cfg (env, r) None \<longleftrightarrow> True"
| "causes cfg (env, r) (Some (t, e)) \<longleftrightarrow> signed cfg env r \<and>
     (let sub = Sub (header_claims r)
      in t = at_start env \<and> e = EStart (random_code env) sub (body_string ''email'' r) \<and>
           req_path r = ''/api/v1/mfa/enroll/start'' \<or>
         t = at_verify env \<and> e = EVerify sub (body_string ''code'' r) (at_verified env) \<and>
           req_path r = ''/api/v1/mfa/enroll/verify'' \<or>
         t = at_mfa env \<and> e = ECheck sub)"

definition maybe_step :: "(int \<times> enroll_event) option \<Rightarrow> enroll_store \<Rightarrow> enroll_store" where
  "maybe_step oe s = (case oe of None \<Rightarrow> s | Some e \<Rightarrow> enroll_step e s)"

definition api_run :: "api_config \<Rightarrow> ('w api_env \<times> request) list \<Rightarrow> 'w api_state \<Rightarrow> 'w api_state" where
  "api_run cfg qs s = fold (\<lambda>(env, r) s. fst (api_serve cfg env r s)) qs s"

lemma api_run_snoc: "api_run cfg (qs @ [(env, r)]) s = fst (api_serve cfg env r (api_run cfg qs s))"
  by (simp add: api_run_def)

section \<open>Each handler\<close>

lemma EnrollStart_step:
  assumes "EnrollStart cfg env (Some cl) r s = (s', out)"
  shows "enroll s' = enroll s \<or>
    enroll s' = enroll_step (at_start env, EStart (random_code env) (Sub cl) (body_string ''email'' r)) (enroll s)"
  using assms
  by (auto simp: EnrollStart_def body_string_def Let_def split: option.splits if_splits prod.splits bool.splits)

lemma EnrollVerify_persist_enroll: "EnrollVerify_persist env cl s = (s', out) \<Longrightarrow> enroll s' = enroll s"
  by (auto simp: EnrollVerify_persist_def Let_def split: if_splits prod.splits kc_result.splits)

lemma EnrollVerify_step:
  assumes "EnrollVerify env (Some cl) r s = (s', out)"
  shows "enroll s' = enroll s \<or>
    enroll s' = enroll_step (at_verify env, EVerify (Sub cl) (body_string ''code'' r) (at_verified env)) (enroll s)"
  using assms
  by (auto simp: EnrollVerify_def body_string_def Let_def split: option.splits if_splits prod.splits
      dest!: EnrollVerify_persist_enroll)

lemma on_bank_enroll: "on_bank f s = (s', out) \<Longrightarrow> enroll s' = enroll s"
  by (auto simp: on_bank_def split: prod.splits)

lemma check_step_up_enroll: "enroll (fst (check_step_up env sub s)) = enroll_step (at_mfa env, ECheck sub) (enroll s)"
  by (simp add: check_step_up_def split: prod.split)

lemma RequireMFA_step:
  assumes "RequireMFA (check_step_up env) h (Some cl) r s = (s', out)"
    and "\<And>ctx r t u out. h ctx r t = (u, out) \<Longrightarrow> enroll u = enroll t"
  shows "enroll s' = enroll s \<or> enroll s' = enroll_step (at_mfa env, ECheck (Sub cl)) (enroll s)"
  using assms(1) by (cases rule: RequireMFA_cases) (auto dest: assms(2) simp: check_step_up_enroll)

section \<open>The API drives the store\<close>

lemma route_step:
  assumes "protected cfg env r h s = (s', out)"
    and "\<And>t u out. h (Some (header_claims r)) r t = (u, out) \<Longrightarrow> enroll u = enroll t \<or> enroll u = enroll_step e (enroll t)"
    and "signed cfg env r \<Longrightarrow> causes cfg (env, r) (Some e)"
  shows "\<exists>oe. causes cfg (env, r) oe \<and> enroll s' = maybe_step oe (enroll s)"
  using assms(1)
proof (cases rule: protected_cases)
  case 1
  then show ?thesis by (intro exI [of _ None]) (simp add: maybe_step_def)
next
  case 2
  from assms(2) [OF 2(3)] show ?thesis
  proof
    assume "enroll s' = enroll s"
    then show ?thesis by (intro exI [of _ None]) (simp add: maybe_step_def)
  next
    assume "enroll s' = enroll_step e (enroll s)"
    with assms(3) [OF 2(1)] show ?thesis by (intro exI [of _ "Some e"]) (simp add: maybe_step_def)
  qed
qed

lemma api_serve_step:
  assumes "api_serve cfg env r s = (s', out)"
  shows "\<exists>oe. causes cfg (env, r) oe \<and> enroll s' = maybe_step oe (enroll s)"
proof (cases "enroll s' = enroll s")
  case True
  then show ?thesis by (intro exI [of _ None]) (simp add: maybe_step_def)
next
  case False
  from mux_serve_route [OF assms [unfolded api_serve_def]] False obtain m h where
    h: "(m, req_path r, h) \<in> set (api_routes cfg env r)" "h s = (s', out)" by auto
  let ?gate = "\<lambda>f. protected cfg env r (RequireMFA (check_step_up env) f)"
  have "h = protected cfg env r (EnrollStart cfg env) \<and> req_path r = ''/api/v1/mfa/enroll/start'' \<or>
      h = protected cfg env r (EnrollVerify env) \<and> req_path r = ''/api/v1/mfa/enroll/verify'' \<or>
      h = ?gate (api_Deposit env) \<or> h = ?gate (api_Withdraw env)"
    using h False by (auto simp: api_routes_def health_def MFAStatus_def split: if_splits elim!: protected_cases)
  then show ?thesis
  proof (elim disjE conjE)
    assume "h = protected cfg env r (EnrollStart cfg env)" "req_path r = ''/api/v1/mfa/enroll/start''"
    with h(2) show ?thesis by (intro route_step [OF _ EnrollStart_step]) (auto simp: Let_def)
  next
    assume "h = protected cfg env r (EnrollVerify env)" "req_path r = ''/api/v1/mfa/enroll/verify''"
    with h(2) show ?thesis by (intro route_step [OF _ EnrollVerify_step]) (auto simp: Let_def)
  next
    assume "h = ?gate (api_Deposit env)"
    with h(2) show ?thesis
      by (intro route_step [OF _ RequireMFA_step]) (auto simp: Let_def api_Deposit_def dest: on_bank_enroll)
  next
    assume "h = ?gate (api_Withdraw env)"
    with h(2) show ?thesis
      by (intro route_step [OF _ RequireMFA_step]) (auto simp: Let_def api_Withdraw_def dest: on_bank_enroll)
  qed
qed

section \<open>Runs\<close>

definition events :: "'e option list \<Rightarrow> 'e list" where
  "events os = List.map_filter id os"

lemma events_simps [simp]:
  "events [] = []" "events (Some e # os) = e # events os" "events (None # os) = events os"
  "events (os @ os') = events os @ events os'"
  by (simp_all add: events_def List.map_filter_def)

lemma events_split:
  "events os = pre @ e # post \<Longrightarrow> \<exists>os1 os2. os = os1 @ Some e # os2 \<and> events os1 = pre \<and> events os2 = post"
proof (induction os arbitrary: pre)
  case (Cons oe os)
  show ?case
  proof (cases oe)
    case None
    with Cons obtain os1 os2 where "os = os1 @ Some e # os2 \<and> events os1 = pre \<and> events os2 = post" by auto
    with None show ?thesis by (intro exI [of _ "oe # os1"] exI [of _ os2]) simp
  next
    case (Some x)
    show ?thesis
    proof (cases pre)
      case Nil
      with Some Cons.prems show ?thesis by (intro exI [of _ "[]"] exI [of _ os]) simp
    next
      case (Cons y pre')
      with Some Cons.prems have "x = y" "events os = pre' @ e # post" by simp_all
      with Cons.IH obtain os1 os2 where "os = os1 @ Some e # os2 \<and> events os1 = pre' \<and> events os2 = post" by blast
      with Some Cons \<open>x = y\<close> show ?thesis by (intro exI [of _ "oe # os1"] exI [of _ os2]) simp
    qed
  qed
qed simp

lemma api_run_events:
  "\<exists>os. list_all2 (causes cfg) qs os \<and> enroll (api_run cfg qs s) = enroll_run (events os) (enroll s)"
proof (induction qs rule: rev_induct)
  case Nil
  show ?case by (intro exI [of _ "[]"]) (simp add: api_run_def enroll_run_def)
next
  case (snoc q qs)
  obtain env r where q: "q = (env, r)" by (cases q)
  from snoc.IH obtain os where os: "list_all2 (causes cfg) qs os"
    "enroll (api_run cfg qs s) = enroll_run (events os) (enroll s)" by blast
  obtain s' out where serve: "api_serve cfg env r (api_run cfg qs s) = (s', out)" by fastforce
  from api_serve_step [OF serve] obtain oe where oe: "causes cfg (env, r) oe"
    "enroll s' = maybe_step oe (enroll (api_run cfg qs s))" by blast
  then have "enroll (api_run cfg (qs @ [q]) s) = enroll_run (events (os @ [oe])) (enroll s)"
    using serve os(2) by (cases oe) (simp_all add: q api_run_snoc maybe_step_def enroll_run_def)
  with os(1) oe(1) q show ?case by (intro exI [of _ "os @ [oe]"]) (simp add: list_all2_appendI)
qed

text \<open>The two requests behind a step-up session.\<close>

definition step_up_requests ::
  "api_config \<Rightarrow> ('w api_env \<times> request) list \<Rightarrow> string \<Rightarrow> int \<Rightarrow> bool" where
  "step_up_requests cfg qs sub now \<longleftrightarrow> (\<exists>qs1 e1 r1 qs2 e2 r2 qs3 n.
     qs = qs1 @ (e1, r1) # qs2 @ (e2, r2) # qs3 \<and>
     signed cfg e1 r1 \<and> req_path r1 = ''/api/v1/mfa/enroll/start'' \<and> Sub (header_claims r1) = sub \<and>
     random_code e1 = Some n \<and>
     signed cfg e2 r2 \<and> req_path r2 = ''/api/v1/mfa/enroll/verify'' \<and> Sub (header_claims r2) = sub \<and>
     TrimSpace (body_string ''code'' r2) = Sprintf_06d n \<and>
     at_verify e2 \<le> at_start e1 + codeTTL \<and> now \<le> at_verified e2 + StepUpTTL)"

lemma causes_start:
  "causes cfg (env, r) (Some (t, EStart rnd sub email)) \<Longrightarrow>
     signed cfg env r \<and> req_path r = ''/api/v1/mfa/enroll/start'' \<and> Sub (header_claims r) = sub \<and>
     random_code env = rnd \<and> t = at_start env"
  by (auto simp: Let_def)

lemma causes_verify:
  "causes cfg (env, r) (Some (t, EVerify sub code later)) \<Longrightarrow>
     signed cfg env r \<and> req_path r = ''/api/v1/mfa/enroll/verify'' \<and> Sub (header_claims r) = sub \<and>
     body_string ''code'' r = code \<and> t = at_verify env \<and> later = at_verified env"
  by (auto simp: Let_def)

lemma list_all2_split:
  assumes "list_all2 P qs (os1 @ oe # os2)"
  obtains qs1 q qs2 where "qs = qs1 @ q # qs2" "list_all2 P qs1 os1" "P q oe"
  using assms by (auto simp: list_all2_append2 list_all2_Cons2)

lemma step_up_origin:
  assumes "enroll s = NewStore" and "snd (IsStepUpVerified now sub (enroll (api_run cfg qs s)))"
  shows "step_up_requests cfg qs sub now"
proof -
  from api_run_events obtain os where os: "list_all2 (causes cfg) qs os"
    "enroll (api_run cfg qs s) = enroll_run (events os) NewStore" unfolding assms(1) [symmetric] by blast
  with assms(2) obtain exp where "stepUp (enroll_run (events os) NewStore) sub = Some exp" and late: "now \<le> exp"
    by (auto simp: IsStepUpVerified_iff)
  with run_provenance have "verified (events os) sub exp" by blast
  then obtain pre post tv code later p where v: "events os = pre @ (tv, EVerify sub code later) # post"
    "started pre sub p" "TrimSpace code = otp_code p" "tv \<le> otp_expiresAt p" "exp = later + StepUpTTL"
    unfolding verified_def by blast
  from v(2) obtain pre1 mid ts n email where st: "pre = pre1 @ (ts, EStart (Some n) sub email) # mid"
    "otp_code p = Sprintf_06d n" "otp_expiresAt p = ts + codeTTL" unfolding started_def by blast
  from events_split [OF v(1)] obtain os1 os2 where
    "os = os1 @ Some (tv, EVerify sub code later) # os2" "events os1 = pre" by blast
  with os(1) obtain qs1 q2 qs3 where q2: "qs = qs1 @ q2 # qs3" "list_all2 (causes cfg) qs1 os1"
    "causes cfg q2 (Some (tv, EVerify sub code later))" by (auto elim: list_all2_split)
  from events_split [OF \<open>events os1 = pre\<close> [unfolded st(1)]] obtain os3 os4 where
    "os1 = os3 @ Some (ts, EStart (Some n) sub email) # os4" by blast
  with q2(2) obtain qs4 q1 qs5 where q1: "qs1 = qs4 @ q1 # qs5"
    "causes cfg q1 (Some (ts, EStart (Some n) sub email))" by (auto elim: list_all2_split)
  obtain e1 r1 e2 r2 where q: "q1 = (e1, r1)" "q2 = (e2, r2)" by (cases q1; cases q2)
  from q1 q2(1,3) v st late q show ?thesis
    unfolding step_up_requests_def
    by (intro exI [of _ qs4] exI [of _ e1] exI [of _ r1] exI [of _ qs5] exI [of _ e2] exI [of _ r2] exI [of _ qs3]
        exI [of _ n]) (auto dest: causes_start causes_verify simp del: causes.simps)
qed

lemma api_serve_bank_ok: "bank_ok (bank s) \<Longrightarrow> bank_ok (bank (fst (api_serve cfg env r s)))"
  by (metis api_serve_money moves_money_ok prod.collapse)

lemma api_serve_extends: "extends (bank s) (bank (fst (api_serve cfg env r s)))"
proof (cases "bank (fst (api_serve cfg env r s)) = bank s")
  case False
  then have "moves_money (db_faults env) (BankAccountNumber (header_claims r)) (bank s) (bank (fst (api_serve cfg env r s)))"
    by (metis api_serve_money prod.collapse)
  then show ?thesis unfolding moves_money_def using svc_Deposit_extends svc_Withdraw_extends by metis
qed simp

interpretation api_bank: bank_server "\<lambda>(env, r) s. fst (api_serve cfg env r s)" bank for cfg
  by unfold_locales (auto simp: api_serve_bank_ok api_serve_extends)

lemma api_run_fold: "api_run cfg qs s = fold (\<lambda>(env, r) s. fst (api_serve cfg env r s)) qs s"
  by (simp add: api_run_def)

end
