(* ===== verification/BankProperties.thy ===== *)
theory BankProperties
  imports BankHandlers
begin

text \<open>
  The properties of the bank, with witnesses on a small database.
\<close>

section \<open>A database for the witnesses\<close>

definition demo_db :: bank_db where
  "demo_db = \<lparr>bank_accounts =
       [\<lparr>row_id = 1, row_number = ''BANK-0001-2024'', row_owner = ''Alice Demo'', row_balance = 250000, row_created = 0\<rparr>,
        \<lparr>row_id = 2, row_number = ''BANK-0002-2024'', row_owner = ''Bob Admin'', row_balance = 100, row_created = 0\<rparr>],
     transactions =
       [\<lparr>tx_id = 1, tx_account = 1, tx_type = ''deposit'', tx_amount = 250000, tx_description = ''Initial deposit'', tx_created = 0\<rparr>,
        \<lparr>tx_id = 2, tx_account = 2, tx_type = ''deposit'', tx_amount = 100, tx_description = ''Initial deposit'', tx_created = 5\<rparr>],
     account_seq = 3, tx_seq = 3, db_now = 7\<rparr>"

definition alice_row :: account_row where
  "alice_row = \<lparr>row_id = 1, row_number = ''BANK-0001-2024'', row_owner = ''Alice Demo'', row_balance = 250000, row_created = 0\<rparr>"

lemma demo_db_ok: "bank_ok demo_db"
  by (simp add: bank_ok_def demo_db_def cents_ok_def)

lemma demo_db_books: "books_agree demo_db"
  by (simp add: books_agree_def demo_db_def ledger_def)

lemma demo_alice: "select_account demo_db ''BANK-0001-2024'' = Some alice_row"
  by (simp add: select_account_def demo_db_def alice_row_def)

section \<open>Exactness\<close>

text \<open>
  C8: depositing a whole number of cents that fits the column succeeds and adds exactly that many
  cents to the account and one deposit to the ledger, although the service computes in binary
  floating point; nothing else in the tables changes.
\<close>

theorem deposit_exact_cents:
  assumes "bank_ok db" and "select_account db num = Some r" and "0 < a" and "row_balance r + a < 10 ^ 15"
  shows "\<exists>acct. svc_Deposit NoFault num (load_numeric a) db =
    (booked (row_id r) ''deposit'' a (row_balance r + a) db, Inr acct) \<and> AccountNumber acct = num"
  by (rule Deposit_exact [OF assms])

theorem deposit_exact_cents_witness:
  "\<exists>acct. svc_Deposit NoFault ''BANK-0001-2024'' (load_numeric 1) demo_db =
     (booked 1 ''deposit'' 1 250001 demo_db, Inr acct) \<and> AccountNumber acct = ''BANK-0001-2024''"
  using deposit_exact_cents [OF demo_db_ok demo_alice, of 1] by (simp add: alice_row_def)

text \<open>
  C9: withdrawing a whole number of cents succeeds exactly when the balance covers it and then
  takes exactly that many cents; otherwise it is refused for insufficient funds and nothing changes.
\<close>

theorem withdraw_exact_cents:
  assumes "bank_ok db" and "select_account db num = Some r" and "0 < a" and "a < 10 ^ 15"
  shows "if a \<le> row_balance r
    then \<exists>acct. svc_Withdraw NoFault num (load_numeric a) db =
           (booked (row_id r) ''withdrawal'' a (row_balance r - a) db, Inr acct) \<and> AccountNumber acct = num
    else svc_Withdraw NoFault num (load_numeric a) db = (db, Inl ErrInsufficientFunds)"
  using Withdraw_exact [OF assms(1-3)] Withdraw_refused [OF assms(1,2) _ assms(4)] by auto

theorem withdraw_exact_cents_witness:
  "svc_Withdraw NoFault ''BANK-0001-2024'' (load_numeric 250001) demo_db = (demo_db, Inl ErrInsufficientFunds)"
  using withdraw_exact_cents [OF demo_db_ok demo_alice, of 250001] by (simp add: alice_row_def)

section \<open>Safety\<close>

text \<open>
  whatever amount is sent, whole cents or not, and whatever call to the database fails, a
  deposit or withdrawal leaves the tables well formed: no balance below zero or beyond the column,
  no entry without its account, no amount that is not positive.
\<close>

theorem balance_never_negative:
  assumes "bank_ok db"
  shows "bank_ok (fst (svc_Deposit fault num amount db)) \<and> bank_ok (fst (svc_Withdraw fault num amount db))"
  using svc_Deposit_ok [of fault num amount db] svc_Withdraw_ok [of fault num amount db] assms
  by (metis prod.collapse)

theorem balance_never_negative_witness:
  "bank_ok (fst (svc_Deposit (FailAt CallCommit) ''BANK-0001-2024'' (fl (1 / 3)) demo_db)) \<and>
   bank_ok (fst (svc_Withdraw (FailAt CallCommit) ''BANK-0001-2024'' (fl (1 / 3)) demo_db))"
  by (rule balance_never_negative [OF demo_db_ok])

text \<open>
  C28: an operation that reports an error has left both tables as they were, except that a commit
  whose confirmation was lost may have taken effect.
\<close>

theorem failed_booking_changes_nothing:
  assumes "svc_Deposit fault num amount db = (db', Inl e) \<or> svc_Withdraw fault num amount db = (db', Inl e)"
    and "fault \<noteq> CommitLost True"
  shows "bank_accounts db' = bank_accounts db \<and> transactions db' = transactions db"
proof -
  from assms(1) have "\<exists>ty f. booking_of db fault num ty amount f db' (Inl e)"
    using svc_Deposit_booking svc_Withdraw_booking by blast
  with assms(2) show ?thesis by (auto simp: booking_of_def same_tables_def)
qed

theorem failed_booking_changes_nothing_witness:
  "bank_accounts (fst (svc_Deposit (FailAt CallInsert) ''BANK-0002-2024'' (load_numeric 5) demo_db)) = bank_accounts demo_db \<and>
   transactions (fst (svc_Deposit (FailAt CallInsert) ''BANK-0002-2024'' (load_numeric 5) demo_db)) = transactions demo_db"
proof -
  let ?x = "svc_Deposit (FailAt CallInsert) ''BANK-0002-2024'' (load_numeric 5) demo_db"
  have "snd ?x = Inl DatabaseError"
    using load_pos [of 5] store_add [of 100 5]
    by (simp add: svc_Deposit_def GetByAccountNumberForUpdate_def select_account_def scan_number_def scanAccount_def demo_db_def
        book_def UpdateBalance_def Create_transaction_def not_le)
  then have "?x = (fst ?x, Inl DatabaseError)" by (metis prod.collapse)
  with failed_booking_changes_nothing [of "FailAt CallInsert" "''BANK-0002-2024''" "load_numeric 5" demo_db "fst ?x"]
  show ?thesis by blast
qed

section \<open>The books\<close>

text \<open>
  C29: amounts of whole cents keep the books: after the operation every balance is still the sum of
  the account's deposits less its withdrawals.
\<close>

theorem whole_cents_keep_books:
  assumes "bank_ok db" and "books_agree db" and "select_account db num = Some r" and "0 < a"
    and "row_balance r + a < 10 ^ 15"
  shows "books_agree (fst (svc_Deposit NoFault num (load_numeric a) db)) \<and>
    books_agree (fst (svc_Withdraw NoFault num (load_numeric a) db))"
proof -
  have r: "r \<in> set (bank_accounts db)" "distinct (map row_id (bank_accounts db))"
    using select_account_Some [OF assms(3)] assms(1) by (auto simp: bank_ok_def)
  have "0 \<le> row_balance r" using row_cents [OF assms(1,3)] by (simp add: cents_ok_def)
  then have "a < 10 ^ 15" using assms(5) by simp
  then have "svc_Withdraw NoFault num (load_numeric a) db = (db, Inl ErrInsufficientFunds) \<or>
      fst (svc_Withdraw NoFault num (load_numeric a) db) = booked (row_id r) ''withdrawal'' a (row_balance r - a) db"
    using Withdraw_exact [OF assms(1,3,4)] Withdraw_refused [OF assms(1,3)] by (cases "a \<le> row_balance r") auto
  moreover have "fst (svc_Deposit NoFault num (load_numeric a) db) = booked (row_id r) ''deposit'' a (row_balance r + a) db"
    using Deposit_exact [OF assms(1,3-5)] by auto
  ultimately show ?thesis
    using books_agree_booked [OF assms(2) r, of "row_balance r + a" "''deposit''" a]
      books_agree_booked [OF assms(2) r, of "row_balance r - a" "''withdrawal''" a] assms(2) by auto
qed

theorem whole_cents_keep_books_witness:
  "books_agree (fst (svc_Deposit NoFault ''BANK-0001-2024'' (load_numeric 7) demo_db)) \<and>
   books_agree (fst (svc_Withdraw NoFault ''BANK-0001-2024'' (load_numeric 7) demo_db))"
  by (rule whole_cents_keep_books [OF demo_db_ok demo_db_books demo_alice]) (simp_all add: alice_row_def)

lemma half_cent_stored:
  "0 < fl (5 / 1000)" "\<not> load_numeric 100 < fl (5 / 1000)" "store_numeric (fl (5 / 1000)) = Some 1"
  "store_numeric (fl (load_numeric 100 - fl (5 / 1000))) = Some 100"
  by code_simp+

text \<open>
  an amount below a cent passes both checks for a positive amount and splits the books: a
  withdrawal of 0.005 from a balance of 1.00 is recorded as 0.01 while the balance stays 1.00.
\<close>

theorem sub_cent_breaks_books:
  "books_agree demo_db \<and>
   map row_balance (bank_accounts (fst (svc_Withdraw NoFault ''BANK-0002-2024'' (fl (5 / 1000)) demo_db))) = [250000, 100] \<and>
   map tx_amount (transactions (fst (svc_Withdraw NoFault ''BANK-0002-2024'' (fl (5 / 1000)) demo_db))) = [250000, 100, 1] \<and>
   \<not> books_agree (fst (svc_Withdraw NoFault ''BANK-0002-2024'' (fl (5 / 1000)) demo_db))"
proof -
  have "fst (svc_Withdraw NoFault ''BANK-0002-2024'' (fl (5 / 1000)) demo_db) = booked 2 ''withdrawal'' 1 100 demo_db"
    using half_cent_stored
    by (simp add: svc_Withdraw_def GetByAccountNumberForUpdate_def select_account_def scan_number_def scanAccount_def demo_db_def
        book_def UpdateBalance_def Create_transaction_def not_le booked_def set_balance_def)
  then show ?thesis
    using demo_db_books by (simp add: demo_db_def booked_def set_balance_def books_agree_def ledger_def)
qed

section \<open>History\<close>




end
