(* ===== verification/MfaProperties.thy ===== *)
theory MfaProperties
  imports AuthzFacts MfaRuns BankProperties
begin

text \<open>
  The properties of the banking API with its second factor and of the wrapper in front of it,
  with witnesses on one signed request.
\<close>

section \<open>A signed request for the witnesses\<close>

definition alice_token :: jws_result where
  "alice_token = \<lparr>res_Sub = ''alice'', res_Email = ''alice@bank.test'', res_PreferredUsername = ''alice'',
     res_RealmRoles = [''user''], res_BankAccountNumber = ''BANK-0001-2024'', res_MFAVerified = True, res_MFAMethod = ''email''\<rparr>"

definition api_cfg :: api_config where
  "api_cfg = the (api_Load (\<lambda>_. ''x''))"

definition calm_env :: "nat api_env" where
  "calm_env = \<lparr>at_signature = 1000000000000, at_mfa = 1000000000000, at_start = 1000000000000,
     at_verify = 1000000000000, at_verified = 1000000000000, at_token = 1000000000000,
     at_token_reply = 1000000000000, at_response = 1000000000000, random_code = Some 42, mail_accepted = True,
     db_faults = NoFault, tx_order = sort_key (\<lambda>t. - tx_created t), send = (\<lambda>_ n. (n + 1, None))\<rparr>"

definition api_start :: "nat api_state" where
  "api_start = \<lparr>enroll = NewStore, keycloak = New_admin ''http://kc'' ''bank'' ''admin'' ''pw'', bank = demo_db,
     outbox = [], outside = 0\<rparr>"

definition api_request :: "string \<Rightarrow> string \<Rightarrow> jws_result \<Rightarrow> json \<Rightarrow> request" where
  "api_request meth path res b = \<lparr>req_method = meth, req_path = path, req_cookies = [],
     req_header = identity_headers ''x'' 1000000000000 res, req_rawquery = '''', req_body = Some b\<rparr>"

definition deposit_request :: request where
  "deposit_request = api_request ''POST'' ''/api/v1/accounts/me/deposit'' alice_token (JObj [(''amount'', JNum ''0.01'')])"

lemma alice_clean: "clean_result alice_token"
  by code_simp

lemma api_cfg_secret: "WrapperHMACSecret api_cfg = ''x''" "KeycloakBaseURL api_cfg = ''x''"
  by (simp_all add: api_cfg_def api_Load_def mustGetEnv_def getEnv_def)

lemma api_request_forwarded:
  "clean_result res \<Longrightarrow> forwarded (identity_headers ''x'' 1000000000000 res) (api_request meth path res b)"
  by (rule forwarded_same) (simp_all add: api_request_def)

lemma api_request_signed: "clean_result res \<Longrightarrow> signed api_cfg calm_env (api_request meth path res b)"
  unfolding signed_def api_cfg_secret
  by (rule wrapper_accepted [OF _ api_request_forwarded])
    (simp_all add: calm_env_def nanos_per_second_def in_int64_def)

lemma request_claims:
  assumes "clean_result res"
  shows "header_claims (api_request meth path res b) = \<lparr>Sub = res_Sub res, PreferredUsername = res_PreferredUsername res,
    Email = res_Email res, BankAccountNumber = res_BankAccountNumber res, MFAVerified = res_MFAVerified res,
    MFAMethod = res_MFAMethod res\<rparr>"
  by (rule wrapper_claims [OF assms api_request_forwarded [OF assms]])

lemma alice_claims: "header_claims deposit_request = \<lparr>Sub = ''alice'', PreferredUsername = ''alice'',
    Email = ''alice@bank.test'', BankAccountNumber = ''BANK-0001-2024'', MFAVerified = True, MFAMethod = ''email''\<rparr>"
  by (simp add: deposit_request_def request_claims [OF alice_clean]) (simp add: alice_token_def)

lemma protected_passes:
  assumes "signed cfg env r" and "Sub (header_claims r) \<noteq> ''''"
  shows "protected cfg env r h s = h (Some (header_claims r)) r s"
  using assms by (simp add: protected_def VerifyWrapperSignature_def auth_Middleware_def signed_def header_claims_def Let_def)

lemma cent_literal: "literal_value ''0.01'' = 1 / 100" "\<bar>fl (1 / 100)\<bar> < 1"
  by code_simp+

lemma cent_read: "decode_field json_float ''amount'' 0 (Some (JObj [(''amount'', JNum ''0.01'')])) = (True, load_numeric 1)"
proof -
  have "pow2 0 \<le> pow2 1024" by (rule pow2_mono) simp
  then have "\<bar>fl (1 / 100)\<bar> < pow2 1024" using cent_literal(2) by (simp add: pow2_def [of 0] less_le_trans)
  then show ?thesis by (simp add: decode_field_def cent_literal(1) load_numeric_def field_matches_def)
qed

lemma api_request_fields [simp]:
  "req_method (api_request meth path res b) = meth" "req_path (api_request meth path res b) = path"
  "req_body (api_request meth path res b) = Some b"
  by (simp_all add: api_request_def)

lemma calm_fields [simp]:
  "at_mfa calm_env = 1000000000000" "at_start calm_env = 1000000000000" "at_verify calm_env = 1000000000000"
  "at_verified calm_env = 1000000000000" "random_code calm_env = Some 42" "mail_accepted calm_env"
  "db_faults calm_env = NoFault"
  by (simp_all add: calm_env_def)

lemma cent_deposit:
  assumes "BankAccountNumber cl = ''BANK-0001-2024''" and "req_body r = Some (JObj [(''amount'', JNum ''0.01'')])"
  shows "fst (Deposit NoFault (Some cl) r demo_db) = booked 1 ''deposit'' 1 250001 demo_db"
proof -
  from Deposit_exact [OF demo_db_ok demo_alice, of 1] obtain acct where
    "svc_Deposit NoFault ''BANK-0001-2024'' (load_numeric 1) demo_db = (booked 1 ''deposit'' 1 250001 demo_db, Inr acct)"
    by (auto simp: alice_row_def)
  with load_pos [of 1] assms show ?thesis by (simp add: Deposit_def cent_read not_le)
qed

lemma on_bank_fst: "fst (on_bank f s) = s\<lparr>bank := fst (f (bank s))\<rparr>"
  by (simp add: on_bank_def split: prod.split)

lemma deposit_served: "bank (fst (api_serve api_cfg calm_env deposit_request api_start)) = booked 1 ''deposit'' 1 250001 demo_db"
proof -
  have "api_serve api_cfg calm_env deposit_request api_start =
      protected api_cfg calm_env deposit_request (RequireMFA (check_step_up calm_env) (api_Deposit calm_env)) api_start"
    by (simp add: api_serve_def mux_serve_def api_routes_def api_cfg_secret deposit_request_def method_matches_def)
  also have "\<dots> = on_bank (Deposit NoFault (Some (header_claims deposit_request)) deposit_request) api_start"
    using api_request_signed [OF alice_clean]
    by (subst protected_passes) (simp_all add: deposit_request_def [symmetric] alice_claims RequireMFA_def api_Deposit_def,
      simp add: deposit_request_def)
  finally have serve: "api_serve api_cfg calm_env deposit_request api_start =
      on_bank (Deposit NoFault (Some (header_claims deposit_request)) deposit_request) api_start" .
  have "fst (Deposit NoFault (Some (header_claims deposit_request)) deposit_request demo_db) =
      booked 1 ''deposit'' 1 250001 demo_db"
    by (rule cent_deposit) (simp_all only: alice_claims claims.select_convs, simp add: deposit_request_def)
  then show ?thesis unfolding serve by (simp add: on_bank_fst api_start_def)
qed

section \<open>Money\<close>

text \<open>
  C2: the bank's tables change only for a request that carries a valid and fresh signature of the
  wrapper and whose user has a second factor, from the token or from a step-up session of this
  process, and only by a deposit or withdrawal on the account the signed headers name.
\<close>

theorem money_needs_signature_and_mfa:
  assumes "api_serve cfg env r s = (s', out)" and "bank s' \<noteq> bank s"
  shows "sig_Verify (header_Get (req_header r)) (WrapperHMACSecret cfg) (at_signature env div nanos_per_second) = None \<and>
    (header_Get (req_header r) ''X-MFA-Verified'' = ''true'' \<or>
     snd (IsStepUpVerified (at_mfa env) (header_Get (req_header r) ''X-User-Sub'') (enroll s))) \<and>
    (\<exists>amount > 0.
       bank s' = fst (svc_Deposit (db_faults env) (header_Get (req_header r) ''X-Bank-Account-Number'') amount (bank s)) \<or>
       bank s' = fst (svc_Withdraw (db_faults env) (header_Get (req_header r) ''X-Bank-Account-Number'') amount (bank s)))"
  using api_serve_money [OF assms]
  by (simp add: signed_def second_factor_def moves_money_def header_claims_def Let_def)

theorem money_needs_signature_and_mfa_witness:
  "sig_Verify (header_Get (req_header deposit_request)) ''x'' 1000 = None"
proof -
  obtain s' out where o: "api_serve api_cfg calm_env deposit_request api_start = (s', out)" by fastforce
  have "bank s' \<noteq> bank api_start" using deposit_served o by (simp add: api_start_def booked_def demo_db_def)
  from money_needs_signature_and_mfa [OF o this] show ?thesis
    by (simp add: api_cfg_secret calm_env_def nanos_per_second_def)
qed

section \<open>The second factor\<close>

text \<open>The world outside counts the requests to Keycloak. A user without a second factor steps up: the code is sent, sent back, and money moves.\<close>

definition carol_token :: jws_result where
  "carol_token = alice_token\<lparr>res_Sub := ''carol'', res_Email := '''', res_MFAVerified := False\<rparr>"

definition carol_requests :: "(nat api_env \<times> request) list" where
  "carol_requests =
     [(calm_env, api_request ''POST'' ''/api/v1/mfa/enroll/start'' carol_token (JObj [(''email'', JStr ''c@bank.test'')])),
      (calm_env, api_request ''POST'' ''/api/v1/mfa/enroll/verify'' carol_token (JObj [(''code'', JStr '' 000042'')]))]"

definition carol_deposit :: request where
  "carol_deposit = api_request ''POST'' ''/api/v1/accounts/me/deposit'' carol_token (JObj [(''amount'', JNum ''0.01'')])"

lemma carol_clean: "clean_result carol_token"
  by code_simp

lemma carol_signed: "signed api_cfg calm_env (api_request meth path carol_token b)"
  by (rule api_request_signed [OF carol_clean])

lemma carol_claims: "header_claims (api_request meth path carol_token b) = \<lparr>Sub = ''carol'', PreferredUsername = ''alice'',
    Email = '''', BankAccountNumber = ''BANK-0001-2024'', MFAVerified = False, MFAMethod = ''email''\<rparr>"
  by (simp add: request_claims [OF carol_clean]) (simp add: carol_token_def alice_token_def)

lemma carol_protected:
  "protected api_cfg calm_env (api_request meth path carol_token b) h s =
     h (Some (header_claims (api_request meth path carol_token b))) (api_request meth path carol_token b) s"
  by (rule protected_passes [OF carol_signed]) (simp add: carol_claims)

lemma carol_strings:
  "decode_field json_string ''email'' '''' (Some (JObj [(''email'', JStr ''c@bank.test'')])) = (True, ''c@bank.test'')"
  "decode_field json_string ''code'' '''' (Some (JObj [(''code'', JStr '' 000042'')])) = (True, '' 000042'')"
  "enrollEmailRE ''c@bank.test''" "TrimSpace '' 000042'' = ''000042''" "Sprintf_06d 42 = ''000042''"
  by code_simp+

lemmas carol_simps = api_serve_def mux_serve_def api_routes_def api_cfg_secret method_matches_def carol_protected
  carol_claims carol_strings

lemma carol_run:
  "stepUp (enroll (api_run api_cfg carol_requests api_start)) ''carol'' = Some (1000000000000 + StepUpTTL) \<and>
   bank (api_run api_cfg carol_requests api_start) = demo_db"
  by (simp add: api_run_def carol_requests_def carol_simps EnrollStart_def EnrollVerify_def EnrollVerify_persist_def
      Send_def Start_def otp_Verify_def PendingEmail_def api_start_def NewStore_def maxAttempts_def
      codeTTL_def Minute_def Second_def Let_def split: prod.split bool.split)

lemma carol_served:
  "bank (fst (api_serve api_cfg calm_env carol_deposit (api_run api_cfg carol_requests api_start))) =
     booked 1 ''deposit'' 1 250001 demo_db"
  using carol_run
  by (simp add: carol_deposit_def carol_simps RequireMFA_def check_step_up_def IsStepUpVerified_def api_Deposit_def
      on_bank_fst cent_deposit StepUpTTL_def Minute_def Second_def)

text \<open>
  C5: if money moves for a user whose token carries no second factor, then earlier in the life of
  the process a signed request of the same user asked for a code, and a later one sent that code
  back within five minutes of it, and the money moves within thirty minutes of that.
\<close>

theorem step_up_traces_to_code:
  assumes "enroll s0 = NewStore" and "api_serve cfg env r (api_run cfg qs s0) = (s', out)"
    and "bank s' \<noteq> bank (api_run cfg qs s0)" and "header_Get (req_header r) ''X-MFA-Verified'' \<noteq> ''true''"
  shows "\<exists>qs1 e1 r1 qs2 e2 r2 qs3 n.
     qs = qs1 @ (e1, r1) # qs2 @ (e2, r2) # qs3 \<and>
     signed cfg e1 r1 \<and> req_path r1 = ''/api/v1/mfa/enroll/start'' \<and>
     header_Get (req_header r1) ''X-User-Sub'' = header_Get (req_header r) ''X-User-Sub'' \<and> random_code e1 = Some n \<and>
     signed cfg e2 r2 \<and> req_path r2 = ''/api/v1/mfa/enroll/verify'' \<and>
     header_Get (req_header r2) ''X-User-Sub'' = header_Get (req_header r) ''X-User-Sub'' \<and>
     TrimSpace (body_string ''code'' r2) = Sprintf_06d n \<and>
     at_verify e2 \<le> at_start e1 + codeTTL \<and> at_mfa env \<le> at_verified e2 + StepUpTTL"
proof -
  have sub: "Sub (header_claims r) = header_Get (req_header r) ''X-User-Sub''" for r
    by (simp add: header_claims_def Let_def)
  have "second_factor env r (api_run cfg qs s0)" using api_serve_money [OF assms(2,3)] by simp
  with assms(4) have "snd (IsStepUpVerified (at_mfa env) (Sub (header_claims r)) (enroll (api_run cfg qs s0)))"
    by (simp add: second_factor_def header_claims_def Let_def)
  from step_up_origin [OF assms(1) this] show ?thesis
    unfolding step_up_requests_def sub .
qed

theorem step_up_traces_to_code_witness:
  "\<exists>e2 r2. TrimSpace (body_string ''code'' r2) = Sprintf_06d 42 \<and> (e2, r2) \<in> set carol_requests"
proof -
  have start: "enroll api_start = NewStore" by (simp add: api_start_def)
  obtain s' out where o: "api_serve api_cfg calm_env carol_deposit (api_run api_cfg carol_requests api_start) = (s', out)"
    by fastforce
  have moved: "bank s' \<noteq> bank (api_run api_cfg carol_requests api_start)"
    using carol_served carol_run o by (simp add: booked_def demo_db_def)
  have "header_Get (req_header carol_deposit) ''X-MFA-Verified'' \<noteq> ''true''"
    using carol_claims by (simp add: carol_deposit_def header_claims_def Let_def)
  from step_up_traces_to_code [OF start o moved this] obtain qs1 e1 r1 qs2 e2 r2 qs3 n where
    qs: "carol_requests = qs1 @ (e1, r1) # qs2 @ (e2, r2) # qs3" and n: "random_code e1 = Some n"
    and code: "TrimSpace (body_string ''code'' r2) = Sprintf_06d n" by blast
  have "(e1, r1) \<in> set carol_requests" unfolding qs by simp
  with n have "n = 42" by (auto simp: carol_requests_def)
  moreover have "(e2, r2) \<in> set carol_requests" unfolding qs by simp
  ultimately show ?thesis using code by blast
qed

text \<open>
  C31: whatever order of operations and times, at most five guesses at a user's code are compared
  per code that was requested for that user.
\<close>

theorem otp_guess_bound:
  "comparisons sub es NewStore \<le> 5 * length (filter (starts sub) es)"
  using comparisons_total [of sub es NewStore] by (simp add: guesses_left_def NewStore_def maxAttempts_def)

text \<open>
  C30: a request without a valid signature of the wrapper changes nothing at all in the process:
  neither the bank, nor the enrollment store, nor the mails sent, nor anything behind Keycloak.
\<close>

theorem unsigned_changes_nothing:
  assumes "sig_Verify (header_Get (req_header r)) (WrapperHMACSecret cfg) (at_signature env div nanos_per_second) \<noteq> None"
  shows "fst (api_serve cfg env r s) = s"
proof (rule ccontr)
  assume changed: "fst (api_serve cfg env r s) \<noteq> s"
  obtain s' out where serve: "api_serve cfg env r s = (s', out)" by fastforce
  from mux_serve_route [OF serve [unfolded api_serve_def]] changed serve obtain m h where
    h: "(m, req_path r, h) \<in> set (api_routes cfg env r)" "h s = (s', out)" by auto
  have "protected cfg env r f s = (s', out) \<Longrightarrow> s' = s" for f
    using assms by (elim protected_cases) (auto simp: signed_def)
  with h changed serve show False by (auto simp: api_routes_def health_def split: if_splits)
qed

theorem unsigned_changes_nothing_witness:
  "fst (api_serve api_cfg calm_env (carol_deposit\<lparr>req_header := Map.empty\<rparr>) api_start) = api_start"
  by (rule unsigned_changes_nothing) (simp add: sig_Verify_def Let_def header_Get_def)

text \<open>
  C27: in every sequence of requests, whatever they carry and whatever calls fail, the bank's tables
  stay well formed (no negative balance, no value beyond its column, no entry without its account),
  accounts keep their key, number and owner, and the ledger only grows at its end.
\<close>

theorem api_run_keeps_bank_ok:
  assumes "bank_ok (bank s)"
  shows "bank_ok (bank (api_run cfg qs s)) \<and>
    prefix (map row_identity (bank_accounts (bank s))) (map row_identity (bank_accounts (bank (api_run cfg qs s)))) \<and>
    prefix (transactions (bank s)) (transactions (bank (api_run cfg qs s)))"
  using api_bank.run_ok [OF assms] api_bank.run_extends [of s] unfolding api_run_fold extends_def by blast

theorem api_run_keeps_bank_ok_witness:
  "bank_ok (bank (api_run api_cfg (carol_requests @ [(calm_env, carol_deposit)]) api_start)) \<and>
   prefix (transactions demo_db) (transactions (bank (api_run api_cfg (carol_requests @ [(calm_env, carol_deposit)]) api_start)))"
  using api_run_keeps_bank_ok [of api_start] by (simp add: api_start_def demo_db_ok)

text \<open>
  when a code is accepted, what is written to Keycloak uses the address of the token and never
  the one the code was sent to: with no address in the token nothing is written, yet the answer
  is that the second factor is enabled.
\<close>

theorem verify_ignores_enrolled_address:
  assumes "decode_field json_string ''code'' '''' (req_body r) = (True, code)" and "code \<noteq> ''''" and "Sub cl \<noteq> ''''"
    and "otp_Verify (at_verify env) (at_verified env) (Sub cl) code (enroll s) = (st, None)"
  shows "outside (fst (EnrollVerify env (Some cl) r s)) =
    (if Email cl = '''' then outside s
     else fst (snd (EnableEmailMFA (send env) (at_token env) (at_token_reply env) (Sub cl) (Email cl) (keycloak s) (outside s))))"
proof -
  have "PendingEmail (Sub cl) st = ('''', False)"
    using assms(4) by (auto simp: otp_Verify_def PendingEmail_def split: option.splits if_splits)
  with assms show ?thesis
    by (auto simp: EnrollVerify_def EnrollVerify_persist_def Let_def split: prod.split kc_result.split)
qed

theorem verify_ignores_enrolled_address_witness:
  "outside (fst (EnrollVerify calm_env (Some (header_claims carol_deposit)) (snd (carol_requests ! 1))
     (api_start\<lparr>enroll := fst (Start (Some 42) 1000000000000 ''carol'' ''c@bank.test'' NewStore)\<rparr>))) = 0"
proof -
  have c: "header_claims carol_deposit = \<lparr>Sub = ''carol'', PreferredUsername = ''alice'', Email = '''',
      BankAccountNumber = ''BANK-0001-2024'', MFAVerified = False, MFAMethod = ''email''\<rparr>"
    by (simp add: carol_deposit_def carol_claims)
  let ?s = "api_start\<lparr>enroll := fst (Start (Some 42) 1000000000000 ''carol'' ''c@bank.test'' NewStore)\<rparr>"
  let ?st = "\<lparr>pending = Map.empty, stepUp = [''carol'' \<mapsto> 1000000000000 + StepUpTTL]\<rparr>"
  have code: "decode_field json_string ''code'' '''' (req_body (snd (carol_requests ! 1))) = (True, '' 000042'')"
    by (simp add: carol_requests_def carol_strings)
  have accepted: "otp_Verify (at_verify calm_env) (at_verified calm_env) (Sub (header_claims carol_deposit)) '' 000042'' (enroll ?s) = (?st, None)"
    by (simp add: c Start_def otp_Verify_def NewStore_def carol_strings maxAttempts_def codeTTL_def Minute_def Second_def
        Let_def fun_eq_iff)
  have "'' 000042'' \<noteq> ''''" "Sub (header_claims carol_deposit) \<noteq> ''''" by (simp_all add: c)
  from verify_ignores_enrolled_address [OF code this accepted] show ?thesis by (simp add: c api_start_def)
qed

end
