(* ===== verification/WrapperProperties.thy ===== *)
theory WrapperProperties
  imports MfaProperties AuthzMain
begin

text \<open>
  The properties of the wrapper: what its signature binds, whom it vouches for, that the API reads
  the token's identity back from its headers, and what the admin client writes to Keycloak.
\<close>

section \<open>The signature\<close>

text \<open>
  C11: two sets of headers accepted under the same signature agree on every signed header, or else
  they exhibit a collision of HMAC-SHA256 under the shared secret. Header values carry no line
  break, as HTTP guarantees.
\<close>

theorem signature_binds_headers:
  assumes "sig_Verify f secret now = None" and "sig_Verify g secret later = None"
    and "f HeaderSignature = g HeaderSignature" and "line_free f" and "line_free g"
  shows "list_all (\<lambda>h. f h = g h) SignedHeaders \<or>
    (canonical f \<noteq> canonical g \<and> hmac_Sum secret (canonical f) = hmac_Sum secret (canonical g))"
proof -
  from assms(1-3) have "Sign f secret = Sign g secret" by (simp add: sig_Verify_None_iff)
  from Sign_inject [OF this] show ?thesis
    using canonical_inject [OF assms(4,5)] by (auto simp: list_all_iff)
qed

lemma alice_line_free: "line_free (header_Get (req_header (api_request meth path alice_token b)))"
proof -
  have plain: "newline \<notin> set (wire_value v)" for v
    by (auto simp: wire_value_def Let_def newline_def dest!: set_dropWhileD split: if_splits)
  have "header_Get (req_header (api_request meth path alice_token b)) n =
      wire_value (header_Get (req_header (api_request meth path alice_token b)) n)" if "n \<in> set SignedHeaders" for n
    using wire_identity [OF alice_clean] that by (simp add: api_request_def)
  then show ?thesis unfolding line_free_def by (metis plain)
qed

theorem signature_binds_headers_witness:
  "list_all (\<lambda>h. header_Get (req_header deposit_request) h = header_Get (req_header (api_request ''GET'' ''/'' alice_token JNull)) h)
     SignedHeaders"
proof -
  have "sig_Verify (header_Get (req_header (api_request meth path alice_token b))) ''x'' 1000 = None" for meth path b
    using api_request_signed [OF alice_clean] by (simp add: signed_def api_cfg_secret calm_env_def nanos_per_second_def)
  from signature_binds_headers [OF this this _ alice_line_free alice_line_free, of "''POST''" _ _ "''GET''" "''/''" JNull]
  show ?thesis by (simp add: deposit_request_def api_request_def)
qed

text \<open>
  C32: a signature is accepted exactly when it is the signature of the headers and its timestamp
  lies within 30 seconds of the API's clock, as long as the two are less than 292 years apart.
\<close>

theorem signature_window_exact:
  assumes "ParseInt (TrimSpace (get HeaderTimestamp)) = Some ts" and "\<bar>now - ts\<bar> * 1000000000 < 2 ^ 63"
  shows "sig_Verify get secret now = None \<longleftrightarrow> get HeaderSignature = Sign get secret \<and> \<bar>now - ts\<bar> \<le> 30"
proof -
  from assms(2) have "in_int64 (now - ts)" by (simp add: in_int64_def abs_less_iff abs_if split: if_splits)
  with assms window_exact [of now ts] show ?thesis by (simp add: sig_Verify_None_iff Second_def)
qed

definition stamped :: "string \<Rightarrow> string \<Rightarrow> string" where
  "stamped ts h = (if h = HeaderTimestamp then ts else '''')"

definition stamped_signed :: "string \<Rightarrow> string \<Rightarrow> string" where
  "stamped_signed ts h = (if h = HeaderSignature then Sign (stamped ts) ''x'' else stamped ts h)"

lemma stamped_signed_ok: "stamped_signed ts HeaderSignature = Sign (stamped_signed ts) ''x''"
proof -
  have "Sign (stamped_signed ts) ''x'' = Sign (stamped ts) ''x''"
    by (rule Sign_cong) (use HeaderSignature_unsigned in \<open>auto simp: stamped_signed_def\<close>)
  then show ?thesis by (simp add: stamped_signed_def)
qed

lemma stamped_signed_time: "stamped_signed ts HeaderTimestamp = ts"
  by (simp add: stamped_signed_def stamped_def HeaderSignature_def HeaderTimestamp_def)

theorem signature_window_exact_witness:
  "sig_Verify (stamped_signed ''1000'') ''x'' 1030 = None \<and> sig_Verify (stamped_signed ''1000'') ''x'' 1031 \<noteq> None"
proof -
  have ts: "ParseInt (TrimSpace (stamped_signed ''1000'' HeaderTimestamp)) = Some 1000"
    unfolding stamped_signed_time by code_simp
  have "sig_Verify (stamped_signed ''1000'') ''x'' 1030 = None \<longleftrightarrow> \<bar>1030 - 1000 :: int\<bar> \<le> 30"
    by (subst signature_window_exact [where get = "stamped_signed ''1000''" and ts = 1000])
      (simp_all add: ts stamped_signed_ok)
  moreover have "sig_Verify (stamped_signed ''1000'') ''x'' 1031 = None \<longleftrightarrow> \<bar>1031 - 1000 :: int\<bar> \<le> 30"
    by (subst signature_window_exact [where get = "stamped_signed ''1000''" and ts = 1000])
      (simp_all add: ts stamped_signed_ok)
  ultimately show ?thesis by simp
qed

text \<open>
  beyond that the nanoseconds overflow: a timestamp 584 years in the future is accepted.
\<close>

theorem far_timestamp_accepted:
  "sig_Verify (stamped_signed ''18446744074'') ''x'' 0 = None"
proof -
  have "ParseInt (TrimSpace ''18446744074'') = Some 18446744074" by code_simp
  moreover have "wrap64 (window_delta 0 18446744074 * Second) \<le> MaxSkew" by code_simp
  ultimately show ?thesis by (simp add: sig_Verify_None_iff stamped_signed_ok stamped_signed_time)
qed

section \<open>Whom the wrapper vouches for\<close>

text \<open>
  C12: the wrapper answers 200 only for a bearer token of five parts that decrypts under its key to a
  token that validates under Keycloak's keys and issuer, the cached ones or the ones fetched again,
  and its headers are then exactly that token's claims with a fresh signature.
\<close>

theorem verify_vouches_for_token:
  assumes "verifyHandler L issuer secret now r c = (c', Served resp)" and "resp_status resp = 200"
  shows "\<exists>tok plain ks token. header_Get (req_header r) ''Authorization'' = ''Bearer '' @ tok \<and>
    CountByte tok CHR ''.'' = 4 \<and> bff_Decrypt L tok = Some plain \<and> jwt_Parse L ks issuer plain = Some token \<and>
    (snd (cache_KeySet L c) = Some ks \<or> snd (cache_Refresh L (fst (cache_KeySet L c))) = Some ks) \<and>
    resp_header resp = identity_headers secret now (result_of token)"
proof -
  let ?h = "header_Get (req_header r) ''Authorization''"
  let ?tok = "TrimPrefix ?h ''Bearer ''"
  have 200: "authz_error code msg = Served resp \<Longrightarrow> code = 200" for code msg
    using assms(2) by (auto simp: authz_error_def write_json_def)
  from assms(1) obtain plain res where p: "HasPrefix ?h ''Bearer ''" "CountByte ?tok CHR ''.'' = 4"
    "bff_Decrypt L ?tok = Some plain" "Validate L issuer plain c = (c', Some res)"
    "resp_header resp = identity_headers secret now res"
    by (auto simp: verifyHandler_def Let_def write_status_def split: if_splits option.splits prod.splits dest!: 200)
  from p(4) obtain ks token where "jwt_Parse L ks issuer plain = Some token" "res = result_of token"
    "snd (cache_KeySet L c) = Some ks \<or> snd (cache_Refresh L (fst (cache_KeySet L c))) = Some ks"
    by (auto simp: Validate_def split: prod.splits option.splits)
  moreover from p(1) have "?h = ''Bearer '' @ ?tok" by (rule TrimPrefix_split)
  ultimately show ?thesis using p by blast
qed

text \<open>A token library with one key, for the witnesses: a token is encrypted by four dots in front.\<close>

definition plain_token :: jwt_token where
  "plain_token = \<lparr>Subject = ''alice'', private_claims = [(''email'', JStr ''alice@bank.test''),
     (''preferred_username'', JStr ''alice''), (''bank_account_number'', JStr ''BANK-0001-2024''),
     (''mfa_verified'', JStr ''true''), (''mfa_method'', JStr ''email''),
     (''realm_access'', JObj [(''roles'', JArr [JStr ''user''])])]\<rparr>"

definition demo_lib :: "(unit, nat) token_lib" where
  "demo_lib = \<lparr>jwt_Parse = (\<lambda>ks issuer tok. if ks = 7 \<and> issuer = ''kc'' \<and> tok = ''a.b.c'' then Some plain_token else None),
     cache_KeySet = (\<lambda>c. (c, Some 6)), cache_Refresh = (\<lambda>c. (c, Some 7)),
     bff_Decrypt = (\<lambda>t. if take 4 t = ''....'' then Some (map (\<lambda>x. if x = CHR ''-'' then CHR ''.'' else x) (drop 4 t)) else None),
     bff_Encrypt = (\<lambda>c t. (c, Some (''....'' @ map (\<lambda>x. if x = CHR ''.'' then CHR ''-'' else x) t)))\<rparr>"

definition bearer_request :: request where
  "bearer_request = \<lparr>req_method = ''GET'', req_path = ''/verify'', req_cookies = [],
     req_header = header_Set Map.empty ''Authorization'' ''Bearer ....a-b-c'', req_rawquery = '''', req_body = None\<rparr>"

lemma bearer_verified:
  "verifyHandler demo_lib ''kc'' ''x'' 1000000000000 bearer_request () =
     ((), write_status (identity_headers ''x'' 1000000000000 alice_token) 200)"
proof -
  have "result_of plain_token = alice_token" by code_simp
  moreover have "HasPrefix ''Bearer ....a-b-c'' ''Bearer ''" "TrimPrefix ''Bearer ....a-b-c'' ''Bearer '' = ''....a-b-c''"
    "CountByte ''....a-b-c'' CHR ''.'' = 4" by code_simp+
  ultimately show ?thesis
    by (simp add: verifyHandler_def bearer_request_def demo_lib_def Validate_def Let_def)
qed

theorem verify_vouches_for_token_witness:
  "\<exists>tok plain ks token. ''Bearer ....a-b-c'' = ''Bearer '' @ tok \<and> bff_Decrypt demo_lib tok = Some plain \<and>
     jwt_Parse demo_lib ks ''kc'' plain = Some token"
proof -
  let ?resp = "\<lparr>resp_status = 200, resp_header = identity_headers ''x'' 1000000000000 alice_token, resp_body = NoBody\<rparr>"
  have "verifyHandler demo_lib ''kc'' ''x'' 1000000000000 bearer_request () = ((), Served ?resp)"
    by (simp add: bearer_verified write_status_def)
  from verify_vouches_for_token [OF this] show ?thesis
    by (auto simp: bearer_request_def)
qed

text \<open>
  C13: the API accepts what the wrapper answered and reads back the identity of the token: a request
  that carries the wrapper's headers, handed on by nginx, within 30 seconds passes the signature
  check, and the claims of its context are those of the validated token. The claims have no white
  space at their ends and no line breaks, which HTTP would not carry.
\<close>

theorem wrapper_identity_reaches_api:
  assumes "Validate L issuer plain c = (c', Some res)" and "clean_result res"
    and "forwarded (identity_headers secret now res) r"
    and "in_int64 (now div nanos_per_second)" and "\<bar>later - now div nanos_per_second\<bar> \<le> 30"
  shows "sig_Verify (header_Get (req_header r)) secret later = None \<and>
    header_claims r = \<lparr>Sub = res_Sub res, PreferredUsername = res_PreferredUsername res, Email = res_Email res,
      BankAccountNumber = res_BankAccountNumber res, MFAVerified = res_MFAVerified res, MFAMethod = res_MFAMethod res\<rparr>"
  using wrapper_accepted [OF assms(2-5)] wrapper_claims [OF assms(2,3)] by simp

theorem wrapper_identity_reaches_api_witness:
  "sig_Verify (header_Get (req_header deposit_request)) ''x'' 1030 = None \<and>
   MFAVerified (header_claims deposit_request) \<and> Sub (header_claims deposit_request) = ''alice''"
proof -
  have v: "Validate demo_lib ''kc'' ''a.b.c'' () = ((), Some (result_of plain_token))"
    by (simp add: Validate_def demo_lib_def)
  have t: "result_of plain_token = alice_token" by code_simp
  have "sig_Verify (header_Get (req_header deposit_request)) ''x'' 1030 = None \<and>
      header_claims deposit_request = \<lparr>Sub = res_Sub alice_token, PreferredUsername = res_PreferredUsername alice_token,
        Email = res_Email alice_token, BankAccountNumber = res_BankAccountNumber alice_token,
        MFAVerified = res_MFAVerified alice_token, MFAMethod = res_MFAMethod alice_token\<rparr>"
    by (rule wrapper_identity_reaches_api [OF v [unfolded t] alice_clean, where now = 1000000000000])
      (simp_all add: deposit_request_def api_request_forwarded [OF alice_clean] nanos_per_second_def in_int64_def)
  then show ?thesis by (simp add: alice_token_def)
qed

section \<open>The token proxy\<close>

text \<open>
  C33: the token proxy answers 200 only when Keycloak's reply holds a token that validates, and the
  document it sends has that token replaced by its encryption under the wrapper's key and every
  other member as Keycloak sent it.
\<close>

theorem proxy_replaces_token:
  assumes "tokenProxyHandler L issuer post body c = (c', Served resp)" and "resp_status resp = 200"
  shows "\<exists>form reply raw jwe res c1 c2 ms doc. body = Some form \<and> post form c = (c1, Some reply) \<and>
    reply_json reply = Some (JObj ms) \<and> map_of (members_map ms) ''access_token'' = Some (JStr raw) \<and>
    Validate L issuer raw c1 = (c2, Some res) \<and> bff_Encrypt L c2 raw = (c', Some jwe) \<and>
    resp_body resp = JsonBody (JObj doc) \<and> map_of doc ''access_token'' = Some (JStr jwe) \<and>
    (\<forall>key. key \<noteq> ''access_token'' \<longrightarrow> map_of doc key = map_option go_any (map_of (members_map ms) key))"
  by (rule proxy_reply [OF assms])

definition demo_post :: "string \<Rightarrow> 'c \<Rightarrow> 'c \<times> token_reply option" where
  "demo_post form c = (c, Some \<lparr>reply_status = 200, reply_text = '''',
     reply_json = Some (JObj [(''access_token'', JStr ''a.b.c''), (''token_type'', JStr ''Bearer'')])\<rparr>)"

theorem proxy_replaces_token_witness:
  "\<exists>jwe doc. bff_Encrypt demo_lib () ''a.b.c'' = ((), Some jwe) \<and> map_of doc ''access_token'' = Some (JStr jwe) \<and>
     map_of doc ''token_type'' = Some (JStr ''Bearer'')"
proof -
  let ?out = "tokenProxyHandler demo_lib ''kc'' demo_post (Some ''grant'') ()"
  have m: "members_map [(''access_token'', JStr ''a.b.c''), (''token_type'', JStr ''Bearer'')] =
      [(''access_token'', JStr ''a.b.c''), (''token_type'', JStr ''Bearer'')]"
    "CountByte ''a.b.c'' CHR ''.'' = 2" by code_simp+
  obtain resp where out: "?out = ((), Served resp)" "resp_status resp = 200"
    by (simp add: tokenProxyHandler_def demo_post_def unmarshal_map_def m Validate_def demo_lib_def write_json_def)
  from proxy_replaces_token [OF out] obtain jwe doc where "bff_Encrypt demo_lib () ''a.b.c'' = ((), Some jwe)"
    "map_of doc ''access_token'' = Some (JStr jwe)" "map_of doc ''token_type'' = Some (JStr ''Bearer'')"
    by (auto simp: demo_post_def m)
  then show ?thesis by blast
qed

section \<open>Keycloak\<close>

text \<open>
  C34: enabling the second factor writes at most one document, that of the given user (whose name
  cannot leave its place in the path). It is the document read, with the address set and marked
  verified, the attributes \<open>mfa_enabled\<close> and \<open>mfa_method\<close> set, and every other member and every other
  attribute kept as Go encodes it again.
\<close>

theorem enable_mfa_writes_one_user:
  assumes "EnableEmailMFA (recorded answer) now later userID email k [] = (k', w', res)"
    and "q \<in> set w'" and "out_method q = ''PUT''"
  shows "length (filter (\<lambda>q. out_method q = ''PUT'') w') = 1 \<and>
    (\<exists>tok resp ms doc attrs. answer \<lparr>out_method = ''GET'', out_url = realm_url k (''/users/'' @ PathEscape userID),
      out_auth = bearer tok, out_body = NoContent\<rparr> = Some resp \<and> in_whole resp = Some (JObj ms) \<and>
    out_url q = realm_url k (''/users/'' @ PathEscape userID) \<and> CHR ''/'' \<notin> set (PathEscape userID) \<and>
    out_body q = JsonContent (JObj doc) \<and> map_of doc ''email'' = Some (JStr email) \<and>
    map_of doc ''emailVerified'' = Some (JBool True) \<and>
    (\<forall>key. key \<notin> {''email'', ''emailVerified'', ''attributes''} \<longrightarrow>
       map_of doc key = map_option go_any (map_of (members_map ms) key)) \<and>
    map_of doc ''attributes'' = Some (JObj attrs) \<and>
    map_of attrs ''mfa_enabled'' = Some (JArr [JStr ''true'']) \<and> map_of attrs ''mfa_method'' = Some (JArr [JStr ''email'']) \<and>
    (\<forall>key. key \<notin> {''mfa_enabled'', ''mfa_method''} \<longrightarrow>
       map_of attrs key = map_option go_any (case map_of (members_map ms) ''attributes'' of
         Some (JObj old) \<Rightarrow> map_of (members_map old) key | _ \<Rightarrow> None)))"
proof -
  have "q \<in> set (filter (\<lambda>q. out_method q = ''PUT'') w')" using assms(2,3) by simp
  then have "filter (\<lambda>q. out_method q = ''PUT'') w' \<noteq> []" by (metis empty_iff empty_set)
  with EnableEmailMFA_one_put [OF assms(1)] have one: "length (filter (\<lambda>q. out_method q = ''PUT'') w') = 1"
    by (simp add: le_Suc_eq)
  from assms show ?thesis
  proof (rule EnableEmailMFA_puts)
    fix tok resp ms
    assume p: "answer \<lparr>out_method = ''GET'', out_url = realm_url k (''/users/'' @ PathEscape userID),
        out_auth = bearer tok, out_body = NoContent\<rparr> = Some resp" "in_whole resp = Some (JObj ms)"
      "out_url q = realm_url k (''/users/'' @ PathEscape userID)"
      "out_body q = JsonContent (marshal_map (with_email_mfa email (members_map ms)))"
    let ?doc = "sort_key fst (map (map_prod id go_any) (with_email_mfa email (members_map ms)))"
    from with_email_mfa_attributes [of email "members_map ms"] obtain attrs where
      attrs: "map_of ?doc ''attributes'' = Some (JObj attrs)"
        "map_of attrs ''mfa_enabled'' = Some (JArr [JStr ''true''])" "map_of attrs ''mfa_method'' = Some (JArr [JStr ''email''])"
        "\<forall>key. key \<notin> {''mfa_enabled'', ''mfa_method''} \<longrightarrow>
           map_of attrs key = map_option go_any (old_attributes (members_map ms) key)"
      by (simp only: map_of_marshal [OF distinct_with_email_mfa [OF distinct_members_map]]) blast
    have "out_body q = JsonContent (JObj ?doc)" "map_of ?doc ''email'' = Some (JStr email)"
      "map_of ?doc ''emailVerified'' = Some (JBool True)"
      "\<forall>key. key \<notin> {''email'', ''emailVerified'', ''attributes''} \<longrightarrow>
         map_of ?doc key = map_option go_any (map_of (members_map ms) key)"
      using p(4) by (simp_all add: marshal_map_def map_of_marshal with_email_mfa_get)
    with one p(1-3) PathEscape_no_slash attrs [unfolded old_attributes_def] show ?thesis by blast
  qed
qed

definition kc_answer :: "out_request \<Rightarrow> in_response option" where
  "kc_answer q = (let doc = (if out_method q = ''GET'' then Some (JObj [(''username'', JStr ''carol''),
         (''attributes'', JObj [(''bank_account_number'', JArr [JStr ''BANK-7'']), (''mfa_enabled'', JArr [JStr ''no''])])])
       else Some (JObj [(''access_token'', JStr ''t''), (''expires_in'', JNum ''60'')]))
     in Some \<lparr>in_status = 200, in_first = doc, in_whole = doc\<rparr>)"

theorem enable_mfa_writes_one_user_witness:
  "\<exists>doc attrs. map_of doc ''email'' = Some (JStr ''c@bank.test'') \<and> map_of doc ''username'' = Some (JStr ''carol'') \<and>
     map_of doc ''attributes'' = Some (JObj attrs) \<and> map_of attrs ''mfa_enabled'' = Some (JArr [JStr ''true'']) \<and>
     map_of attrs ''bank_account_number'' = Some (JArr [JStr ''BANK-7''])"
proof -
  let ?k = "New_admin ''http://kc'' ''bank'' ''admin'' ''pw''"
  let ?run = "EnableEmailMFA (recorded kc_answer) 0 0 ''c'' ''c@bank.test'' ?k []"
  let ?attrs = "[(''bank_account_number'', JArr [JStr ''BANK-7'']), (''mfa_enabled'', JArr [JStr ''no''])]"
  have m: "members_map [(''username'', JStr ''carol''), (''attributes'', JObj ?attrs)] =
      [(''username'', JStr ''carol''), (''attributes'', JObj ?attrs)]" "members_map ?attrs = ?attrs" by code_simp+
  have d: "decode_field json_string ''access_token'' '''' (Some (JObj [(''access_token'', JStr ''t''), (''expires_in'', JNum ''60'')])) = (True, ''t'')"
    "decode_field json_int ''expires_in'' 0 (Some (JObj [(''access_token'', JStr ''t''), (''expires_in'', JNum ''60'')])) = (True, 60)"
    by code_simp+
  obtain k' w' res where run: "?run = (k', w', res)" by (metis prod_cases3)
  then have "\<exists>q \<in> set w'. out_method q = ''PUT''"
    by (auto simp: EnableEmailMFA_def adminToken_def New_admin_def recorded_def kc_answer_def token_request_def d Let_def
        unmarshal_map_def EnableEmailMFA_put_def clearUserCache_def)
  then obtain q where q: "q \<in> set w'" "out_method q = ''PUT''" by blast
  from enable_mfa_writes_one_user [OF run q] obtain tok resp ms doc attrs where
    "kc_answer \<lparr>out_method = ''GET'', out_url = realm_url ?k (''/users/'' @ PathEscape ''c''), out_auth = bearer tok,
       out_body = NoContent\<rparr> = Some resp" "in_whole resp = Some (JObj ms)"
    "map_of doc ''email'' = Some (JStr ''c@bank.test'')"
    "map_of doc ''username'' = map_option go_any (map_of (members_map ms) ''username'')"
    "map_of doc ''attributes'' = Some (JObj attrs)" "map_of attrs ''mfa_enabled'' = Some (JArr [JStr ''true''])"
    "map_of attrs ''bank_account_number'' = map_option go_any (case map_of (members_map ms) ''attributes'' of
         Some (JObj old) \<Rightarrow> map_of (members_map old) ''bank_account_number'' | _ \<Rightarrow> None)"
    by auto
  then show ?thesis by (intro exI [of _ doc] exI [of _ attrs]) (auto simp: kc_answer_def m Let_def)
qed

text \<open>
  a fetched admin token is used until 30 seconds before it expires, but for at least 30 seconds:
  one that is valid for less than 30 seconds is used beyond its life.
\<close>

theorem admin_token_lifetime:
  assumes "kc_token k = ''''" and "net (token_request k) w = (w', Some resp)" and "in_status resp = 200"
    and "decode_field json_string ''access_token'' '''' (in_first resp) = (True, tok)" and "tok \<noteq> ''''"
    and "decode_field json_int ''expires_in'' 0 (in_first resp) = (True, e)" and "0 \<le> e" and "e < 2 ^ 33"
  shows "\<exists>k'. adminToken net now later k w = (k', w', KcOk tok) \<and>
    fst (snd (adminToken net t t' k' w')) =
      (if t < later + max 30 (e - 30) * nanos_per_second then w' else fst (net (token_request k) w'))"
proof -
  have ttl: "token_ttl e = max 30 (e - 30)" using assms(7,8) by (intro token_ttl_exact) simp_all
  have fits: "in_int64 (max 30 (e - 30) * nanos_per_second)"
    using assms(7,8) by (auto simp: in_int64_def nanos_per_second_def max_def)
  have same: "token_request (k\<lparr>kc_token := a, kc_expiry := b\<rparr>) = token_request k" for a b
    by (simp add: token_request_def)
  have "adminToken net now later k w =
      (k\<lparr>kc_token := tok, kc_expiry := later + max 30 (e - 30) * nanos_per_second\<rparr>, w', KcOk tok)"
    using assms(1-6) fits by (simp add: adminToken_def Let_def ttl)
  moreover have "fst (snd (adminToken net t t' k1 w')) = fst (net (token_request k1) w')"
    if "kc_token k1 = tok" "kc_expiry k1 \<le> t" for k1
    using that by (auto simp: adminToken_def Let_def split: prod.split option.split)
  ultimately show ?thesis
    using assms(5) by (auto simp: same) (simp add: adminToken_def)
qed

definition short_lived :: "out_request \<Rightarrow> in_response option" where
  "short_lived q = (let doc = Some (JObj [(''access_token'', JStr ''t''), (''expires_in'', JNum ''10'')])
     in Some \<lparr>in_status = 200, in_first = doc, in_whole = doc\<rparr>)"

theorem admin_token_lifetime_witness:
  "\<exists>k'. fst (snd (adminToken (recorded short_lived) 20000000000 20000000000 k' [token_request (New_admin ''b'' ''r'' ''u'' ''p'')])) =
     [token_request (New_admin ''b'' ''r'' ''u'' ''p'')]"
proof -
  let ?k = "New_admin ''b'' ''r'' ''u'' ''p''"
  let ?doc = "Some (JObj [(''access_token'', JStr ''t''), (''expires_in'', JNum ''10'')])"
  have d: "decode_field json_string ''access_token'' '''' ?doc = (True, ''t'')"
    "decode_field json_int ''expires_in'' 0 ?doc = (True, 10)" by code_simp+
  have "\<exists>k'. adminToken (recorded short_lived) 0 0 ?k [] = (k', [token_request ?k], KcOk ''t'') \<and>
      fst (snd (adminToken (recorded short_lived) 20000000000 20000000000 k' [token_request ?k])) =
        (if 20000000000 < 0 + max 30 (10 - 30) * nanos_per_second then [token_request ?k]
         else fst (recorded short_lived (token_request ?k) [token_request ?k]))"
    by (rule admin_token_lifetime [where resp = "\<lparr>in_status = 200, in_first = ?doc, in_whole = ?doc\<rparr>"])
      (simp_all add: New_admin_def recorded_def short_lived_def d Let_def)
  then show ?thesis by (auto simp: nanos_per_second_def)
qed

end
