(* ===== verification/SecurityProperties.thy ===== *)
theory SecurityProperties
  imports SecurityFacts WrapperProperties
begin

text \<open>
  The properties of the API that validates tokens itself, and of a token's way through the
  authorizer: handed out by the proxy, it comes back as the token Keycloak issued.
\<close>

section \<open>Tokens and accounts\<close>

definition demo_sec :: "(unit, nat) sec_lib" where
  "demo_sec = \<lparr>sec_Parse = jwt_Parse demo_lib, sec_KeySet = cache_Refresh demo_lib, encKey = Some (bff_Decrypt demo_lib)\<rparr>"

definition sec_start :: "unit sec_state" where
  "sec_start = \<lparr>sec_keys = (), sec_bank = demo_db\<rparr>"

definition sec_deposit :: request where
  "sec_deposit = \<lparr>req_method = ''POST'', req_path = ''/api/v1/accounts/me/deposit'', req_cookies = [],
     req_header = header_Set Map.empty ''Authorization'' ''Bearer a.b.c'', req_rawquery = '''',
     req_body = Some (JObj [(''amount'', JNum ''0.01'')])\<rparr>"

lemma sec_deposit_served:
  "sec_bank (fst (sec_serve demo_sec ''kc'' None id NoFault sec_deposit sec_start)) = booked 1 ''deposit'' 1 250001 demo_db"
proof -
  have t: "HasPrefix ''Bearer a.b.c'' ''Bearer ''" "TrimPrefix ''Bearer a.b.c'' ''Bearer '' = ''a.b.c''"
    "CountByte ''a.b.c'' CHR ''.'' = 2" "stringClaim plain_token ''bank_account_number'' = ''BANK-0001-2024''" by code_simp+
  have fst_on: "sec_bank (fst (on_sec_bank f s)) = fst (f (sec_bank s))" for f and s :: "unit sec_state"
    by (simp add: on_sec_bank_def split: prod.split)
  show ?thesis
    by (simp add: sec_serve_def mux_serve_def sec_routes_def sec_deposit_def method_matches_def sec_Middleware_def t
        sec_validate_def demo_sec_def demo_lib_def sec_start_def fst_on cent_deposit token_claims_def)
qed

text \<open>
  C6: the tables change only for a request whose bearer token, decrypted if it has five parts, is
  valid under Keycloak's keys and issuer, and then only by a deposit or withdrawal on the account
  that token names or, if it carries the role admin, by opening an account.
\<close>

theorem tables_need_valid_token:
  assumes "sec_serve L issuer jwks order fault r s = (s', out)" and "sec_bank s' \<noteq> sec_bank s"
  shows "\<exists>tok inner ks token. header_Get (req_header r) ''Authorization'' = ''Bearer '' @ tok \<and>
    (if CountByte tok CHR ''.'' = 4 then \<exists>decrypt. encKey L = Some decrypt \<and> decrypt tok = Some inner else inner = tok) \<and>
    snd (sec_KeySet L (sec_keys s)) = Some ks \<and> sec_Parse L ks issuer inner = Some token \<and>
    ((\<exists>amount > 0.
        sec_bank s' = fst (svc_Deposit fault (stringClaim token ''bank_account_number'') amount (sec_bank s)) \<or>
        sec_bank s' = fst (svc_Withdraw fault (stringClaim token ''bank_account_number'') amount (sec_bank s))) \<or>
     ''admin'' \<in> set (extractRealmRoles token) \<and>
     (\<exists>num owner. num \<noteq> '''' \<and> owner \<noteq> '''' \<and> sec_bank s' = fst (svc_CreateAccount fault num owner (sec_bank s))))"
  using sec_serve_changes [OF assms]
  unfolding bearer_token_def moves_money_def opens_account_def token_claims_def claims.select_convs sec_claims.select_convs
    sec_stringClaim_eq sec_extractRealmRoles_eq
  by (elim exE conjE) (intro exI conjI; assumption)

text \<open>The same deposit with the token encrypted.\<close>

definition sealed_deposit :: request where
  "sealed_deposit = sec_deposit\<lparr>req_header := header_Set Map.empty ''Authorization'' ''Bearer ....a-b-c''\<rparr>"

lemma sealed_deposit_served:
  "sec_bank (fst (sec_serve demo_sec ''kc'' None id NoFault sealed_deposit sec_start)) = booked 1 ''deposit'' 1 250001 demo_db"
proof -
  have t: "HasPrefix ''Bearer ....a-b-c'' ''Bearer ''" "TrimPrefix ''Bearer ....a-b-c'' ''Bearer '' = ''....a-b-c''"
    "CountByte ''....a-b-c'' CHR ''.'' = 4" "stringClaim plain_token ''bank_account_number'' = ''BANK-0001-2024''" by code_simp+
  have fst_on: "sec_bank (fst (on_sec_bank f s)) = fst (f (sec_bank s))" for f and s :: "unit sec_state"
    by (simp add: on_sec_bank_def split: prod.split)
  show ?thesis
    by (simp add: sealed_deposit_def sec_serve_def mux_serve_def sec_routes_def sec_deposit_def method_matches_def
        sec_Middleware_def t sec_validate_def demo_sec_def demo_lib_def sec_start_def fst_on cent_deposit token_claims_def)
qed

theorem tables_need_valid_token_witness:
  "\<exists>tok inner token. ''Bearer ....a-b-c'' = ''Bearer '' @ tok \<and> bff_Decrypt demo_lib tok = Some inner \<and>
     jwt_Parse demo_lib 7 ''kc'' inner = Some token"
proof -
  obtain s' out where o: "sec_serve demo_sec ''kc'' None id NoFault sealed_deposit sec_start = (s', out)" by fastforce
  have "sec_bank s' \<noteq> sec_bank sec_start"
    using sealed_deposit_served o by (simp add: sec_start_def booked_def demo_db_def)
  from tables_need_valid_token [OF o this] obtain tok inner ks token where
    "header_Get (req_header sealed_deposit) ''Authorization'' = ''Bearer '' @ tok"
    "if CountByte tok CHR ''.'' = 4 then \<exists>decrypt. encKey demo_sec = Some decrypt \<and> decrypt tok = Some inner else inner = tok"
    "snd (sec_KeySet demo_sec (sec_keys sec_start)) = Some ks" "sec_Parse demo_sec ks ''kc'' inner = Some token" by blast
  moreover have "CountByte ''....a-b-c'' CHR ''.'' = 4" by code_simp
  ultimately show ?thesis by (auto simp: sealed_deposit_def demo_sec_def demo_lib_def)
qed

text \<open>
  C35: opening an account succeeds only for a number not yet taken, starts it at zero, leaves every
  other account and the whole ledger alone, and a second opening under the number is refused.
\<close>

theorem account_opened_once:
  assumes "bank_ok db" and "svc_CreateAccount fault num owner db = (db', Inr acct)"
    and "char_length owner' \<le> 100" and "CHR 0x00 \<notin> set owner'"
  shows "bank_ok db' \<and> select_account db num = None \<and> transactions db' = transactions db \<and>
    map_option row_balance (select_account db' num) = Some 0 \<and>
    (\<forall>other. other \<noteq> num \<longrightarrow> select_account db' other = select_account db other) \<and>
    snd (svc_CreateAccount NoFault num owner' db') = Inl ErrAccountAlreadyExists"
proof -
  have db': "db' = opened num owner db" "select_account db num = None"
    using assms(2) by (auto elim: svc_CreateAccount_cases)
  have num: "char_length num \<le> 50" "CHR 0x00 \<notin> set num"
    using assms(2) by (auto simp: svc_CreateAccount_def Create_account_def Let_def split: if_splits)
  have "select_account (db'\<lparr>account_seq := i\<rparr>) num = select_account db' num" for i
    by (simp add: select_account_def)
  moreover have "select_account db' num \<noteq> None" by (simp add: db' select_opened)
  ultimately have "snd (svc_CreateAccount NoFault num owner' db') = Inl ErrAccountAlreadyExists"
    using num assms(3,4) by (simp add: svc_CreateAccount_def Create_account_def Let_def)
  then show ?thesis
    using svc_CreateAccount_ok [OF assms(2,1)] db' by (simp add: select_opened split: option.split) (simp add: opened_def)
qed

theorem account_opened_once_witness:
  "snd (svc_CreateAccount NoFault ''BANK-0009'' ''Eve'' (fst (svc_CreateAccount NoFault ''BANK-0009'' ''Dan'' demo_db))) =
     Inl ErrAccountAlreadyExists"
proof -
  have "select_account (demo_db\<lparr>account_seq := i\<rparr>) ''BANK-0009'' = None" for i
    by (simp add: select_account_def demo_db_def alice_row_def)
  moreover have "char_length ''BANK-0009'' \<le> 50" "char_length ''Dan'' \<le> 100" "char_length ''Eve'' \<le> 100" by code_simp+
  ultimately have "\<exists>acct. snd (svc_CreateAccount NoFault ''BANK-0009'' ''Dan'' demo_db) = Inr acct"
    by (simp add: svc_CreateAccount_def Create_account_def Let_def scanAccount_def)
  then obtain db' acct where "svc_CreateAccount NoFault ''BANK-0009'' ''Dan'' demo_db = (db', Inr acct)" by (metis prod.collapse)
  with account_opened_once [OF demo_db_ok this, of "''Eve''"] \<open>char_length ''Eve'' \<le> 100\<close> show ?thesis by simp
qed

text \<open>
  configuring a decryption key does not require tokens to be encrypted: a token without five
  parts is treated the same with and without a key.
\<close>

theorem plain_token_still_accepted:
  assumes "header_Get (req_header r) ''Authorization'' = ''Bearer '' @ tok" and "CountByte tok CHR ''.'' \<noteq> 4"
  shows "sec_Middleware (L\<lparr>encKey := Some decrypt\<rparr>) issuer next r s = sec_Middleware (L\<lparr>encKey := None\<rparr>) issuer next r s"
proof -
  have v: "sec_validate (L\<lparr>encKey := k\<rparr>) issuer next t r s = sec_validate L issuer next t r s" for k t
    by (simp add: sec_validate_def split: prod.split option.split)
  have "TrimPrefix (''Bearer '' @ tok) ''Bearer '' = tok" by (rule TrimPrefix_append)
  with assms(2) show ?thesis unfolding sec_Middleware_def assms(1) v Let_def by simp
qed

theorem plain_token_still_accepted_witness:
  "sec_Middleware (demo_sec\<lparr>encKey := Some (bff_Decrypt demo_lib)\<rparr>) ''kc'' (\<lambda>ctx r. health) sec_deposit sec_start =
   sec_Middleware (demo_sec\<lparr>encKey := None\<rparr>) ''kc'' (\<lambda>ctx r. health) sec_deposit sec_start"
  by (rule plain_token_still_accepted [where tok = "''a.b.c''"]) (simp_all add: sec_deposit_def CountByte_def)

section \<open>A token's round trip\<close>

text \<open>
  C14: a token the proxy handed out is, when it comes back, the token Keycloak issued: the proxy
  had validated that token under some keys \<open>ks\<close>, the authorizer's answer to the returned one is
  decided by validating exactly that token at the time of the return, and it is 200 with the
  claims read at the hand-out if the cached keys are still \<open>ks\<close> and the library still reads the
  token as it did (it has not expired). JWE decryption undoes encryption and a compact JWE has
  five parts.
\<close>

theorem handed_out_token_verifies:
  assumes "jwe_lawful K key"
    and "tokenProxyHandler (key_token_lib parse t J K key) issuer post body c = (c', Served resp)" and "resp_status resp = 200"
    and "resp_body resp = JsonBody (JObj doc)" and "map_of doc ''access_token'' = Some (JStr jwe)"
    and "header_Get (req_header r) ''Authorization'' = ''Bearer '' @ jwe"
  shows "\<exists>form reply ms raw ks token. body = Some form \<and> snd (post form c) = Some reply \<and> reply_json reply = Some (JObj ms) \<and>
    map_of (members_map ms) ''access_token'' = Some (JStr raw) \<and> parse t ks issuer raw = Some token \<and>
    (\<forall>t' secret now d.
       verifyHandler (key_token_lib parse t' J K key) issuer secret now r d =
         (case Validate (key_token_lib parse t' J K key) issuer raw d of
            (d', None) \<Rightarrow> (d', authz_error 401 ''invalid or expired token'')
          | (d', Some res) \<Rightarrow> (d', write_status (identity_headers secret now res) 200)) \<and>
       (snd (KeySet J d) = Some ks \<and> parse t' ks issuer raw = parse t ks issuer raw \<longrightarrow>
          verifyHandler (key_token_lib parse t' J K key) issuer secret now r d =
            (fst (KeySet J d), write_status (identity_headers secret now (result_of token)) 200)))"
proof -
  let ?T = "\<lambda>t. key_token_lib parse t J K key"
  obtain form reply raw jwe' res c1 c2 ms doc' where
    p: "body = Some form" "post form c = (c1, Some reply)" "reply_json reply = Some (JObj ms)"
      "map_of (members_map ms) ''access_token'' = Some (JStr raw)" "Validate (?T t) issuer raw c1 = (c2, Some res)"
      "bff_Encrypt (?T t) c2 raw = (c', Some jwe')"
      "resp_body resp = JsonBody (JObj doc')" "map_of doc' ''access_token'' = Some (JStr jwe')"
    using proxy_reply [OF assms(2,3)] by (elim exE conjE)
  with assms(4,5) have enc: "bff_Encrypt (?T t) c2 raw = (c', Some jwe)" by simp
  obtain ks token where parsed: "parse t ks issuer raw = Some token"
    using Validate_parsed [OF p(5)] by (auto simp: key_token_lib_def)
  note verifies = handed_out_verifies [OF assms(1) enc assms(6)]
  have accepted: "Validate (?T t') issuer raw d = (fst (KeySet J d), Some (result_of token))"
    if "snd (KeySet J d) = Some ks" "parse t' ks issuer raw = Some token" for t' d
    using that by (cases "KeySet J d") (simp add: Validate_def key_token_lib_def)
  show ?thesis
    by (intro exI [of _ form] exI [of _ reply] exI [of _ ms] exI [of _ raw] exI [of _ ks] exI [of _ token])
      (simp add: p parsed verifies accepted)
qed

definition demo_keys :: "unit key_lib" where
  "demo_keys = \<lparr>pem_Decode = (\<lambda>_. None), ParsePKCS1PrivateKey = (\<lambda>_. None), ParsePKCS8PrivateKey = (\<lambda>_. None),
     jwk_FromRaw = (\<lambda>_. None), jwk_Thumbprint = (\<lambda>_. None), jwe_Decrypt = (\<lambda>_ t. if t = ''....x'' then Some ''a.b.c'' else None),
     jwe_Encrypt = (\<lambda>_ p. if p = ''a.b.c'' then Some ''....x'' else None)\<rparr>"

definition demo_key :: "unit enc_key" where
  "demo_key = \<lparr>key_private = (), key_public = []\<rparr>"

definition demo_cache :: "(unit, nat) jwk_cache_lib" where
  "demo_cache = \<lparr>cache_New = (), cache_Register = (\<lambda>_ _ c. Some c), cache_Fetch = (\<lambda>_ c. (c, Some 7)),
     cache_Get = (\<lambda>_ c. (c, Some 7))\<rparr>"

definition demo_kc :: "unit key_cache" where
  "demo_kc = \<lparr>cache = (), cache_url = ''u''\<rparr>"

definition demo_parse :: "int \<Rightarrow> nat \<Rightarrow> string \<Rightarrow> string \<Rightarrow> jwt_token option" where
  "demo_parse t ks issuer tok = (if t < 100 then jwt_Parse demo_lib ks issuer tok else None)"

definition demo_T :: "int \<Rightarrow> (unit key_cache, nat) token_lib" where
  "demo_T t = key_token_lib demo_parse t demo_cache demo_keys demo_key"

definition back_request :: request where
  "back_request = bearer_request\<lparr>req_header := header_Set Map.empty ''Authorization'' (''Bearer '' @ ''....x'')\<rparr>"

lemma demo_T_validates:
  "Validate (demo_T t) ''kc'' ''a.b.c'' demo_kc = (demo_kc, if t < 100 then Some (result_of plain_token) else None)"
  by (simp add: demo_T_def demo_parse_def key_token_lib_def Validate_def KeySet_def Refresh_def demo_cache_def demo_kc_def demo_lib_def)

theorem handed_out_token_verifies_witness:
  "verifyHandler (demo_T 99) ''kc'' ''x'' 1000000000000 back_request demo_kc =
     (demo_kc, write_status (identity_headers ''x'' 1000000000000 (result_of plain_token)) 200) \<and>
   verifyHandler (demo_T 100) ''kc'' ''x'' 1000000000000 back_request demo_kc =
     (demo_kc, authz_error 401 ''invalid or expired token'')"
proof -
  have m: "members_map [(''access_token'', JStr ''a.b.c''), (''token_type'', JStr ''Bearer'')] =
      [(''access_token'', JStr ''a.b.c''), (''token_type'', JStr ''Bearer'')]"
    "CountByte ''a.b.c'' CHR ''.'' = 2" "CountByte ''....x'' CHR ''.'' = 4" by code_simp+
  have doc: "marshal_map [(''access_token'', JStr ''....x''), (''token_type'', JStr ''Bearer'')] =
      JObj [(''access_token'', JStr ''....x''), (''token_type'', JStr ''Bearer'')]" by code_simp
  have lawful: "jwe_lawful demo_keys demo_key" by (auto simp: jwe_lawful_def demo_keys_def m)
  let ?doc = "[(''access_token'', JStr ''....x''), (''token_type'', JStr ''Bearer'')]"
  obtain resp where out: "tokenProxyHandler (demo_T 0) ''kc'' demo_post (Some ''grant'') demo_kc = (demo_kc, Served resp)"
    "resp_status resp = 200" "resp_body resp = JsonBody (JObj ?doc)"
    by (simp add: tokenProxyHandler_def demo_post_def unmarshal_map_def m demo_T_validates write_json_def doc)
      (simp add: demo_T_def key_token_lib_def BFFKey_Encrypt_def demo_keys_def doc)
  have tok: "map_of ?doc ''access_token'' = Some (JStr ''....x'')" by simp
  have auth: "header_Get (req_header back_request) ''Authorization'' = ''Bearer '' @ ''....x''"
    by (simp add: back_request_def)
  from handed_out_token_verifies [OF lawful out(1) [unfolded demo_T_def] out(2,3) tok auth, folded demo_T_def]
  obtain form reply ms raw where
    "snd (demo_post form demo_kc) = Some reply" "reply_json reply = Some (JObj ms)"
    "map_of (members_map ms) ''access_token'' = Some (JStr raw)" and
    verifies: "verifyHandler (demo_T t') ''kc'' ''x'' 1000000000000 back_request demo_kc =
      (case Validate (demo_T t') ''kc'' raw demo_kc of
         (d', None) \<Rightarrow> (d', authz_error 401 ''invalid or expired token'')
       | (d', Some res) \<Rightarrow> (d', write_status (identity_headers ''x'' 1000000000000 res) 200))" for t' by blast
  then have "raw = ''a.b.c''" by (auto simp: demo_post_def m)
  with verifies demo_T_validates show ?thesis by simp
qed

end
