(* ===== verification/DecodeToken.thy ===== *)
theory DecodeToken
  imports Keys JsonText
begin

text \<open>
  The command line tool that shows what is in an access token
  (\<open>api-keycloak-security/api/cmd/decode-token/main.go\<close>). A run gives the lines printed, the
  message on standard error if there is one, and the exit code. A printed document is kept as the
  value it shows. The content of \<open>../.env\<close> is an argument.
\<close>

section \<open>Splitting\<close>

lemma Split_length: "length (Split s sep) = CountByte s sep + 1"
  by (induction s) (auto simp: CountByte_def split: list.split)

section \<open>The file of settings\<close>

text \<open>
  \<open>bufio.Scanner\<close>: lines without their end, up to the first one that does not fit its buffer of
  64 kB. The last line counts only if it is not empty. Messages on standard error are kept without
  the library's part of the text.
\<close>

definition chomp :: "string \<Rightarrow> string" where
  "chomp s = (if s \<noteq> [] \<and> last s = CHR 0x0D then butlast s else s)"

definition scan_lines :: "string \<Rightarrow> string list" where
  "scan_lines s =
     (let ls = Split s CHR 0x0A; ls = (if last ls = [] then butlast ls else ls)
      in map chomp (takeWhile (\<lambda>l. length l < 65536) ls))"

definition readDotEnv :: "string option \<Rightarrow> string \<Rightarrow> string" where
  "readDotEnv file key =
     (case file of
        None \<Rightarrow> ''''
      | Some s \<Rightarrow>
          (case find (\<lambda>line. HasPrefix line (key @ ''='')) (scan_lines s) of
             None \<Rightarrow> ''''
           | Some line \<Rightarrow> TrimPrefix line (key @ ''='')))"

section \<open>Printing\<close>

datatype shown = Separator | Line string | Algorithms "json option" "json option" | KeyID json | Document json | NullDocument

record run =
  printed :: "shown list"
  complaint :: "string option"
  exit_code :: nat

definition fail_run :: "shown list \<Rightarrow> string \<Rightarrow> run" where
  "fail_run out msg = \<lparr>printed = out, complaint = Some msg, exit_code = 1\<rparr>"

definition printJWEHeader :: "string \<Rightarrow> shown list" where
  "printJWEHeader encodedHeader =
     (case RawURL_decode encodedHeader of
        None \<Rightarrow> []
      | Some headerBytes \<Rightarrow>
          (case unmarshal_map (whole_value headerBytes) of
             None \<Rightarrow> []
           | Some h \<Rightarrow>
               let m = (case h of NilMap \<Rightarrow> [] | GoMap m \<Rightarrow> m)
               in [Algorithms (map_of m ''alg'') (map_of m ''enc'')] @
                  (case map_of m ''kid'' of Some kid \<Rightarrow> [KeyID kid] | None \<Rightarrow> [])))"

definition printJWTClaims :: "shown list \<Rightarrow> string \<Rightarrow> run" where
  "printJWTClaims out jws =
     (case Split jws CHR ''.'' of
        [_, p, _] \<Rightarrow>
          (case RawURL_decode p of
             None \<Rightarrow> fail_run out ''error: decode payload''
           | Some payload \<Rightarrow>
               (case unmarshal_map (whole_value payload) of
                  None \<Rightarrow> fail_run out ''error: parse claims''
                | Some cl \<Rightarrow> \<lparr>printed = out @ [case cl of NilMap \<Rightarrow> NullDocument | GoMap m \<Rightarrow> Document (marshal_map m)],
                    complaint = None, exit_code = 0\<rparr>))
      | _ \<Rightarrow> fail_run out ''error: inner token is not a valid JWS'')"

section \<open>The program\<close>

definition show_token :: "'k key_lib \<Rightarrow> 'k enc_key \<Rightarrow> string \<Rightarrow> run" where
  "show_token L key tokenStr =
     (let parts = Split tokenStr CHR ''.''
      in if length parts = 5 then
           let out = [Separator, Line ''TOKEN TYPE  : JWE (encrypted)''] @ printJWEHeader (parts ! 0) @ [Separator]
           in case EncryptionKey_Decrypt L key tokenStr of
                None \<Rightarrow> fail_run out ''error: decryption failed''
              | Some decrypted \<Rightarrow> printJWTClaims (out @ [Line ''DECRYPTED CLAIMS:'', Separator]) decrypted
         else if length parts = 3 then
           printJWTClaims [Separator, Line ''TOKEN TYPE  : JWS (signed, not encrypted)'', Separator, Line ''CLAIMS:'', Separator] tokenStr
         else fail_run [] ''error: not a valid compact JWT (expected 3 or 5 parts)'')"

definition decode_token_main ::
  "'k key_lib \<Rightarrow> (string \<Rightarrow> string) \<Rightarrow> string option \<Rightarrow> string list \<Rightarrow> run" where
  "decode_token_main L env file args =
     (if length args < 2 \<or> args ! 1 = '''' then fail_run [] ''usage: decode-token <token>''
      else let keyB64 = env ''API_PRIVATE_KEY_BASE64'';
               keyB64 = (if keyB64 = '''' then readDotEnv file ''API_PRIVATE_KEY_BASE64'' else keyB64)
           in if keyB64 = '''' then fail_run [] ''error: API_PRIVATE_KEY_BASE64 not found in environment or ../.env''
              else case Std_decode keyB64 of
                     None \<Rightarrow> fail_run [] ''error: decode private key''
                   | Some pemBytes \<Rightarrow>
                       (case NewEncryptionKeyFromPEM L pemBytes of
                          Inl _ \<Rightarrow> fail_run [] ''error: load private key''
                        | Inr key \<Rightarrow> show_token L key (args ! 1)))"

section \<open>What is shown\<close>

lemma printJWTClaims_ok:
  assumes "exit_code (printJWTClaims out jws) = 0"
  obtains h p s payload cl where "Split jws CHR ''.'' = [h, p, s]" "RawURL_decode p = Some payload"
    "unmarshal_map (whole_value payload) = Some cl"
    "printed (printJWTClaims out jws) = out @ [case cl of NilMap \<Rightarrow> NullDocument | GoMap m \<Rightarrow> Document (marshal_map m)]"
  using assms that
  by (auto simp: printJWTClaims_def fail_run_def split: list.splits option.splits)

lemma Split_join: "\<forall>p \<in> set ps. c \<notin> set p \<Longrightarrow> ps \<noteq> [] \<Longrightarrow> Split (Join ps [c]) c = ps"
proof (induction ps "[c]" rule: Join.induct)
  case (2 x)
  have "c \<notin> set x \<Longrightarrow> Split x c = [x]" by (induction x) auto
  with 2 show ?case by simp
next
  case (3 x y ys)
  have "c \<notin> set x \<Longrightarrow> Split (x @ c # t) c = x # Split t c" for t by (induction x) auto
  with 3 show ?case by simp
qed simp

lemma Split_issued:
  assumes "CHR ''.'' \<notin> set h" and "CHR ''.'' \<notin> set s"
  shows "Split (Join [h, RawURL_encode p, s] ''.'') CHR ''.'' = [h, RawURL_encode p, s]"
  using assms RawURL_encode_no_dot [of p] by (intro Split_join) auto

lemma printJWTClaims_issued:
  assumes "CHR ''.'' \<notin> set h" and "CHR ''.'' \<notin> set s"
    and "valid_json (JObj ms)" and "json_depth (JObj ms) \<le> max_nesting" and "fits_any (JObj ms)"
  shows "printJWTClaims out (Join [h, RawURL_encode (encode_json (JObj ms)), s] ''.'') =
    \<lparr>printed = out @ [Document (marshal_map (members_map ms))], complaint = None, exit_code = 0\<rparr>"
  using assms(5) unfolding printJWTClaims_def Split_issued [OF assms(1,2)]
  by (simp add: RawURL_decode_encode encoded_whole [OF assms(3,4)] unmarshal_map_def del: encode_json.simps fits_any.simps)

end
