(* ===== verification/UsersApi.thy ===== *)
theory UsersApi
  imports MfaApi
begin

text \<open>
  The client of the replicated database (\<open>postgresql-db-replicas/client/main.go\<close>): a small API on
  the table \<open>users\<close>, and the demo web server behind the load balancer
  (\<open>haproxy-http-loadbalancer/webserver/main.go\<close>). The object mapper, which sends reads to a
  replica and writes to the primary, is an argument.
\<close>

section \<open>Configuration\<close>

definition users_getEnv :: "(string \<Rightarrow> string) \<Rightarrow> string \<Rightarrow> string \<Rightarrow> string" where
  "users_getEnv env key fallback = (let v = env key in if v \<noteq> '''' then v else fallback)"

definition dsn :: "string \<Rightarrow> string \<Rightarrow> string \<Rightarrow> string \<Rightarrow> string \<Rightarrow> string" where
  "dsn host port usr password dbname = ''host='' @ host @ '' port='' @ port @ '' user='' @ usr @
     '' password='' @ password @ '' dbname='' @ dbname @ '' sslmode=disable''"

text \<open>The primary's address and those of the replicas.\<close>

definition users_sources :: "(string \<Rightarrow> string) \<Rightarrow> string \<times> string list" where
  "users_sources env =
     (let port = users_getEnv env ''DB_PORT'' ''5432''; usr = users_getEnv env ''DB_USER'' ''postgres'';
          password = users_getEnv env ''DB_PASSWORD'' ''postgres''; dbname = users_getEnv env ''DB_NAME'' ''service'';
          writeHost = users_getEnv env ''DB_WRITE_HOST'' ''localhost'';
          readHost1 = users_getEnv env ''DB_READ_HOST_1'' ''localhost'';
          readHost2 = users_getEnv env ''DB_READ_HOST_2'' ''localhost'';
          readPort1 = users_getEnv env ''DB_READ_PORT_1'' port; readPort2 = users_getEnv env ''DB_READ_PORT_2'' port
      in (dsn writeHost port usr password dbname,
          [dsn readHost1 readPort1 usr password dbname, dsn readHost2 readPort2 usr password dbname]))"

section \<open>Handlers\<close>

record user =
  user_ID :: int
  user_Name :: string

text \<open>What the handlers call; an error is its message, except where only its presence matters.\<close>

record 'd gorm =
  db_Find :: "'d \<Rightarrow> 'd \<times> (string + user list)"
  db_Create :: "user \<Rightarrow> 'd \<Rightarrow> 'd \<times> (string + user)"
  db_First :: "int \<Rightarrow> 'd \<Rightarrow> 'd \<times> user option"
  db_Delete :: "int \<Rightarrow> 'd \<Rightarrow> 'd \<times> string option"

definition user_json :: "user \<Rightarrow> json" where
  "user_json u = JObj [(''id'', JInt (user_ID u)), (''name'', JStr (user_Name u))]"

definition ErrorResponse :: "string \<Rightarrow> json" where
  "ErrorResponse msg = JObj [(''error'', JStr msg)]"

definition users_writeJSON :: "nat \<Rightarrow> json \<Rightarrow> served" where
  "users_writeJSON status v = write_json Map.empty status v"

definition list_users :: "'d gorm \<Rightarrow> 'd \<Rightarrow> 'd \<times> served" where
  "list_users G d =
     (case db_Find G d of
        (d, Inl e) \<Rightarrow> (d, users_writeJSON 500 (ErrorResponse e))
      | (d, Inr us) \<Rightarrow> (d, users_writeJSON 200 (JArr (map user_json us))))"

definition create_user :: "'d gorm \<Rightarrow> request \<Rightarrow> 'd \<Rightarrow> 'd \<times> served" where
  "create_user G r d =
     (let (good1, i) = decode_field json_int ''id'' 0 (req_body r);
          (good2, name) = decode_field json_string ''name'' '''' (req_body r)
      in if \<not> good1 \<or> \<not> good2 \<or> name = ''''
         then (d, users_writeJSON 400 (ErrorResponse ''field 'name' is required''))
         else case db_Create G \<lparr>user_ID = i, user_Name = name\<rparr> d of
                (d, Inl e) \<Rightarrow> (d, users_writeJSON 500 (ErrorResponse e))
              | (d, Inr u) \<Rightarrow> (d, users_writeJSON 201 (user_json u)))"

definition get_user :: "'d gorm \<Rightarrow> string \<Rightarrow> 'd \<Rightarrow> 'd \<times> served" where
  "get_user G idText d =
     (case ParseInt idText of
        None \<Rightarrow> (d, users_writeJSON 400 (ErrorResponse ''invalid id''))
      | Some i \<Rightarrow>
          (case db_First G i d of
             (d, None) \<Rightarrow> (d, users_writeJSON 404 (ErrorResponse ''user not found''))
           | (d, Some u) \<Rightarrow> (d, users_writeJSON 200 (user_json u))))"

definition delete_user :: "'d gorm \<Rightarrow> string \<Rightarrow> 'd \<Rightarrow> 'd \<times> served" where
  "delete_user G idText d =
     (case ParseInt idText of
        None \<Rightarrow> (d, users_writeJSON 400 (ErrorResponse ''invalid id''))
      | Some i \<Rightarrow>
          (case db_Delete G i d of
             (d, Some e) \<Rightarrow> (d, users_writeJSON 500 (ErrorResponse e))
           | (d, None) \<Rightarrow> (d, write_status Map.empty 204)))"

text \<open>The pattern \<open>/users/{id}\<close> takes one segment that is not empty.\<close>

definition path_id :: "string \<Rightarrow> string option" where
  "path_id path =
     (let seg = TrimPrefix path ''/users/''
      in if HasPrefix path ''/users/'' \<and> seg \<noteq> '''' \<and> CHR ''/'' \<notin> set seg then Some seg else None)"

definition users_routes :: "'d gorm \<Rightarrow> request \<Rightarrow> 'd route list" where
  "users_routes G r =
     [(''GET'', ''/health'', health), (''GET'', ''/users'', list_users G), (''POST'', ''/users'', create_user G r)] @
     (case path_id (req_path r) of
        None \<Rightarrow> []
      | Some i \<Rightarrow> [(''GET'', req_path r, get_user G i), (''DELETE'', req_path r, delete_user G i)])"

definition users_serve :: "'d gorm \<Rightarrow> request \<Rightarrow> 'd \<Rightarrow> 'd \<times> served" where
  "users_serve G r d = mux_serve (users_routes G r) r d"

section \<open>The web server behind the load balancer\<close>

definition hello :: "string \<Rightarrow> served" where
  "hello instance_name = Served \<lparr>resp_status = 200, resp_header = header_Set Map.empty ''Content-Type'' ''text/plain; charset=utf-8'',
     resp_body = TextBody (''Hello, world! Instance: '' @ instance_name @ [CHR 0x0A])\<rparr>"

section \<open>What a request does to the table\<close>

text \<open>
  What is relied on of the mapper, over the rows of the primary: reading changes no row, a created
  row is added under the given name, deleting removes the rows of one key. After an error the
  change was made or not, since the confirmation of a commit can be lost.
\<close>

definition gorm_laws :: "('d \<Rightarrow> user list) \<Rightarrow> 'd gorm \<Rightarrow> bool" where
  "gorm_laws rows G \<longleftrightarrow>
     (\<forall>d d' x. db_Find G d = (d', x) \<longrightarrow> rows d' = rows d) \<and>
     (\<forall>d d' i x. db_First G i d = (d', x) \<longrightarrow> rows d' = rows d) \<and>
     (\<forall>d d' u e. db_Create G u d = (d', Inl e) \<longrightarrow>
       rows d' = rows d \<or> (\<exists>v. rows d' = rows d @ [v] \<and> user_Name v = user_Name u)) \<and>
     (\<forall>d d' u v. db_Create G u d = (d', Inr v) \<longrightarrow> rows d' = rows d @ [v] \<and> user_Name v = user_Name u) \<and>
     (\<forall>d d' i e. db_Delete G i d = (d', Some e) \<longrightarrow>
       rows d' = rows d \<or> rows d' = filter (\<lambda>u. user_ID u \<noteq> i) (rows d)) \<and>
     (\<forall>d d' i. db_Delete G i d = (d', None) \<longrightarrow> rows d' = filter (\<lambda>u. user_ID u \<noteq> i) (rows d))"

lemma gorm_lawsD:
  assumes "gorm_laws rows G"
  shows "db_Find G d = (d', x) \<Longrightarrow> rows d' = rows d" "db_First G i d = (d', y) \<Longrightarrow> rows d' = rows d"
    "db_Create G u d = (d', Inl e) \<Longrightarrow> rows d' = rows d \<or> (\<exists>v. rows d' = rows d @ [v] \<and> user_Name v = user_Name u)"
    "db_Create G u d = (d', Inr v) \<Longrightarrow> rows d' = rows d @ [v] \<and> user_Name v = user_Name u"
    "db_Delete G i d = (d', Some e) \<Longrightarrow> rows d' = rows d \<or> rows d' = filter (\<lambda>u. user_ID u \<noteq> i) (rows d)"
    "db_Delete G i d = (d', None) \<Longrightarrow> rows d' = filter (\<lambda>u. user_ID u \<noteq> i) (rows d)"
  using assms unfolding gorm_laws_def by metis+

lemma list_users_rows:
  assumes "gorm_laws rows G" and "list_users G d = (d', out)"
  shows "rows d' = rows d"
  using assms(2) by (auto simp: list_users_def split: prod.splits sum.splits dest: gorm_lawsD [OF assms(1)])

lemma get_user_rows:
  assumes "gorm_laws rows G" and "get_user G s d = (d', out)"
  shows "rows d' = rows d"
  using assms(2) by (auto simp: get_user_def split: prod.splits option.splits dest: gorm_lawsD [OF assms(1)])

lemma create_user_rows:
  assumes "gorm_laws rows G" and "create_user G r d = (d', out)"
  shows "rows d' = rows d \<or> (\<exists>u. rows d' = rows d @ [u] \<and> user_Name u \<noteq> '''')"
  using assms(2)
  by (auto simp: create_user_def split: prod.splits sum.splits if_splits dest!: gorm_lawsD(3,4) [OF assms(1)])

lemma delete_user_rows:
  assumes "gorm_laws rows G" and "delete_user G s d = (d', out)"
  shows "rows d' = rows d \<or> (\<exists>i. ParseInt s = Some i \<and> rows d' = filter (\<lambda>u. user_ID u \<noteq> i) (rows d))"
  using assms(2)
  by (auto simp: delete_user_def split: prod.splits option.splits dest!: gorm_lawsD(5,6) [OF assms(1)])

lemma path_id_Some: "path_id path = Some s \<Longrightarrow> path = ''/users/'' @ s"
  unfolding path_id_def Let_def by (metis TrimPrefix_split option.distinct(1) option.inject)

lemma users_serve_rows:
  assumes "gorm_laws rows G" and "users_serve G r d = (d', out)" and "rows d' \<noteq> rows d"
  shows "(\<exists>u. rows d' = rows d @ [u] \<and> user_Name u \<noteq> '''' \<and> req_method r = ''POST'' \<and> req_path r = ''/users'') \<or>
    (\<exists>s i. rows d' = filter (\<lambda>u. user_ID u \<noteq> i) (rows d) \<and> req_method r = ''DELETE'' \<and>
       req_path r = ''/users/'' @ s \<and> ParseInt s = Some i)"
proof -
  from mux_serve_route [OF assms(2) [unfolded users_serve_def]] assms(3) obtain m h where
    h: "(m, req_path r, h) \<in> set (users_routes G r)" "method_matches m (req_method r)" "h d = (d', out)" by auto
  have "(m = ''POST'' \<and> req_path r = ''/users'' \<and> h = create_user G r) \<or>
      (\<exists>s. path_id (req_path r) = Some s \<and> m = ''DELETE'' \<and> h = delete_user G s)"
    using h(1,3) assms(3)
    by (cases "path_id (req_path r)") (auto simp: users_routes_def health_def
        dest: list_users_rows [OF assms(1)] get_user_rows [OF assms(1)])
  with h(2,3) assms(3) show ?thesis
    by (auto simp: method_matches_def dest!: path_id_Some create_user_rows [OF assms(1)] delete_user_rows [OF assms(1)])
qed

end
