(* ===== verification/ToolProperties.thy ===== *)
theory ToolProperties
  imports DecodeToken UsersApi AuthzMain
begin

text \<open>The properties of the users API and of the token tool.\<close>

section \<open>Users\<close>

text \<open>
  C38: the rows of the primary change only by a POST to /users, which adds one row with a name that is
  not empty, or by a DELETE of /users/{id} with a whole number, which removes the rows of that key;
  every other request, malformed ones included, leaves them alone. The object mapper keeps its
  documented behaviour.
\<close>

theorem users_change_only_by_post_and_delete:
  assumes "gorm_laws rows G" and "users_serve G r d = (d', out)" and "rows d' \<noteq> rows d"
  shows "(\<exists>u. rows d' = rows d @ [u] \<and> user_Name u \<noteq> '''' \<and> req_method r = ''POST'' \<and> req_path r = ''/users'') \<or>
    (\<exists>s i. rows d' = filter (\<lambda>u. user_ID u \<noteq> i) (rows d) \<and> req_method r = ''DELETE'' \<and>
       req_path r = ''/users/'' @ s \<and> ParseInt s = Some i)"
  by (rule users_serve_rows [OF assms])

definition list_gorm :: "user list gorm" where
  "list_gorm = \<lparr>db_Find = (\<lambda>d. (d, Inr d)), db_Create = (\<lambda>u d. (d @ [u], Inr u)),
     db_First = (\<lambda>i d. (d, find (\<lambda>u. user_ID u = i) d)), db_Delete = (\<lambda>i d. (filter (\<lambda>u. user_ID u \<noteq> i) d, None))\<rparr>"

definition delete_request :: request where
  "delete_request = \<lparr>req_method = ''DELETE'', req_path = ''/users/7'', req_cookies = [], req_header = Map.empty,
     req_rawquery = '''', req_body = None\<rparr>"

theorem users_change_only_by_post_and_delete_witness:
  "\<exists>s i. ''/users/7'' = ''/users/'' @ s \<and> ParseInt s = Some i \<and> users_serve list_gorm delete_request [\<lparr>user_ID = 7, user_Name = ''n''\<rparr>] =
     (filter (\<lambda>u. user_ID u \<noteq> i) [\<lparr>user_ID = 7, user_Name = ''n''\<rparr>], write_status Map.empty 204)"
proof -
  let ?d = "[\<lparr>user_ID = 7, user_Name = ''n''\<rparr>]"
  have laws: "gorm_laws id list_gorm" by (auto simp: gorm_laws_def list_gorm_def)
  have p: "path_id ''/users/7'' = Some ''7''" "ParseInt ''7'' = Some 7" by code_simp+
  have run: "users_serve list_gorm delete_request ?d = ([], write_status Map.empty 204)"
    by (simp add: users_serve_def mux_serve_def users_routes_def delete_request_def p method_matches_def delete_user_def
        list_gorm_def)
  from users_change_only_by_post_and_delete [OF laws run] obtain s i where
    "id [] = filter (\<lambda>u. user_ID u \<noteq> i) (id ?d)" "req_path delete_request = ''/users/'' @ s" "ParseInt s = Some i"
    by (auto simp: delete_request_def)
  with run show ?thesis by (auto simp: delete_request_def)
qed

section \<open>Tokens\<close>

text \<open>
  C15: the tool shows what the issuer put into a token. For a key configured in the environment or in
  the file, a signed token whose payload is the base64 of a JSON object's text, and that token
  encrypted to the key, it prints that object - its members in order, a repeated one once - as
  its last document and succeeds.
\<close>

theorem issued_claims_are_shown:
  assumes "env ''API_PRIVATE_KEY_BASE64'' = b64 \<or>
      env ''API_PRIVATE_KEY_BASE64'' = '''' \<and> readDotEnv file ''API_PRIVATE_KEY_BASE64'' = b64"
    and "b64 \<noteq> ''''" and "Std_decode b64 = Some pem" and "NewEncryptionKeyFromPEM L pem = Inr key"
    and "jwe_lawful L key" and "jwe_Encrypt L (key_private key) jws = Some jwe"
    and "jws = Join [h, RawURL_encode (encode_json (JObj ms)), s] ''.''"
    and "CHR ''.'' \<notin> set h" and "CHR ''.'' \<notin> set s"
    and "valid_json (JObj ms)" and "json_depth (JObj ms) \<le> max_nesting" and "fits_any (JObj ms)"
    and "tok \<in> {jws, jwe}"
  shows "exit_code (decode_token_main L env file [prog, tok]) = 0 \<and>
    complaint (decode_token_main L env file [prog, tok]) = None \<and>
    last (printed (decode_token_main L env file [prog, tok])) = Document (marshal_map (members_map ms))"
proof -
  have key: "decode_token_main L env file [prog, t] = show_token L key t" if "t \<noteq> ''''" for t
    using assms(1-4) that by (auto simp: decode_token_main_def Let_def)
  have claims: "printJWTClaims out jws = \<lparr>printed = out @ [Document (marshal_map (members_map ms))],
      complaint = None, exit_code = 0\<rparr>" for out
    unfolding assms(7) by (rule printJWTClaims_issued [OF assms(8-12)])
  have three: "length (Split jws CHR ''.'') = 3"
    unfolding assms(7) using Split_issued [OF assms(8,9)] by simp
  have five: "length (Split jwe CHR ''.'') = 5" and dec: "EncryptionKey_Decrypt L key jwe = Some jws"
    using assms(5,6) by (auto simp: jwe_lawful_def Split_length EncryptionKey_Decrypt_def)
  have "jws \<noteq> ''''" "jwe \<noteq> ''''" using three five by auto
  with assms(13) show ?thesis
    by (auto simp: key show_token_def claims three five dec Let_def)
qed

definition one_key_lib :: "unit key_lib" where
  "one_key_lib = \<lparr>pem_Decode = (\<lambda>s. Some (''PRIVATE KEY'', s)), ParsePKCS1PrivateKey = (\<lambda>_. None),
     ParsePKCS8PrivateKey = (\<lambda>_. Some (RSAKey ())), jwk_FromRaw = (\<lambda>_. Some []), jwk_Thumbprint = (\<lambda>_. None),
     jwe_Decrypt = (\<lambda>_ t. if CountByte t CHR ''.'' = 4 then Some (drop 2 t) else None),
     jwe_Encrypt = (\<lambda>_ p. if CountByte p CHR ''.'' = 2 then Some (''..'' @ p) else None)\<rparr>"

theorem issued_claims_are_shown_witness:
  "exit_code (decode_token_main one_key_lib (\<lambda>_. '''') (Some ''API_PRIVATE_KEY_BASE64=QUJD'')
     [''decode-token'', ''..'' @ Join [''h'', RawURL_encode (encode_json (JObj [(''sub'', JStr ''alice'')])), ''s''] ''.'']) = 0"
proof -
  let ?ms = "[(''sub'', JStr ''alice'')]"
  let ?jws = "Join [''h'', RawURL_encode (encode_json (JObj ?ms)), ''s''] ''.''"
  have env: "readDotEnv (Some ''API_PRIVATE_KEY_BASE64=QUJD'') ''API_PRIVATE_KEY_BASE64'' = ''QUJD''" by code_simp
  have b64: "Std_decode ''QUJD'' = Some ''ABC''" by code_simp
  define key where "key = \<lparr>key_private = (), key_public = [(''alg'', JStr ''RSA-OAEP''), (''use'', JStr ''enc'')]\<rparr>"
  have k: "NewEncryptionKeyFromPEM one_key_lib ''ABC'' = Inr key"
    by (simp add: NewEncryptionKeyFromPEM_def one_key_lib_def key_def)
  have law: "jwe_lawful one_key_lib key"
    by (auto simp: jwe_lawful_def one_key_lib_def CountByte_def split: if_splits)
  have "CountByte ?jws CHR ''.'' = 2" by code_simp
  then have enc: "jwe_Encrypt one_key_lib (key_private key) ?jws = Some (''..'' @ ?jws)"
    by (simp add: one_key_lib_def)
  have ok: "valid_json (JObj ?ms)" "json_depth (JObj ?ms) \<le> max_nesting" "fits_any (JObj ?ms)"
    by code_simp+
  have "CHR ''.'' \<notin> set ''h''" "CHR ''.'' \<notin> set ''s''" by simp_all
  from issued_claims_are_shown [where env = "\<lambda>_. ''''" and prog = "''decode-token''" and tok = "''..'' @ ?jws",
      OF disjI2 [OF conjI [OF refl env]] _ b64 k law enc refl this ok]
  show ?thesis by blast
qed

end
