(* ===== verification/BankSchedules.thy ===== *)
theory BankSchedules
  imports BankFacts
begin

text \<open>
  Deposits and withdrawals that run at the same time, one database statement at a time. The
  service holds the row lock of \<open>SELECT ... FOR UPDATE\<close> from the moment it has read the balance
  until its transaction ends; this theory has that lock, the private changes of the open
  transactions and any interleaving of their statements, and shows that what is committed is what
  the bookings would do one after the other, in the order of their commits. It is what allows the
  other theories to run a service call as one step.
\<close>

section \<open>Bookings under way\<close>

datatype booking = Depositing string rat | Withdrawing string rat

fun bk_number :: "booking \<Rightarrow> string" where
  "bk_number (Depositing num _) = num"
| "bk_number (Withdrawing num _) = num"

fun bk_amount :: "booking \<Rightarrow> rat" where
  "bk_amount (Depositing _ x) = x"
| "bk_amount (Withdrawing _ x) = x"

fun bk_type :: "booking \<Rightarrow> string" where
  "bk_type (Depositing _ _) = ''deposit''"
| "bk_type (Withdrawing _ _) = ''withdrawal''"

fun bk_covered :: "booking \<Rightarrow> bank_account \<Rightarrow> bool" where
  "bk_covered (Depositing _ _) a \<longleftrightarrow> True"
| "bk_covered (Withdrawing _ x) a \<longleftrightarrow> \<not> Balance a < x"

fun bk_balance :: "booking \<Rightarrow> bank_account \<Rightarrow> rat" where
  "bk_balance (Depositing _ x) a = fl (Balance a + x)"
| "bk_balance (Withdrawing _ x) a = fl (Balance a - x)"

fun svc_booking :: "db_fault \<Rightarrow> booking \<Rightarrow> bank_db \<Rightarrow> bank_db \<times> (bank_error + bank_account)" where
  "svc_booking fault (Depositing num x) db = svc_Deposit fault num x db"
| "svc_booking fault (Withdrawing num x) db = svc_Withdraw fault num x db"

text \<open>
  Where the call of a session stands, named after the last statement that succeeded; the time is
  that of the transaction's \<open>BEGIN\<close>, which \<open>NOW()\<close> returns throughout, and the changes are the
  ones only the session itself can see before the commit.
\<close>

datatype change = SetBalance int int | AddTransaction tx_row

datatype stage = Start
  | Begun int
  | Holds int bank_account
  | Updated int bank_account "change list"
  | Logged int bank_account "change list"
  | Finished "bank_error + bank_account"

record bank_conc =
  committed :: bank_db
  lock_of :: "int \<rightharpoonup> nat"
  stage_of :: "nat \<Rightarrow> stage"
  commits :: "nat list"

definition conc_init :: "bank_db \<Rightarrow> bank_conc" where
  "conc_init db = \<lparr>committed = db, lock_of = (\<lambda>_. None), stage_of = (\<lambda>_. Start), commits = []\<rparr>"

fun apply_change :: "change \<Rightarrow> bank_db \<Rightarrow> bank_db" where
  "apply_change (SetBalance k c) db = db\<lparr>bank_accounts := set_balance k c (bank_accounts db)\<rparr>"
| "apply_change (AddTransaction t) db = db\<lparr>transactions := transactions db @ [t]\<rparr>"

definition go_on :: "nat \<Rightarrow> stage \<Rightarrow> bank_conc \<Rightarrow> bank_conc" where
  "go_on i st s = s\<lparr>stage_of := (stage_of s)(i := st)\<rparr>"

text \<open>The end of the call ends its transaction, and with it the session's lock.\<close>

definition return_with :: "nat \<Rightarrow> bank_error + bank_account \<Rightarrow> bank_conc \<Rightarrow> bank_conc" where
  "return_with i res s = s\<lparr>stage_of := (stage_of s)(i := Finished res),
     lock_of := (\<lambda>k. if lock_of s k = Some i then None else lock_of s k)\<rparr>"

definition commit_changes :: "nat \<Rightarrow> change list \<Rightarrow> bank_conc \<Rightarrow> bank_conc" where
  "commit_changes i changes s =
     s\<lparr>committed := fold apply_change changes (committed s), commits := commits s @ [i]\<rparr>"

text \<open>
  The next statement of session \<open>i\<close>; \<open>None\<close> when it waits for the row lock of another session or
  has returned.
\<close>

definition session_step :: "(nat \<Rightarrow> booking) \<Rightarrow> nat \<Rightarrow> db_fault \<Rightarrow> bank_conc \<Rightarrow> bank_conc option" where
  "session_step reqs i fault s =
     (let b = reqs i; db = committed s in
      case stage_of s i of
        Start \<Rightarrow>
          Some (if bk_amount b \<le> 0 then return_with i (Inl AmountNotPositive) s
                else if fault = FailAt CallBegin then return_with i (Inl DatabaseError) s
                else go_on i (Begun (db_now db)) s)
      | Begun now \<Rightarrow>
          (case GetByAccountNumberForUpdate fault (bk_number b) db of
             Inl e \<Rightarrow> Some (return_with i (Inl e) s)
           | Inr account \<Rightarrow>
               if lock_of s (ID account) \<noteq> None then None
               else Some (go_on i (Holds now account) (s\<lparr>lock_of := (lock_of s)(ID account \<mapsto> i)\<rparr>)))
      | Holds now account \<Rightarrow>
          Some (if \<not> bk_covered b account then return_with i (Inl ErrInsufficientFunds) s
                else if fault = FailAt CallUpdate then return_with i (Inl DatabaseError) s
                else case store_numeric (bk_balance b account) of
                       None \<Rightarrow> return_with i (Inl DatabaseError) s
                     | Some c \<Rightarrow> go_on i (Updated now account [SetBalance (ID account) c]) s)
      | Updated now account changes \<Rightarrow>
          (case Create_transaction fault (ID account) (bk_type b) (bk_amount b) ''''
                  ((fold apply_change changes db)\<lparr>db_now := now\<rparr>) of
             (work, res) \<Rightarrow>
               let s = s\<lparr>committed := db\<lparr>tx_seq := tx_seq work\<rparr>\<rparr> in
               Some (case res of
                       Inl e \<Rightarrow> return_with i (Inl e) s
                     | Inr _ \<Rightarrow> go_on i (Logged now account
                         (changes @ [AddTransaction (last (transactions work))])) s))
      | Logged now account changes \<Rightarrow>
          Some (case fault of
                  FailAt CallCommit \<Rightarrow> return_with i (Inl DatabaseError) s
                | CommitLost applied \<Rightarrow>
                    return_with i (Inl DatabaseError) (if applied then commit_changes i changes s else s)
                | _ \<Rightarrow> return_with i (Inr (account\<lparr>Balance := bk_balance b account\<rparr>)) (commit_changes i changes s))
      | Finished res \<Rightarrow> None)"

text \<open>A schedule: which session moves, with which fault, and when the server's clock is read anew.\<close>

datatype sched = Turn nat db_fault | Clock int

fun conc_step :: "(nat \<Rightarrow> booking) \<Rightarrow> sched \<Rightarrow> bank_conc \<Rightarrow> bank_conc" where
  "conc_step reqs (Clock now) s = s\<lparr>committed := (committed s)\<lparr>db_now := now\<rparr>\<rparr>"
| "conc_step reqs (Turn i fault) s = (case session_step reqs i fault s of None \<Rightarrow> s | Some s' \<Rightarrow> s')"

definition conc_run :: "(nat \<Rightarrow> booking) \<Rightarrow> sched list \<Rightarrow> bank_db \<Rightarrow> bank_conc" where
  "conc_run reqs evs db = fold (conc_step reqs) evs (conc_init db)"

text \<open>The same bookings one after the other.\<close>

definition serial_run :: "(nat \<Rightarrow> booking) \<Rightarrow> nat list \<Rightarrow> bank_db \<Rightarrow> bank_db" where
  "serial_run reqs order db = fold (\<lambda>i db. fst (svc_booking NoFault (reqs i) db)) order db"

text \<open>The same tables up to the keys and times that the database gives its rows.\<close>

definition entry :: "tx_row \<Rightarrow> int \<times> string \<times> int \<times> string" where
  "entry t = (tx_account t, tx_type t, tx_amount t, tx_description t)"

definition same_books :: "bank_db \<Rightarrow> bank_db \<Rightarrow> bool" where
  "same_books db db' \<longleftrightarrow> bank_accounts db = bank_accounts db' \<and>
     map entry (transactions db) = map entry (transactions db') \<and> account_seq db = account_seq db'"

section \<open>One booking as one step\<close>

lemma svc_booking_eq:
  "svc_booking fault b db =
     (if bk_amount b \<le> 0 then (db, Inl AmountNotPositive)
      else if fault = FailAt CallBegin then (db, Inl DatabaseError)
      else case GetByAccountNumberForUpdate fault (bk_number b) db of
             Inl e \<Rightarrow> (db, Inl e)
           | Inr a \<Rightarrow> if \<not> bk_covered b a then (db, Inl ErrInsufficientFunds)
                     else book fault a (bk_type b) (bk_amount b) (bk_balance b a) db)"
  by (cases b) (simp_all add: svc_Deposit_def svc_Withdraw_def Let_def split: sum.split)

lemma bk_type_ok [simp]: "bk_type b \<in> {''deposit'', ''withdrawal''}" "bk_type b = ''deposit'' \<or> bk_type b = ''withdrawal''"
  by (cases b; simp)+

lemma svc_booking_ok: "bank_ok db \<Longrightarrow> bank_ok (fst (svc_booking fault b db))"
  by (cases b) (metis svc_booking.simps prod.collapse svc_Deposit_ok svc_Withdraw_ok)+

lemma serial_ok: "bank_ok db \<Longrightarrow> bank_ok (serial_run reqs order db)"
  unfolding serial_run_def by (induction order arbitrary: db) (simp_all add: svc_booking_ok)

lemma serial_snoc [simp]:
  "serial_run reqs (order @ [i]) db = fst (svc_booking NoFault (reqs i) (serial_run reqs order db))"
  by (simp add: serial_run_def)

text \<open>The insert, where the account's row exists.\<close>

definition new_entry :: "bank_db \<Rightarrow> int \<Rightarrow> string \<Rightarrow> int \<Rightarrow> tx_row" where
  "new_entry db i txType c = \<lparr>tx_id = tx_seq db, tx_account = i, tx_type = txType, tx_amount = c,
     tx_description = '''', tx_created = db_now db\<rparr>"

definition storable :: "rat \<Rightarrow> bool" where
  "storable amount \<longleftrightarrow> (\<exists>c. store_numeric amount = Some c \<and> 0 < c)"

lemma insert_fails:
  assumes "fault = FailAt CallInsert \<or> \<not> storable amount"
  shows "\<exists>n. 0 \<le> n \<and> Create_transaction fault i ty amount '''' db = (db\<lparr>tx_seq := tx_seq db + n\<rparr>, Inl DatabaseError)"
proof (cases "fault = FailAt CallInsert")
  case True
  then show ?thesis by (intro exI [of _ 0]) (simp add: Create_transaction_def)
next
  case False
  with assms show ?thesis
    by (intro exI [of _ 1]) (auto simp: Create_transaction_def storable_def Let_def split: option.split)
qed

lemma insert_works:
  assumes "fault \<noteq> FailAt CallInsert" and "store_numeric amount = Some c" and "0 < c"
    and "i \<in> row_id ` set (bank_accounts db)" and "ty = ''deposit'' \<or> ty = ''withdrawal''"
  shows "\<exists>t. Create_transaction fault i ty amount '''' db =
    (db\<lparr>tx_seq := tx_seq db + 1, transactions := transactions db @ [new_entry db i ty c]\<rparr>, Inr t)"
  using assms by (auto simp: Create_transaction_def Let_def has_row new_entry_def)

lemma read_row:
  "GetByAccountNumberForUpdate fault num db = Inr a \<Longrightarrow> ID a \<in> row_id ` set (bank_accounts db)"
  using selected_row [of fault num db a] by (auto simp: has_row)

lemma UpdateBalance_eq:
  "UpdateBalance fault i nb db = (if fault = FailAt CallUpdate then Inl DatabaseError
     else case store_numeric nb of None \<Rightarrow> Inl DatabaseError
          | Some c \<Rightarrow> Inr (db\<lparr>bank_accounts := set_balance i c (bank_accounts db)\<rparr>))"
  by (cases "store_numeric nb") (simp_all add: UpdateBalance_def set_balance_def)

text \<open>
  A session alone, whatever call fails: its statements one after the other do what the service
  call does as one step.
\<close>

lemma solo_run:
  "committed (conc_run (\<lambda>_. b) (replicate 5 (Turn 0 fault)) db) = fst (svc_booking fault b db) \<and>
   stage_of (conc_run (\<lambda>_. b) (replicate 5 (Turn 0 fault)) db) 0 = Finished (snd (svc_booking fault b db))"
proof -
  note steps = svc_booking_eq conc_run_def conc_init_def eval_nat_numeral session_step_def return_with_def
    go_on_def book_def UpdateBalance_eq
  consider "bk_amount b \<le> 0" | "\<not> bk_amount b \<le> 0" "fault = FailAt CallBegin"
    | e where "\<not> bk_amount b \<le> 0" "fault \<noteq> FailAt CallBegin" "GetByAccountNumberForUpdate fault (bk_number b) db = Inl e"
    | a where "\<not> bk_amount b \<le> 0" "fault \<noteq> FailAt CallBegin" "GetByAccountNumberForUpdate fault (bk_number b) db = Inr a"
    by (metis sum.exhaust)
  then show ?thesis
  proof cases
    case 4
    note start = this
    show ?thesis
    proof (cases "\<not> bk_covered b a \<or> fault = FailAt CallUpdate \<or> store_numeric (bk_balance b a) = None")
      case True
      with start show ?thesis by (elim disjE) (simp_all add: steps)
    next
      case covered: False
      then obtain c where c: "store_numeric (bk_balance b a) = Some c" by auto
      let ?view = "db\<lparr>bank_accounts := set_balance (ID a) c (bank_accounts db)\<rparr>"
      show ?thesis
      proof (cases "fault = FailAt CallInsert \<or> \<not> storable (bk_amount b)")
        case True
        from insert_fails [OF this, of "ID a" "bk_type b" ?view] show ?thesis
          using start covered c by (auto simp: steps rollback_def)
      next
        case False
        then obtain n where n: "store_numeric (bk_amount b) = Some n" "0 < n" "fault \<noteq> FailAt CallInsert"
          by (auto simp: storable_def)
        have "ID a \<in> row_id ` set (bank_accounts ?view)" using read_row start by simp
        from insert_works [OF n(3,1,2) this, of "bk_type b"] obtain t where
          "Create_transaction fault (ID a) (bk_type b) (bk_amount b) '''' ?view =
            (?view\<lparr>tx_seq := tx_seq ?view + 1, transactions := transactions ?view @ [new_entry ?view (ID a) (bk_type b) n]\<rparr>, Inr t)"
          by auto
        with start covered c n show ?thesis
          by (cases fault) (auto simp: steps rollback_def commit_changes_def split: db_call.split)
      qed
    qed
  qed (simp_all add: steps)
qed

section \<open>The invariant\<close>

fun held :: "stage \<Rightarrow> bank_account option" where
  "held (Holds _ a) = Some a"
| "held (Updated _ a _) = Some a"
| "held (Logged _ a _) = Some a"
| "held _ = None"

fun pending :: "stage \<Rightarrow> tx_row set" where
  "pending (Logged _ _ changes) = {t. AddTransaction t \<in> set changes}"
| "pending _ = {}"

text \<open>What a session that holds a lock has read is still what the table says.\<close>

definition reads :: "booking \<Rightarrow> bank_db \<Rightarrow> bank_account \<Rightarrow> bool" where
  "reads b db a \<longleftrightarrow> 0 < bk_amount b \<and> GetByAccountNumberForUpdate NoFault (bk_number b) db = Inr a"

definition wrote :: "booking \<Rightarrow> bank_account \<Rightarrow> int \<Rightarrow> bool" where
  "wrote b a c \<longleftrightarrow> bk_covered b a \<and> store_numeric (bk_balance b a) = Some c"

fun stage_ok :: "booking \<Rightarrow> bank_db \<Rightarrow> stage \<Rightarrow> bool" where
  "stage_ok b db Start \<longleftrightarrow> True"
| "stage_ok b db (Begun _) \<longleftrightarrow> 0 < bk_amount b"
| "stage_ok b db (Holds _ a) \<longleftrightarrow> reads b db a"
| "stage_ok b db (Updated _ a changes) \<longleftrightarrow> reads b db a \<and> (\<exists>c. wrote b a c \<and> changes = [SetBalance (ID a) c])"
| "stage_ok b db (Logged _ a changes) \<longleftrightarrow> reads b db a \<and>
     (\<exists>c n t. wrote b a c \<and> store_numeric (bk_amount b) = Some n \<and> 0 < n \<and>
        changes = [SetBalance (ID a) c, AddTransaction t] \<and> entry t = (ID a, bk_type b, n, '''') \<and>
        tx_id t < tx_seq db \<and> tx_id t \<notin> tx_id ` set (transactions db))"
| "stage_ok b db (Finished _) \<longleftrightarrow> True"

text \<open>
  Why a call returned what it did: it is what the same booking returns after the bookings that had
  committed, one after the other, or a call to the database failed (\<open>faulty\<close> are the sessions
  with a fault). A booking that succeeded is the next of the commits.
\<close>

definition explained ::
  "(nat \<Rightarrow> booking) \<Rightarrow> bank_db \<Rightarrow> nat set \<Rightarrow> nat list \<Rightarrow> nat \<Rightarrow> bank_error + bank_account \<Rightarrow> bool" where
  "explained reqs db0 faulty order i res \<longleftrightarrow>
     (i \<in> faulty \<and> res = Inl DatabaseError) \<or>
     (\<exists>before after. order = before @ after \<and> res = snd (svc_booking NoFault (reqs i) (serial_run reqs before db0)) \<and>
        (\<forall>a. res = Inr a \<longrightarrow> (\<exists>rest. after = i # rest)))"

definition conc_inv :: "(nat \<Rightarrow> booking) \<Rightarrow> bank_db \<Rightarrow> nat set \<Rightarrow> bank_conc \<Rightarrow> bool" where
  "conc_inv reqs db0 faulty s \<longleftrightarrow>
     same_books (committed s) (serial_run reqs (commits s) db0) \<and>
     (\<forall>i. stage_ok (reqs i) (committed s) (stage_of s i)) \<and>
     (\<forall>i res. stage_of s i = Finished res \<longrightarrow> explained reqs db0 faulty (commits s) i res) \<and>
     (\<forall>k i. lock_of s k = Some i \<longleftrightarrow> (\<exists>a. held (stage_of s i) = Some a \<and> ID a = k)) \<and>
     (\<forall>i j. i \<noteq> j \<longrightarrow> tx_id ` pending (stage_of s i) \<inter> tx_id ` pending (stage_of s j) = {}) \<and>
     distinct (map tx_id (transactions (committed s))) \<and>
     (\<forall>t \<in> set (transactions (committed s)). tx_id t < tx_seq (committed s)) \<and>
     distinct (commits s) \<and> (\<forall>i \<in> set (commits s). \<exists>res. stage_of s i = Finished res)"

lemma read_same:
  "bank_accounts db' = bank_accounts db \<Longrightarrow>
     GetByAccountNumberForUpdate f num db' = GetByAccountNumberForUpdate f num db"
  by (simp add: GetByAccountNumberForUpdate_def select_account_def)

lemma stage_ok_same:
  assumes "stage_ok b db st" and "bank_accounts db' = bank_accounts db" and "transactions db' = transactions db"
    and "tx_seq db \<le> tx_seq db'"
  shows "stage_ok b db' st"
proof -
  have r: "reads b db' a = reads b db a" for a using read_same [OF assms(2)] by (simp add: reads_def)
  show ?thesis
  proof (cases st)
    case (Logged now a changes)
    with assms(1) obtain c n t where "reads b db a" "wrote b a c" "store_numeric (bk_amount b) = Some n" "0 < n"
      "changes = [SetBalance (ID a) c, AddTransaction t]" "entry t = (ID a, bk_type b, n, '''')"
      "tx_id t < tx_seq db" "tx_id t \<notin> tx_id ` set (transactions db)"
      unfolding Logged stage_ok.simps by (elim conjE exE)
    with assms(3,4) show ?thesis unfolding Logged stage_ok.simps r
      by (intro conjI exI [of _ c] exI [of _ n] exI [of _ t]) simp_all
  qed (use assms(1) in \<open>simp_all add: r\<close>)
qed

lemma conc_invD:
  assumes "conc_inv reqs db0 faulty s"
  shows "same_books (committed s) (serial_run reqs (commits s) db0)"
    and "stage_ok (reqs i) (committed s) (stage_of s i)"
    and "stage_of s i = Finished res \<Longrightarrow> explained reqs db0 faulty (commits s) i res"
    and "lock_of s k = Some i \<longleftrightarrow> (\<exists>a. held (stage_of s i) = Some a \<and> ID a = k)"
    and "i \<noteq> j \<Longrightarrow> tx_id ` pending (stage_of s i) \<inter> tx_id ` pending (stage_of s j) = {}"
    and "distinct (map tx_id (transactions (committed s)))"
    and "t \<in> set (transactions (committed s)) \<Longrightarrow> tx_id t < tx_seq (committed s)"
    and "distinct (commits s)"
    and "i \<in> set (commits s) \<Longrightarrow> \<exists>res. stage_of s i = Finished res"
  using assms unfolding conc_inv_def by metis+

lemma explained_snoc: "explained reqs db0 faulty order i res \<Longrightarrow> explained reqs db0 faulty (order @ [j]) i res"
  unfolding explained_def by (metis append.assoc append_Cons)

text \<open>
  A session goes on to the stage \<open>st\<close>, keeps or takes the lock that goes with it and drops any
  other; the tables stay, up to the sequence and the clock.
\<close>

definition moved :: "bank_conc \<Rightarrow> nat \<Rightarrow> stage \<Rightarrow> bank_db \<Rightarrow> bank_conc \<Rightarrow> bool" where
  "moved s i st db' s' \<longleftrightarrow> committed s' = db' \<and> stage_of s' = (stage_of s)(i := st) \<and> commits s' = commits s \<and>
     lock_of s' = (\<lambda>k. if \<exists>a. held st = Some a \<and> ID a = k then Some i
                      else if lock_of s k = Some i then None else lock_of s k)"

definition same_rows :: "bank_db \<Rightarrow> bank_db \<Rightarrow> bool" where
  "same_rows db db' \<longleftrightarrow> bank_accounts db' = bank_accounts db \<and> transactions db' = transactions db \<and>
     account_seq db' = account_seq db \<and> tx_seq db \<le> tx_seq db'"

lemma same_books_rows: "same_rows db db' \<Longrightarrow> same_books db db0 \<Longrightarrow> same_books db' db0"
  by (simp add: same_rows_def same_books_def)

lemma conc_inv_moved:
  assumes "conc_inv reqs db0 faulty s" and "moved s i st db' s'" and "same_rows (committed s) db'"
    and "stage_ok (reqs i) db' st" and "\<And>res. st = Finished res \<Longrightarrow> explained reqs db0 faulty (commits s) i res"
    and "\<And>res. stage_of s i \<noteq> Finished res"
    and "\<And>a. held st = Some a \<Longrightarrow> lock_of s (ID a) = None \<or> lock_of s (ID a) = Some i"
    and "\<And>t. t \<in> pending st \<Longrightarrow> \<forall>j. j \<noteq> i \<longrightarrow> tx_id t \<notin> tx_id ` pending (stage_of s j)"
  shows "conc_inv reqs db0 faulty s'"
proof -
  have s': "committed s' = db'" "stage_of s' = (stage_of s)(i := st)" "commits s' = commits s"
    "lock_of s' = (\<lambda>k. if \<exists>a. held st = Some a \<and> ID a = k then Some i
       else if lock_of s k = Some i then None else lock_of s k)"
    using assms(2) by (simp_all add: moved_def)
  note rows = assms(3) [unfolded same_rows_def]
  note inv = conc_invD [OF assms(1)]
  have "same_books (committed s') (serial_run reqs (commits s') db0)"
    using same_books_rows [OF assms(3) inv(1)] by (simp add: s')
  moreover have "stage_ok (reqs j) (committed s') (stage_of s' j)" for j
    using stage_ok_same [OF inv(2), of db'] rows assms(4) by (simp add: s')
  moreover have "stage_of s' j = Finished res \<Longrightarrow> explained reqs db0 faulty (commits s') j res" for j res
    using inv(3) assms(5) by (auto simp: s' split: if_splits)
  moreover have "lock_of s' k = Some j \<longleftrightarrow> (\<exists>a. held (stage_of s' j) = Some a \<and> ID a = k)" for k j
  proof (cases "\<exists>a. held st = Some a \<and> ID a = k")
    case True
    then have "lock_of s k = None \<or> lock_of s k = Some i" using assms(7) by auto
    with True inv(4) [of k j] show ?thesis by (auto simp: s')
  next
    case False
    with inv(4) [of k j] show ?thesis by (auto simp: s')
  qed
  moreover have "tx_id ` pending (stage_of s' j) \<inter> tx_id ` pending (stage_of s' j') = {}" if "j \<noteq> j'" for j j'
  proof -
    have "tx_id ` pending st \<inter> tx_id ` pending (stage_of s k) = {}" if "k \<noteq> i" for k
      using assms(8) that by fastforce
    with inv(5) [OF that] that show ?thesis by (simp add: s') (metis Int_commute)
  qed
  moreover have "distinct (map tx_id (transactions (committed s')))" "distinct (commits s')"
    using inv(6,8) rows by (simp_all add: s')
  moreover have "t \<in> set (transactions (committed s')) \<Longrightarrow> tx_id t < tx_seq (committed s')" for t
    using inv(7) [of t] rows by (simp add: s')
  moreover have "j \<in> set (commits s') \<Longrightarrow> \<exists>res. stage_of s' j = Finished res" for j
    using inv(9) [of j] assms(6) by (auto simp: s')
  ultimately show ?thesis by (simp add: conc_inv_def)
qed

section \<open>Every statement keeps the invariant\<close>

lemma find_map_same: "(\<And>x. P (f x) = P x) \<Longrightarrow> find P (map f xs) = map_option f (find P xs)"
  by (induction xs) auto

lemma reads_other:
  assumes "reads b db a" and "ID a \<noteq> k" and "bank_accounts db' = set_balance k c (bank_accounts db)"
  shows "reads b db' a"
proof -
  from assms(1) obtain r where r: "select_account db (bk_number b) = Some r" and a: "scanAccount (Some r) = Inr a"
    by (auto simp: reads_def GetByAccountNumberForUpdate_def scan_number_def scanAccount_def split: option.splits if_splits)
  have "select_account db' (bk_number b) =
      map_option (\<lambda>r. if row_id r = k then r\<lparr>row_balance := c\<rparr> else r) (select_account db (bk_number b))"
    unfolding select_account_def assms(3) set_balance_def by (rule find_map_same) simp
  also have "\<dots> = Some r" using r a assms(2) by (auto simp: scanAccount_def)
  finally show ?thesis using assms(1) a by (simp add: reads_def GetByAccountNumberForUpdate_def scan_number_def)
qed

text \<open>What is decided on the committed row is decided on the row of the serial run.\<close>

lemma serial_reads:
  assumes "conc_inv reqs db0 faulty s"
  shows "GetByAccountNumberForUpdate f num (serial_run reqs (commits s) db0) = GetByAccountNumberForUpdate f num (committed s)"
  using conc_invD(1) [OF assms] by (intro read_same) (simp add: same_books_def)

lemma serial_refuses:
  assumes "conc_inv reqs db0 faulty s" and "reads (reqs i) (committed s) a"
    and "bk_covered (reqs i) a \<longrightarrow> store_numeric (bk_balance (reqs i) a) = None \<or> \<not> storable (bk_amount (reqs i))"
  shows "explained reqs db0 faulty (commits s) i
    (Inl (if bk_covered (reqs i) a then DatabaseError else ErrInsufficientFunds))"
proof -
  let ?S = "serial_run reqs (commits s) db0" and ?b = "reqs i"
  have get: "GetByAccountNumberForUpdate NoFault (bk_number ?b) ?S = Inr a" and pos: "\<not> bk_amount ?b \<le> 0"
    using serial_reads [OF assms(1)] assms(2) by (auto simp: reads_def)
  have "snd (book NoFault a (bk_type ?b) (bk_amount ?b) (bk_balance ?b a) ?S) = Inl DatabaseError"
    if "bk_covered ?b a"
  proof -
    obtain db' res where x: "book NoFault a (bk_type ?b) (bk_amount ?b) (bk_balance ?b a) ?S = (db', res)" by fastforce
    have "list_ex (\<lambda>r. row_id r = ID a) (bank_accounts ?S)" using read_row [OF get] by (simp add: has_row)
    from book_cases [OF x this bk_type_ok(1)] that assms(3) x show ?thesis by (auto simp: storable_def)
  qed
  then have "snd (svc_booking NoFault ?b ?S) = Inl (if bk_covered ?b a then DatabaseError else ErrInsufficientFunds)"
    using get pos by (simp add: svc_booking_eq)
  then show ?thesis unfolding explained_def by (intro disjI2 exI [of _ "commits s"] exI [of _ "[]"]) simp
qed

lemma serial_commits:
  assumes "conc_inv reqs db0 faulty s" and "reads (reqs i) (committed s) a" and "wrote (reqs i) a c"
    and "store_numeric (bk_amount (reqs i)) = Some n" and "0 < n"
  shows "svc_booking NoFault (reqs i) (serial_run reqs (commits s) db0) =
    (booked (ID a) (bk_type (reqs i)) n c (serial_run reqs (commits s) db0),
     Inr (a\<lparr>Balance := bk_balance (reqs i) a\<rparr>))"
proof -
  let ?S = "serial_run reqs (commits s) db0" and ?b = "reqs i"
  have get: "GetByAccountNumberForUpdate NoFault (bk_number ?b) ?S = Inr a" and pos: "\<not> bk_amount ?b \<le> 0"
    using serial_reads [OF assms(1)] assms(2) by (auto simp: reads_def)
  have "book NoFault a (bk_type ?b) (bk_amount ?b) (bk_balance ?b a) ?S =
      (booked (ID a) (bk_type ?b) n c ?S, Inr (a\<lparr>Balance := bk_balance ?b a\<rparr>))"
    using assms(3) read_row [OF get]
    by (intro book_exact [OF assms(4,5)]) (simp_all add: wrote_def has_row)
  with get pos assms(3) show ?thesis by (simp add: svc_booking_eq wrote_def)
qed

lemma conc_inv_committed:
  assumes "conc_inv reqs db0 faulty s" and "stage_of s i = Logged now a changes"
    and "res = Inr (a\<lparr>Balance := bk_balance (reqs i) a\<rparr>) \<or> i \<in> faulty \<and> res = Inl DatabaseError"
  shows "conc_inv reqs db0 faulty (return_with i res (commit_changes i changes s))" (is "conc_inv _ _ _ ?s'")
proof -
  note inv = conc_invD [OF assms(1)]
  from inv(2) [of i] obtain c n t where a: "reads (reqs i) (committed s) a" "wrote (reqs i) a c"
    and n: "store_numeric (bk_amount (reqs i)) = Some n" "0 < n"
    and ch: "changes = [SetBalance (ID a) c, AddTransaction t]" and t: "entry t = (ID a, bk_type (reqs i), n, '''')"
      "tx_id t < tx_seq (committed s)" "tx_id t \<notin> tx_id ` set (transactions (committed s))"
    unfolding assms(2) stage_ok.simps by (elim conjE exE)
  have s': "bank_accounts (committed ?s') = set_balance (ID a) c (bank_accounts (committed s))"
    "transactions (committed ?s') = transactions (committed s) @ [t]" "tx_seq (committed ?s') = tx_seq (committed s)"
    "account_seq (committed ?s') = account_seq (committed s)"
    "stage_of ?s' = (stage_of s)(i := Finished res)" "commits ?s' = commits s @ [i]"
    "lock_of ?s' = (\<lambda>k. if lock_of s k = Some i then None else lock_of s k)"
    by (simp_all add: return_with_def commit_changes_def ch cong: if_cong)
  note serial = serial_commits [OF assms(1) a n]
  have lock: "lock_of s (ID a) = Some i" using inv(4) assms(2) by auto
  have "same_books (committed ?s') (serial_run reqs (commits ?s') db0)"
    using inv(1) t(1) by (simp add: s' serial same_books_def booked_def entry_def)
  moreover have "stage_ok (reqs j) (committed ?s') (stage_of ?s' j)" for j
  proof (cases "j = i")
    case False
    have other: "reads (reqs j) (committed ?s') a'"
      if "held (stage_of s j) = Some a'" "reads (reqs j) (committed s) a'" for a'
    proof -
      have "lock_of s (ID a') = Some j" using inv(4) that(1) by auto
      with lock False have "ID a' \<noteq> ID a" by auto
      from reads_other [OF that(2) this s'(1)] show ?thesis .
    qed
    have "stage_ok (reqs j) (committed ?s') (stage_of s j)"
    proof (cases "stage_of s j")
      case (Logged now' a' changes')
      from inv(2) [of j] obtain c' n' t' where j: "reads (reqs j) (committed s) a'" "wrote (reqs j) a' c'"
        "store_numeric (bk_amount (reqs j)) = Some n'" "0 < n'" "changes' = [SetBalance (ID a') c', AddTransaction t']"
        "entry t' = (ID a', bk_type (reqs j), n', '''')" "tx_id t' < tx_seq (committed s)"
        "tx_id t' \<notin> tx_id ` set (transactions (committed s))"
        unfolding Logged stage_ok.simps by (elim conjE exE)
      have "tx_id t' \<noteq> tx_id t" using inv(5) [OF False] assms(2) Logged ch j(5) by auto
      then show ?thesis
        unfolding Logged stage_ok.simps s'
        by (intro conjI exI [of _ c'] exI [of _ n'] exI [of _ t']) (use other j Logged in simp_all)
    qed (use inv(2) [of j] other in auto)
    with False show ?thesis by (simp add: s')
  qed (simp add: s')
  moreover have "explained reqs db0 faulty (commits ?s') j r" if "stage_of ?s' j = Finished r" for j r
  proof (cases "j = i")
    case True
    with that have r: "r = res" by (simp add: s')
    have "\<exists>before after. commits s @ [i] = before @ after \<and> res' = snd (svc_booking NoFault (reqs i) (serial_run reqs before db0)) \<and>
        (\<forall>a. res' = Inr a \<longrightarrow> (\<exists>rest. after = i # rest))" if "res' = Inr (a\<lparr>Balance := bk_balance (reqs i) a\<rparr>)" for res'
      using that serial by (intro exI [of _ "commits s"] exI [of _ "[i]"]) simp
    with assms(3) show ?thesis unfolding True r explained_def s'(6) by blast
  next
    case False
    with that inv(3) [of j r] show ?thesis by (simp add: s' explained_snoc)
  qed
  moreover have "lock_of ?s' k = Some j \<longleftrightarrow> (\<exists>a. held (stage_of ?s' j) = Some a \<and> ID a = k)" for k j
    using inv(4) [of k j] by (auto simp: s')
  moreover have "tx_id ` pending (stage_of ?s' j) \<inter> tx_id ` pending (stage_of ?s' j') = {}" if "j \<noteq> j'" for j j'
    using inv(5) [OF that] by (simp add: s')
  moreover have "distinct (map tx_id (transactions (committed ?s')))" using inv(6) t(3) by (simp add: s')
  moreover have "x \<in> set (transactions (committed ?s')) \<Longrightarrow> tx_id x < tx_seq (committed ?s')" for x
    using inv(7) [of x] t(2) by (auto simp: s')
  moreover have "i \<notin> set (commits s)" using inv(9) [of i] assms(2) by auto
  then have "distinct (commits ?s')" using inv(8) by (simp add: s')
  moreover have "j \<in> set (commits ?s') \<Longrightarrow> \<exists>r. stage_of ?s' j = Finished r" for j
    using inv(9) [of j] by (auto simp: s')
  ultimately show ?thesis by (simp add: conc_inv_def)
qed

lemma same_rows_refl [simp]: "same_rows db db"
  by (simp add: same_rows_def)

lemma same_rows_seq: "0 \<le> n \<Longrightarrow> same_rows db (db\<lparr>tx_seq := tx_seq db + n\<rparr>)"
  by (simp add: same_rows_def)

lemma conc_inv_return:
  assumes "conc_inv reqs db0 faulty s" and "\<And>res. stage_of s i \<noteq> Finished res" and "same_rows (committed s) db'"
    and "explained reqs db0 faulty (commits s) i res"
  shows "conc_inv reqs db0 faulty (return_with i res (s\<lparr>committed := db'\<rparr>))"
proof (rule conc_inv_moved [OF assms(1) _ assms(3)])
  show "moved s i (Finished res) db' (return_with i res (s\<lparr>committed := db'\<rparr>))"
    by (simp add: moved_def return_with_def cong: if_cong)
qed (use assms(2,4) in auto)

lemma conc_inv_go:
  assumes "conc_inv reqs db0 faulty s" and "\<And>res. stage_of s i \<noteq> Finished res" and "same_rows (committed s) db'"
    and "stage_ok (reqs i) db' st" and "held st = held (stage_of s i)" and "\<And>res. st \<noteq> Finished res"
    and "\<And>t. t \<in> pending st \<Longrightarrow> \<forall>j. j \<noteq> i \<longrightarrow> tx_id t \<notin> tx_id ` pending (stage_of s j)"
  shows "conc_inv reqs db0 faulty (go_on i st (s\<lparr>committed := db'\<rparr>))"
proof (rule conc_inv_moved [OF assms(1) _ assms(3,4)])
  have "lock_of s k = Some i \<longleftrightarrow> (\<exists>a. held st = Some a \<and> ID a = k)" for k
    using conc_invD(4) [OF assms(1)] assms(5) by simp
  then show "moved s i st db' (go_on i st (s\<lparr>committed := db'\<rparr>))"
    by (auto simp: moved_def go_on_def fun_eq_iff)
  show "lock_of s (ID a) = None \<or> lock_of s (ID a) = Some i" if "held st = Some a" for a
    using conc_invD(4) [OF assms(1), of "ID a" i] assms(5) that by metis
qed (use assms(2,6,7) in auto)

lemma faulty_explained: "i \<in> faulty \<Longrightarrow> explained reqs db0 faulty order i (Inl DatabaseError)"
  by (simp add: explained_def)

lemma step_Start:
  assumes "conc_inv reqs db0 faulty s" and "stage_of s i = Start" and "fault \<noteq> NoFault \<longrightarrow> i \<in> faulty"
    and "session_step reqs i fault s = Some s'"
  shows "conc_inv reqs db0 faulty s'"
proof -
  have ret: "explained reqs db0 faulty (commits s) i res \<Longrightarrow> conc_inv reqs db0 faulty (return_with i res s)" for res
    using conc_inv_return [OF assms(1) _ same_rows_refl] assms(2) by simp
  have "explained reqs db0 faulty (commits s) i (Inl AmountNotPositive)" if "bk_amount (reqs i) \<le> 0"
    unfolding explained_def using that
    by (intro disjI2 exI [of _ "commits s"] exI [of _ "[]"]) (simp add: svc_booking_eq)
  moreover have "conc_inv reqs db0 faulty (go_on i (Begun now) s)" if "0 < bk_amount (reqs i)" for now
    using conc_inv_go [OF assms(1) _ same_rows_refl, of i "Begun now"] assms(2) that by simp
  ultimately show ?thesis
    using assms(2-4) ret faulty_explained [of i faulty] by (auto simp: session_step_def split: if_splits)
qed

lemma step_Begun:
  assumes "conc_inv reqs db0 faulty s" and "stage_of s i = Begun now" and "fault \<noteq> NoFault \<longrightarrow> i \<in> faulty"
    and "session_step reqs i fault s = Some s'"
  shows "conc_inv reqs db0 faulty s'"
proof (cases "GetByAccountNumberForUpdate fault (bk_number (reqs i)) (committed s)")
  case (Inl e)
  have pos: "\<not> bk_amount (reqs i) \<le> 0" using conc_invD(2) [OF assms(1), of i] assms(2) by simp
  have "explained reqs db0 faulty (commits s) i (Inl e)"
  proof (cases "fault = FailAt CallSelect")
    case True
    with Inl assms(3) show ?thesis by (auto simp: GetByAccountNumberForUpdate_def explained_def)
  next
    case False
    with Inl have "GetByAccountNumberForUpdate NoFault (bk_number (reqs i)) (committed s) = Inl e"
      by (simp add: GetByAccountNumberForUpdate_def)
    then show ?thesis unfolding explained_def using pos serial_reads [OF assms(1)]
      by (intro disjI2 exI [of _ "commits s"] exI [of _ "[]"]) (simp add: svc_booking_eq)
  qed
  with Inl assms show ?thesis
    using conc_inv_return [OF assms(1) _ same_rows_refl, of i "Inl e"] by (simp add: session_step_def)
next
  case (Inr a)
  with assms(2,4) have free: "lock_of s (ID a) = None"
    and s': "s' = go_on i (Holds now a) (s\<lparr>lock_of := (lock_of s)(ID a \<mapsto> i)\<rparr>)"
    by (auto simp: session_step_def split: if_splits)
  have r: "reads (reqs i) (committed s) a"
    using Inr conc_invD(2) [OF assms(1), of i] assms(2) by (auto simp: reads_def GetByAccountNumberForUpdate_def split: if_splits)
  have none: "lock_of s k \<noteq> Some i" for k using conc_invD(4) [OF assms(1), of k i] assms(2) by simp
  show ?thesis
  proof (rule conc_inv_moved [OF assms(1) _ same_rows_refl])
    show "moved s i (Holds now a) (committed s) s'"
      using none by (auto simp: moved_def s' go_on_def fun_eq_iff)
  qed (use free r assms(2) in auto)
qed

lemma step_Holds:
  assumes "conc_inv reqs db0 faulty s" and "stage_of s i = Holds now a" and "fault \<noteq> NoFault \<longrightarrow> i \<in> faulty"
    and "session_step reqs i fault s = Some s'"
  shows "conc_inv reqs db0 faulty s'"
proof -
  have r: "reads (reqs i) (committed s) a" using conc_invD(2) [OF assms(1), of i] assms(2) by simp
  have ret: "explained reqs db0 faulty (commits s) i res \<Longrightarrow> conc_inv reqs db0 faulty (return_with i res s)" for res
    using conc_inv_return [OF assms(1) _ same_rows_refl] assms(2) by simp
  have go: "conc_inv reqs db0 faulty (go_on i (Updated now a [SetBalance (ID a) c]) s)" if "wrote (reqs i) a c" for c
    using conc_inv_go [OF assms(1) _ same_rows_refl, of i "Updated now a [SetBalance (ID a) c]"] assms(2) r that by simp
  consider "\<not> bk_covered (reqs i) a" | "bk_covered (reqs i) a" "fault = FailAt CallUpdate"
    | "bk_covered (reqs i) a" "fault \<noteq> FailAt CallUpdate" "store_numeric (bk_balance (reqs i) a) = None"
    | c where "bk_covered (reqs i) a" "fault \<noteq> FailAt CallUpdate" "store_numeric (bk_balance (reqs i) a) = Some c"
    by (cases "store_numeric (bk_balance (reqs i) a)") auto
  then show ?thesis
  proof cases
    case 1
    with serial_refuses [OF assms(1) r] ret assms(2,4) show ?thesis by (auto simp: session_step_def)
  next
    case 2
    with faulty_explained [of i] ret assms(2-4) show ?thesis by (auto simp: session_step_def)
  next
    case 3
    with serial_refuses [OF assms(1) r] ret assms(2,4) show ?thesis by (auto simp: session_step_def)
  next
    case (4 c)
    with go [of c] assms(2,4) show ?thesis by (simp add: session_step_def wrote_def)
  qed
qed

lemma pending_old:
  assumes "conc_inv reqs db0 faulty s" and "t \<in> pending (stage_of s j)"
  shows "tx_id t < tx_seq (committed s)"
  using conc_invD(2) [OF assms(1), of j] assms(2) by (cases "stage_of s j") auto

lemma step_Updated:
  assumes "conc_inv reqs db0 faulty s" and "stage_of s i = Updated now a changes" and "fault \<noteq> NoFault \<longrightarrow> i \<in> faulty"
    and "session_step reqs i fault s = Some s'"
  shows "conc_inv reqs db0 faulty s'"
proof -
  let ?db = "committed s" and ?b = "reqs i"
  from conc_invD(2) [OF assms(1), of i] obtain c where r: "reads ?b ?db a" "wrote ?b a c"
    and ch: "changes = [SetBalance (ID a) c]"
    unfolding assms(2) stage_ok.simps by (elim conjE exE)
  let ?view = "(fold apply_change changes ?db)\<lparr>db_now := now\<rparr>"
  have view: "ID a \<in> row_id ` set (bank_accounts ?view)" "tx_seq ?view = tx_seq ?db" "transactions ?view = transactions ?db"
    using r(1) read_row by (auto simp: ch reads_def)
  note step = assms(4) [unfolded session_step_def assms(2) Let_def stage.case]
  show ?thesis
  proof (cases "fault = FailAt CallInsert \<or> \<not> storable (bk_amount ?b)")
    case True
    from insert_fails [OF this, of "ID a" "bk_type ?b" ?view] obtain n where n: "0 \<le> n"
      "Create_transaction fault (ID a) (bk_type ?b) (bk_amount ?b) '''' ?view =
        (?view\<lparr>tx_seq := tx_seq ?view + n\<rparr>, Inl DatabaseError)" by blast
    have "explained reqs db0 faulty (commits s) i (Inl DatabaseError)"
      using True serial_refuses [OF assms(1) r(1)] r(2) assms(3) faulty_explained [of i faulty]
      by (auto simp: wrote_def)
    from conc_inv_return [OF assms(1) _ same_rows_seq [OF n(1)] this] show ?thesis
      using step n(2) assms(2) view(2) by simp
  next
    case False
    then obtain n where n: "store_numeric (bk_amount ?b) = Some n" "0 < n" "fault \<noteq> FailAt CallInsert"
      by (auto simp: storable_def)
    let ?t = "new_entry ?view (ID a) (bk_type ?b) n"
    have t: "tx_id ?t = tx_seq ?db" "entry ?t = (ID a, bk_type ?b, n, '''')"
      by (simp_all add: new_entry_def entry_def view(2))
    from insert_works [OF n(3,1,2) view(1) bk_type_ok(2)] obtain x where
      "Create_transaction fault (ID a) (bk_type ?b) (bk_amount ?b) '''' ?view =
        (?view\<lparr>tx_seq := tx_seq ?view + 1, transactions := transactions ?view @ [?t]\<rparr>, Inr x)" by blast
    then have s': "s' = go_on i (Logged now a (changes @ [AddTransaction ?t])) (s\<lparr>committed := ?db\<lparr>tx_seq := tx_seq ?db + 1\<rparr>\<rparr>)"
      using step view(2,3) by simp
    have "tx_seq ?db \<notin> tx_id ` set (transactions ?db)" using conc_invD(7) [OF assms(1)] by fastforce
    moreover have "tx_seq ?db \<notin> tx_id ` pending (stage_of s j)" for j
      using pending_old [OF assms(1), of _ j] by fastforce
    moreover have "reads ?b (?db\<lparr>tx_seq := tx_seq ?db + 1\<rparr>) a"
      using r(1) read_same [of "?db\<lparr>tx_seq := tx_seq ?db + 1\<rparr>" ?db] by (simp add: reads_def)
    ultimately show ?thesis
      unfolding s' using assms(2) r(2) n t
      by (intro conc_inv_go [OF assms(1) _ same_rows_seq]) (auto simp: ch)
  qed
qed

lemma step_Logged:
  assumes "conc_inv reqs db0 faulty s" and "stage_of s i = Logged now a changes" and "fault \<noteq> NoFault \<longrightarrow> i \<in> faulty"
    and "session_step reqs i fault s = Some s'"
  shows "conc_inv reqs db0 faulty s'"
proof -
  have fail: "i \<in> faulty \<Longrightarrow> conc_inv reqs db0 faulty (return_with i (Inl DatabaseError) s)"
    using conc_inv_return [OF assms(1) _ same_rows_refl, of i] faulty_explained assms(2) by simp
  have commit: "res = Inr (a\<lparr>Balance := bk_balance (reqs i) a\<rparr>) \<or> i \<in> faulty \<and> res = Inl DatabaseError \<Longrightarrow>
      conc_inv reqs db0 faulty (return_with i res (commit_changes i changes s))" for res
    by (rule conc_inv_committed [OF assms(1,2)])
  show ?thesis
    using assms(2-4) fail commit by (cases fault) (auto simp: session_step_def Let_def split: db_call.splits if_splits)
qed

lemma session_step_inv:
  assumes "conc_inv reqs db0 faulty s" and "fault \<noteq> NoFault \<longrightarrow> i \<in> faulty" and "session_step reqs i fault s = Some s'"
  shows "conc_inv reqs db0 faulty s'"
  using step_Start [OF assms(1) _ assms(2,3)] step_Begun [OF assms(1) _ assms(2,3)] step_Holds [OF assms(1) _ assms(2,3)]
    step_Updated [OF assms(1) _ assms(2,3)] step_Logged [OF assms(1) _ assms(2,3)] assms(3)
  by (cases "stage_of s i") (auto simp: session_step_def)

definition faulty_in :: "sched list \<Rightarrow> nat set" where
  "faulty_in evs = {i. \<exists>f. Turn i f \<in> set evs \<and> f \<noteq> NoFault}"

lemma conc_inv_init: "bank_ok db \<Longrightarrow> conc_inv reqs db faulty (conc_init db)"
  by (auto simp: conc_inv_def conc_init_def serial_run_def same_books_def bank_ok_def)

lemma conc_inv_clock:
  assumes "conc_inv reqs db0 faulty s"
  shows "conc_inv reqs db0 faulty (s\<lparr>committed := (committed s)\<lparr>db_now := now\<rparr>\<rparr>)"
proof -
  let ?db = "(committed s)\<lparr>db_now := now\<rparr>"
  have "same_books ?db x = same_books (committed s) x" for x by (simp add: same_books_def)
  moreover have "stage_ok b (committed s) st \<Longrightarrow> stage_ok b ?db st" for b st
    using stage_ok_same [of b "committed s" st ?db] by simp
  ultimately show ?thesis using assms unfolding conc_inv_def by simp
qed

lemma conc_inv_steps:
  assumes "conc_inv reqs db0 faulty s" and "faulty_in evs \<subseteq> faulty"
  shows "conc_inv reqs db0 faulty (fold (conc_step reqs) evs s)"
  using assms
proof (induction evs arbitrary: s)
  case (Cons ev evs)
  have "conc_inv reqs db0 faulty (conc_step reqs ev s)"
  proof (cases ev)
    case (Turn i fault)
    with Cons.prems(2) have "fault \<noteq> NoFault \<longrightarrow> i \<in> faulty" by (auto simp: faulty_in_def)
    with Turn Cons.prems(1) show ?thesis by (auto intro: session_step_inv split: option.split)
  qed (simp add: conc_inv_clock Cons.prems(1))
  moreover have "faulty_in evs \<subseteq> faulty" using Cons.prems(2) by (auto simp: faulty_in_def)
  ultimately show ?case using Cons.IH by simp
qed simp

lemma conc_inv_run: "bank_ok db \<Longrightarrow> conc_inv reqs db (faulty_in evs) (conc_run reqs evs db)"
  unfolding conc_run_def by (intro conc_inv_steps conc_inv_init) auto

section \<open>Every call returns\<close>

fun turns_left :: "stage \<Rightarrow> nat" where
  "turns_left Start = 5"
| "turns_left (Begun _) = 4"
| "turns_left (Holds _ _) = 3"
| "turns_left (Updated _ _ _) = 2"
| "turns_left (Logged _ _ _) = 1"
| "turns_left (Finished _) = 0"

definition row_of :: "bank_db \<Rightarrow> string \<Rightarrow> int option" where
  "row_of db num = map_option row_id (select_account db num)"

lemma row_of_set_balance: "bank_accounts db' = set_balance k c (bank_accounts db) \<Longrightarrow> row_of db' num = row_of db num"
proof -
  assume "bank_accounts db' = set_balance k c (bank_accounts db)"
  then have "select_account db' num =
      map_option (\<lambda>r. if row_id r = k then r\<lparr>row_balance := c\<rparr> else r) (select_account db num)"
    unfolding select_account_def by (simp add: set_balance_def find_map_same)
  then show ?thesis by (cases "select_account db num") (simp_all add: row_of_def)
qed

lemma row_of_changes: "row_of (fold apply_change changes db) num = row_of db num"
proof (induction changes arbitrary: db)
  case (Cons ch changes)
  have "row_of (apply_change ch db) num = row_of db num"
    by (cases ch) (simp_all add: row_of_set_balance, simp add: row_of_def select_account_def)
  with Cons show ?case by simp
qed simp

lemma session_step_frame:
  assumes "session_step reqs i fault s = Some s'"
  shows "turns_left (stage_of s' i) < turns_left (stage_of s i)" and "j \<noteq> i \<Longrightarrow> stage_of s' j = stage_of s j"
    and "row_of (committed s') num = row_of (committed s) num"
proof -
  have "turns_left (stage_of s' i) < turns_left (stage_of s i) \<and> (\<forall>j. j \<noteq> i \<longrightarrow> stage_of s' j = stage_of s j) \<and>
      (\<forall>num. row_of (committed s') num = row_of (committed s) num)"
  proof (cases "stage_of s i")
    case (Logged now a changes)
    with assms show ?thesis
      by (cases fault) (auto simp: session_step_def Let_def return_with_def commit_changes_def row_of_changes
          split: db_call.splits if_splits)
  next
    case (Updated now a changes)
    with assms show ?thesis
      by (auto simp: session_step_def return_with_def go_on_def row_of_def select_account_def Let_def
          split: prod.splits sum.splits)
  qed (use assms in \<open>auto simp: session_step_def return_with_def go_on_def Let_def split: if_splits option.splits sum.splits\<close>)
  then show "turns_left (stage_of s' i) < turns_left (stage_of s i)" "j \<noteq> i \<Longrightarrow> stage_of s' j = stage_of s j"
    "row_of (committed s') num = row_of (committed s) num" by blast+
qed

text \<open>A session that holds its lock, and one whose row is free, is never kept waiting.\<close>

definition unblocked :: "(nat \<Rightarrow> booking) \<Rightarrow> nat \<Rightarrow> bank_conc \<Rightarrow> bool" where
  "unblocked reqs i s \<longleftrightarrow> held (stage_of s i) \<noteq> None \<or>
     (\<forall>k. row_of (committed s) (bk_number (reqs i)) = Some k \<longrightarrow> lock_of s k = None)"

lemma unblocked_moves:
  assumes "unblocked reqs i s" and "\<And>res. stage_of s i \<noteq> Finished res"
  shows "\<exists>s'. session_step reqs i fault s = Some s'"
proof (cases "stage_of s i")
  case (Begun now)
  show ?thesis
  proof (cases "GetByAccountNumberForUpdate fault (bk_number (reqs i)) (committed s)")
    case (Inr a)
    then have "row_of (committed s) (bk_number (reqs i)) = Some (ID a)"
      using selected_row [OF Inr] by (auto simp: row_of_def)
    with assms(1) Begun Inr show ?thesis by (simp add: session_step_def unblocked_def)
  qed (simp add: session_step_def Begun)
qed (use assms in \<open>auto simp: session_step_def Let_def split: prod.split\<close>)

text \<open>
  There is no deadlock: a call that has not returned can move itself, or the session that holds
  its row can, since nobody waits while holding a row.
\<close>

lemma some_session_moves:
  assumes "conc_inv reqs db0 faulty s" and "\<And>res. stage_of s i \<noteq> Finished res"
  shows "\<exists>j. unblocked reqs j s \<and> (\<forall>res. stage_of s j \<noteq> Finished res) \<and> (j = i \<or> stage_of s j \<noteq> Start)"
proof (cases "unblocked reqs i s")
  case True
  with assms(2) show ?thesis by blast
next
  case False
  then obtain k j where "lock_of s k = Some j" unfolding unblocked_def by auto
  with conc_invD(4) [OF assms(1)] obtain a where "held (stage_of s j) = Some a" by auto
  then have "unblocked reqs j s \<and> (\<forall>res. stage_of s j \<noteq> Finished res) \<and> stage_of s j \<noteq> Start"
    by (auto simp: unblocked_def)
  then show ?thesis by blast
qed

text \<open>What is left to do; a step that leaves it as it is does nothing that a session can notice.\<close>

definition work_left :: "nat \<Rightarrow> bank_conc \<Rightarrow> nat" where
  "work_left n s = (\<Sum>j<n. turns_left (stage_of s j))"

definition schedulable :: "nat \<Rightarrow> sched \<Rightarrow> bool" where
  "schedulable n ev \<longleftrightarrow> (\<forall>i f. ev = Turn i f \<longrightarrow> i < n)"

lemma step_work:
  assumes "session_step reqs i fault s = Some s'" and "i < n"
  shows "work_left n s' < work_left n s"
  unfolding work_left_def
proof (rule sum_strict_mono_ex1)
  show "\<forall>j \<in> {..<n}. turns_left (stage_of s' j) \<le> turns_left (stage_of s j)"
    using session_step_frame(1,2) [OF assms(1)] by (metis less_imp_le order_refl)
  show "\<exists>j \<in> {..<n}. turns_left (stage_of s' j) < turns_left (stage_of s j)"
    using session_step_frame(1) [OF assms(1)] assms(2) by blast
qed simp

lemma conc_step_work:
  assumes "schedulable n ev"
  shows "work_left n (conc_step reqs ev s) < work_left n s \<or>
    stage_of (conc_step reqs ev s) = stage_of s \<and> lock_of (conc_step reqs ev s) = lock_of s \<and>
    row_of (committed (conc_step reqs ev s)) = row_of (committed s)"
proof (cases ev)
  case (Turn i f)
  then show ?thesis
    using assms step_work [of reqs i f s _ n] by (cases "session_step reqs i f s") (auto simp: schedulable_def)
next
  case (Clock now)
  then show ?thesis by (simp add: row_of_def select_account_def fun_eq_iff)
qed

lemma conc_step_turns: "turns_left (stage_of (conc_step reqs ev s) i) \<le> turns_left (stage_of s i)"
proof (cases ev)
  case (Turn j f)
  show ?thesis
  proof (cases "session_step reqs j f s")
    case (Some s')
    then have "turns_left (stage_of s' i) \<le> turns_left (stage_of s i)"
      using session_step_frame(1,2) [OF Some] by (cases "i = j") (simp_all add: less_imp_le)
    with Turn Some show ?thesis by simp
  qed (simp add: Turn)
qed simp

lemma turns_left_0: "turns_left st = 0 \<longleftrightarrow> (\<exists>res. st = Finished res)"
  by (cases st) auto

lemma never_scheduled:
  "\<forall>ev \<in> set evs. schedulable n ev \<Longrightarrow> n \<le> j \<Longrightarrow> stage_of (fold (conc_step reqs) evs s) j = stage_of s j"
proof (induction evs arbitrary: s)
  case (Cons ev evs)
  have "stage_of (conc_step reqs ev s) j = stage_of s j"
  proof (cases ev)
    case (Turn i f)
    with Cons.prems have "j \<noteq> i" by (auto simp: schedulable_def)
    with Turn session_step_frame(2) show ?thesis by (auto split: option.split)
  qed simp
  with Cons show ?case by simp
qed simp

section \<open>Fair schedules\<close>

text \<open>The calls \<open>0, \<dots>, n - 1\<close> and no others get turns, each of them again and again.\<close>

definition fair_schedule :: "nat \<Rightarrow> (nat \<Rightarrow> sched) \<Rightarrow> bool" where
  "fair_schedule n evs \<longleftrightarrow> (\<forall>m. schedulable n (evs m)) \<and> (\<forall>i < n. \<forall>m. \<exists>m' \<ge> m. \<exists>f. evs m' = Turn i f)"

definition run_for :: "(nat \<Rightarrow> booking) \<Rightarrow> (nat \<Rightarrow> sched) \<Rightarrow> bank_db \<Rightarrow> nat \<Rightarrow> bank_conc" where
  "run_for reqs evs db m = conc_run reqs (map evs [0..<m]) db"

lemma run_for_Suc [simp]: "run_for reqs evs db (Suc m) = conc_step reqs (evs m) (run_for reqs evs db m)"
  by (simp add: run_for_def conc_run_def)

lemma run_for_inv: "bank_ok db \<Longrightarrow> conc_inv reqs db (faulty_in (map evs [0..<m])) (run_for reqs evs db m)"
  unfolding run_for_def by (rule conc_inv_run)

lemma run_for_unscheduled:
  "fair_schedule n evs \<Longrightarrow> n \<le> j \<Longrightarrow> stage_of (run_for reqs evs db m) j = Start"
  using never_scheduled [of "map evs [0..<m]" n j reqs "conc_init db"]
  by (auto simp: run_for_def conc_run_def fair_schedule_def conc_init_def)

lemma run_for_work: "m \<le> m' \<Longrightarrow> fair_schedule n evs \<Longrightarrow>
  work_left n (run_for reqs evs db m') < work_left n (run_for reqs evs db m) \<or>
  stage_of (run_for reqs evs db m') = stage_of (run_for reqs evs db m) \<and>
  lock_of (run_for reqs evs db m') = lock_of (run_for reqs evs db m) \<and>
  row_of (committed (run_for reqs evs db m')) = row_of (committed (run_for reqs evs db m))"
proof (induction m' rule: dec_induct)
  case (step k)
  have "schedulable n (evs k)" using step.prems by (simp add: fair_schedule_def)
  from conc_step_work [OF this, of reqs "run_for reqs evs db k"] step.IH [OF step.prems] show ?case
    by (auto simp: work_left_def)
qed simp

lemma run_for_turns:
  "m \<le> m' \<Longrightarrow> turns_left (stage_of (run_for reqs evs db m') i) \<le> turns_left (stage_of (run_for reqs evs db m) i)"
  by (induction m' rule: dec_induct) (auto intro: order_trans conc_step_turns)

lemma fair_run_finishes:
  assumes "bank_ok db" and "fair_schedule n evs"
  shows "\<exists>m0 \<ge> m. \<forall>i < n. turns_left (stage_of (run_for reqs evs db m0) i) = 0"
proof (induction "work_left n (run_for reqs evs db m)" arbitrary: m rule: less_induct)
  case less
  let ?s = "run_for reqs evs db"
  show ?case
  proof (cases "\<forall>i < n. turns_left (stage_of (?s m) i) = 0")
    case False
    then obtain i where "i < n" "\<forall>res. stage_of (?s m) i \<noteq> Finished res" by (auto simp: turns_left_0)
    with some_session_moves [OF run_for_inv [OF assms(1)], of reqs evs m i] run_for_unscheduled [OF assms(2), of _ reqs db m]
    obtain j where j: "unblocked reqs j (?s m)" "\<forall>res. stage_of (?s m) j \<noteq> Finished res" "j < n"
      by (metis not_less)
    with assms(2) obtain m1 f where m1: "m \<le> m1" "evs m1 = Turn j f" unfolding fair_schedule_def by blast
    have "work_left n (?s (Suc m1)) < work_left n (?s m)"
      using run_for_work [OF m1(1) assms(2), of reqs db]
    proof
      assume "work_left n (?s m1) < work_left n (?s m)"
      moreover have "work_left n (?s (Suc m1)) \<le> work_left n (?s m1)"
        unfolding work_left_def by (intro sum_mono run_for_turns) simp
      ultimately show ?thesis by simp
    next
      assume same: "stage_of (?s m1) = stage_of (?s m) \<and> lock_of (?s m1) = lock_of (?s m) \<and>
        row_of (committed (?s m1)) = row_of (committed (?s m))"
      with j have "unblocked reqs j (?s m1)" "\<And>res. stage_of (?s m1) j \<noteq> Finished res" by (simp_all add: unblocked_def)
      from unblocked_moves [OF this] obtain s' where step: "session_step reqs j f (?s m1) = Some s'" by blast
      with step_work [OF step j(3)] same m1(2) show ?thesis by (simp add: work_left_def)
    qed
    from less [OF this] m1(1) show ?thesis by (meson Suc_leD order_trans)
  qed blast
qed

lemma fair_run_returns:
  assumes "bank_ok db" and "fair_schedule n evs"
  shows "\<exists>m0. \<forall>m \<ge> m0. \<forall>i < n. \<exists>res. stage_of (run_for reqs evs db m) i = Finished res"
proof -
  from fair_run_finishes [OF assms, of 0 reqs] obtain m0 where
    "\<forall>i < n. turns_left (stage_of (run_for reqs evs db m0) i) = 0" by blast
  then have "\<forall>m \<ge> m0. \<forall>i < n. turns_left (stage_of (run_for reqs evs db m) i) = 0"
    using run_for_turns by (metis le_zero_eq)
  then show ?thesis by (auto simp: turns_left_0)
qed

end
