(* ===== verification/BankConcurrency.thy ===== *)
theory BankConcurrency
  imports BankSchedules BankProperties
begin

text \<open>
  The properties of bookings that run at the same time, with witnesses in which two withdrawals
  meet on one account.
\<close>

section \<open>Two withdrawals that meet\<close>

text \<open>
  Bob's account holds 1.00. Two withdrawals of 0.60 begin together; the second finds the row
  locked, waits, and then reads what the first left.
\<close>

definition two_withdrawals :: "nat \<Rightarrow> booking" where
  "two_withdrawals i = Withdrawing ''BANK-0002-2024'' (load_numeric 60)"

definition meeting :: "sched list" where
  "meeting = [Turn 0 NoFault, Turn 1 NoFault, Turn 0 NoFault, Turn 1 NoFault, Turn 0 NoFault, Turn 1 NoFault,
     Turn 0 NoFault, Turn 0 NoFault, Clock 9, Turn 1 NoFault, Turn 1 NoFault]"

lemma sixty_of_hundred:
  "\<not> load_numeric 60 \<le> 0" "\<not> load_numeric 100 < load_numeric 60" "load_numeric 40 < load_numeric 60"
  "store_numeric (load_numeric 60) = Some 60" "store_numeric (fl (load_numeric 100 - load_numeric 60)) = Some 40"
  by code_simp+

lemma meeting_outcome:
  "commits (conc_run two_withdrawals meeting demo_db) = [0]"
  "stage_of (conc_run two_withdrawals meeting demo_db) 1 = Finished (Inl ErrInsufficientFunds)"
  "map row_balance (bank_accounts (committed (conc_run two_withdrawals meeting demo_db))) = [250000, 40]"
  by (simp_all add: conc_run_def conc_init_def meeting_def session_step_def two_withdrawals_def go_on_def
      return_with_def commit_changes_def GetByAccountNumberForUpdate_def select_account_def scan_number_def scanAccount_def demo_db_def
      Create_transaction_def set_balance_def sixty_of_hundred)

section \<open>Serializability\<close>

lemma same_books_ok:
  assumes "bank_ok db'" and "same_books db db'" and "distinct (map tx_id (transactions db))"
    and "\<forall>t \<in> set (transactions db). tx_id t < tx_seq db"
  shows "bank_ok db"
proof -
  have eq: "bank_accounts db = bank_accounts db'" "account_seq db = account_seq db'"
    and entries: "entry ` set (transactions db) = entry ` set (transactions db')"
    using assms(2) by (simp_all add: same_books_def) (metis list.set_map)
  have "0 < tx_amount t \<and> tx_amount t < 10 ^ 15 \<and> tx_type t \<in> {''deposit'', ''withdrawal''} \<and>
      tx_account t \<in> row_id ` set (bank_accounts db)" if "t \<in> set (transactions db)" for t
  proof -
    from that entries obtain t' where "t' \<in> set (transactions db')" "entry t = entry t'" by blast
    with assms(1) show ?thesis by (auto simp: bank_ok_def entry_def eq)
  qed
  with assms show ?thesis by (auto simp: bank_ok_def eq)
qed

text \<open>
  C7: deposits and withdrawals whose statements interleave in any way, with any calls to the
  database failing, are serializable: the accounts and the entries that are committed are those
  of the bookings that committed, one after the other in the order of their commits, each at
  most once, and the tables are well formed. Every call that has returned returned what its
  booking returns after some of those commits, and one that succeeded is the next commit itself;
  only a call that met a fault may report a database error instead.
\<close>

theorem bookings_serializable:
  assumes "bank_ok db" and "s = conc_run reqs evs db"
  shows "same_books (committed s) (serial_run reqs (commits s) db) \<and> bank_ok (committed s) \<and> distinct (commits s) \<and>
    (\<forall>i \<in> set (commits s). \<exists>res. stage_of s i = Finished res) \<and>
    (\<forall>i res. stage_of s i = Finished res \<longrightarrow>
       (\<exists>f. Turn i f \<in> set evs \<and> f \<noteq> NoFault) \<and> res = Inl DatabaseError \<or>
       (\<exists>before after. commits s = before @ after \<and>
          res = snd (svc_booking NoFault (reqs i) (serial_run reqs before db)) \<and>
          (\<forall>a. res = Inr a \<longrightarrow> (\<exists>rest. after = i # rest))))"
proof -
  note inv = conc_invD [OF conc_inv_run [OF assms(1), of reqs evs, folded assms(2)]]
  have "bank_ok (committed s)" using same_books_ok [OF serial_ok [OF assms(1)] inv(1,6)] inv(7) by blast
  moreover have "\<forall>i res. stage_of s i = Finished res \<longrightarrow>
       (\<exists>f. Turn i f \<in> set evs \<and> f \<noteq> NoFault) \<and> res = Inl DatabaseError \<or>
       (\<exists>before after. commits s = before @ after \<and>
          res = snd (svc_booking NoFault (reqs i) (serial_run reqs before db)) \<and>
          (\<forall>a. res = Inr a \<longrightarrow> (\<exists>rest. after = i # rest)))" 
    using inv(3) [unfolded explained_def faulty_in_def mem_Collect_eq] by (intro allI impI)
  ultimately show ?thesis using inv(1,8,9) by (intro conjI ballI) simp_all
qed

theorem bookings_serializable_witness:
  "commits (conc_run two_withdrawals meeting demo_db) = [0] \<and>
   map row_balance (bank_accounts (committed (conc_run two_withdrawals meeting demo_db))) = [250000, 40] \<and>
   snd (svc_booking NoFault (two_withdrawals 1) (serial_run two_withdrawals [0] demo_db)) = Inl ErrInsufficientFunds \<and>
   same_books (committed (conc_run two_withdrawals meeting demo_db)) (serial_run two_withdrawals [0] demo_db)"
proof -
  let ?s = "conc_run two_withdrawals meeting demo_db"
  note ser = bookings_serializable [OF demo_db_ok refl, of two_withdrawals meeting, unfolded meeting_outcome(1)]
  have "\<not> (\<exists>f. Turn 1 f \<in> set meeting \<and> f \<noteq> NoFault)" by (simp add: meeting_def)
  then obtain before after where b: "[0] = before @ after"
    "Inl ErrInsufficientFunds = snd (svc_booking NoFault (two_withdrawals 1) (serial_run two_withdrawals before demo_db))"
    using ser [THEN conjunct2, THEN conjunct2, THEN conjunct2, THEN conjunct2, rule_format, OF meeting_outcome(2)]
    by (elim disjE conjE exE) simp_all
  have "snd (svc_booking NoFault (two_withdrawals 1) demo_db) \<noteq> Inl ErrInsufficientFunds"
    using sixty_of_hundred
    by (simp add: two_withdrawals_def svc_Withdraw_def GetByAccountNumberForUpdate_def scan_number_def select_account_def
        scanAccount_def demo_db_def book_def UpdateBalance_def Create_transaction_def)
  with b have "before = [0]" by (cases before) (auto simp: serial_run_def)
  with b ser meeting_outcome show ?thesis by simp
qed

section \<open>Progress\<close>

text \<open>
  C22: no call waits for ever. However the statements of finitely many calls and the failures among
  them are scheduled, as long as every call gets a turn again and again, there is a point from
  which on all of them have returned; there is no deadlock and no starvation on the row locks.
\<close>

theorem booking_returns:
  assumes "bank_ok db" and "fair_schedule n evs"
  shows "\<exists>m0. \<forall>m \<ge> m0. \<forall>i < n. \<exists>res. stage_of (conc_run reqs (map evs [0..<m]) db) i = Finished res"
  using fair_run_returns [OF assms, of reqs] unfolding run_for_def .

text \<open>Two withdrawals that take turns, with a lost connection every seventh time.\<close>

definition in_turn :: "nat \<Rightarrow> sched" where
  "in_turn m = Turn (m mod 2) (if m mod 7 = 6 then FailAt CallUpdate else NoFault)"

lemma in_turn_fair: "fair_schedule 2 in_turn"
proof -
  have "\<exists>m' \<ge> m. \<exists>f. in_turn m' = Turn i f" if "i < 2" for i m
    using that by (intro exI [of _ "2 * m + i"]) (auto simp: in_turn_def)
  then show ?thesis by (auto simp: fair_schedule_def schedulable_def in_turn_def)
qed

theorem booking_returns_witness:
  "\<exists>m0. \<forall>m \<ge> m0. \<forall>i < 2. \<exists>res. stage_of (conc_run two_withdrawals (map in_turn [0..<m]) demo_db) i = Finished res"
  by (rule booking_returns [OF demo_db_ok in_turn_fair])

section \<open>One step\<close>

text \<open>
  C18: a service call that no other interrupts does, statement by statement, exactly what the
  call does as one step, on every branch and whatever call to the database fails.
\<close>

theorem booking_alone_is_one_step:
  "committed (conc_run (\<lambda>_. b) (replicate 5 (Turn 0 fault)) db) = fst (svc_booking fault b db) \<and>
   stage_of (conc_run (\<lambda>_. b) (replicate 5 (Turn 0 fault)) db) 0 = Finished (snd (svc_booking fault b db))"
  by (rule solo_run)

end
