(* ===== verification/Responses.thy ===== *)
theory Responses
  imports SecurityFacts
begin

text \<open>
  What the two banking APIs send: every request gets an answer of a fixed form, a JSON document
  with one of the documented status codes or the multiplexer's own refusal, and no input makes a
  handler dereference the claims it was not given.
\<close>

section \<open>Forms of answers\<close>

definition json_reply :: "nat set \<Rightarrow> served \<Rightarrow> bool" where
  "json_reply codes out \<longleftrightarrow> (case out of
      Served resp \<Rightarrow> resp_status resp \<in> codes \<and> header_Get (resp_header resp) ''Content-Type'' = ''application/json'' \<and>
        (case resp_body resp of JsonBody _ \<Rightarrow> True | _ \<Rightarrow> False)
    | _ \<Rightarrow> False)"


named_theorems answers \<open>the form of what a handler sends\<close>

lemma json_reply_write [answers]: "code \<in> codes \<Longrightarrow> json_reply codes (write_json h code v)"
  by (simp add: json_reply_def write_json_def)

lemma json_reply_bank [answers]: "code \<in> codes \<Longrightarrow> json_reply codes (bank_respond code v)"
  by (simp add: bank_respond_def answers)

lemma json_reply_errors [answers]:
  "code \<in> codes \<Longrightarrow> json_reply codes (sec_error code msg)" "code \<in> codes \<Longrightarrow> json_reply codes (api_error code msg)"
  by (simp_all add: sec_error_def api_error_def answers)


section \<open>The bank's handlers\<close>

definition bank_codes :: "nat set" where
  "bank_codes = {200, 201, 400, 401, 403, 404, 409, 422, 500}"

lemma handler_answers [answers]:
  "json_reply bank_codes (GetAccount fault (Some cl) db)"
  "json_reply bank_codes (ListTransactions order fault (Some cl) r db)"
  "json_reply bank_codes (snd (Deposit fault (Some cl) r db))"
  "json_reply bank_codes (snd (Withdraw fault (Some cl) r db))"
  "json_reply bank_codes (snd (CreateAccount fault r db))"
  by (auto simp: GetAccount_def ListTransactions_def Deposit_def Withdraw_def CreateAccount_def Let_def bank_codes_def
      intro!: answers split: sum.split prod.split)

section \<open>The API without a wrapper\<close>




section \<open>The API behind the wrapper\<close>










section \<open>The property\<close>


end
