(* ===== verification/BankWire.thy ===== *)
theory BankWire
  imports BankSchedules BankProperties JsonText
begin

text \<open>
  The bank's answers on the wire: a client that decodes the bytes of an answer into a \<open>float64\<close>
  and strings reads the balance the service has and the account's own strings. The number goes
  through its shortest decimal text, which this theory proves to be a JSON number with the
  decimal's value; that the search for it succeeds is proved for every value the column holds.
\<close>

section \<open>The text of a number\<close>

definition int_text :: "string \<Rightarrow> bool" where
  "int_text i \<longleftrightarrow> i = ''0'' \<or> (list_all is_digit i \<and> i \<noteq> [] \<and> hd i \<noteq> CHR ''0'')"

definition digits :: "string \<Rightarrow> bool" where
  "digits s \<longleftrightarrow> list_all is_digit s \<and> s \<noteq> []"

definition exp_text :: "string \<Rightarrow> string \<Rightarrow> string" where
  "exp_text sg ds = ''e'' @ sg @ ds"

lemma takeWhile_digits: "list_all is_digit s \<Longrightarrow> takeWhile is_digit s = s" "list_all is_digit s \<Longrightarrow> dropWhile is_digit s = []"
  by (induction s) auto

lemma takeWhile_digits_append:
  "list_all is_digit s \<Longrightarrow> number_stop r \<or> (\<exists>c t. r = c # t \<and> \<not> is_digit c) \<Longrightarrow>
     takeWhile is_digit (s @ r) = s \<and> dropWhile is_digit (s @ r) = r"
  by (induction s) (auto simp: number_stop_def split: list.splits)

lemma not_digit [simp]: "\<not> is_digit CHR ''.''" "\<not> is_digit CHR ''e''" "\<not> is_digit CHR ''-''" "\<not> is_digit CHR ''+''"
  "is_digit CHR ''0''"
  by (simp_all add: is_digit_def)

text \<open>A sign, whole digits, a fraction and an exponent, each but the digits perhaps missing.\<close>

definition number_of :: "bool \<Rightarrow> string \<Rightarrow> string \<Rightarrow> (string \<times> string) option \<Rightarrow> string" where
  "number_of neg i f e = (if neg then ''-'' else []) @ i @ (if f = [] then [] else ''.'' @ f) @
     (case e of None \<Rightarrow> [] | Some (sg, ds) \<Rightarrow> exp_text sg ds)"

definition good_exp :: "(string \<times> string) option \<Rightarrow> bool" where
  "good_exp e \<longleftrightarrow> (case e of None \<Rightarrow> True | Some (sg, ds) \<Rightarrow> sg \<in> {''+'', ''-''} \<and> digits ds)"

definition exp_rest :: "(string \<times> string) option \<Rightarrow> string" where
  "exp_rest e = (case e of None \<Rightarrow> [] | Some (sg, ds) \<Rightarrow> exp_text sg ds)"

lemma exp_rest_head: "exp_rest e = [] \<or> (\<exists>t. exp_rest e = CHR ''e'' # t)"
  by (auto simp: exp_rest_def exp_text_def split: option.split)

lemma exp_part_rest: "good_exp e \<Longrightarrow> exp_part (exp_rest e) = Some (exp_rest e, [])"
  by (auto simp: good_exp_def exp_rest_def exp_part_def exp_text_def sign_part_def digits_def takeWhile_digits
      split: option.splits)

lemma takeWhile_frac:
  assumes "list_all is_digit f"
  shows "takeWhile is_digit (f @ exp_rest e) = f \<and> dropWhile is_digit (f @ exp_rest e) = exp_rest e"
  using exp_rest_head [of e] takeWhile_digits [OF assms] takeWhile_digits_append [OF assms, of "exp_rest e"] by auto

definition frac_rest :: "string \<Rightarrow> string" where
  "frac_rest f = (if f = [] then [] else CHR ''.'' # f)"

lemma frac_part_rest: "list_all is_digit f \<Longrightarrow> frac_part (frac_rest f @ exp_rest e) = Some (frac_rest f, exp_rest e)"
  using takeWhile_frac [of f e] exp_rest_head [of e] by (auto simp: frac_part_def frac_rest_def)

lemma takeWhile_int:
  assumes "list_all is_digit i"
  shows "takeWhile is_digit (i @ frac_rest f @ exp_rest e) = i \<and>
    dropWhile is_digit (i @ frac_rest f @ exp_rest e) = frac_rest f @ exp_rest e"
proof (cases "frac_rest f @ exp_rest e = []")
  case True
  then show ?thesis using takeWhile_digits [OF assms] by simp
next
  case False
  then have "\<exists>c t. frac_rest f @ exp_rest e = c # t \<and> \<not> is_digit c"
    using exp_rest_head [of e] by (auto simp: frac_rest_def)
  then show ?thesis using takeWhile_digits_append [OF assms, of "frac_rest f @ exp_rest e"] by blast
qed

lemma int_part_rest:
  assumes "int_text i"
  shows "int_part (i @ frac_rest f @ exp_rest e) = Some (i, frac_rest f @ exp_rest e)"
proof (cases "i = ''0''")
  case False
  with assms have i: "list_all is_digit i" "i \<noteq> []" "hd i \<noteq> CHR ''0''" by (auto simp: int_text_def)
  then show ?thesis using takeWhile_int [OF i(1), of f e] by (cases i) (auto simp: int_part_def)
qed (simp add: int_part_def)

lemma number_of_eq: "number_of neg i f e = (if neg then ''-'' else []) @ i @ frac_rest f @ exp_rest e"
  by (simp add: number_of_def frac_rest_def exp_rest_def)

lemma int_text_digits: "int_text i \<Longrightarrow> list_all is_digit i \<and> i \<noteq> []"
  by (auto simp: int_text_def)

lemma int_text_no_minus: "int_text i \<Longrightarrow> take 1 (i @ r) \<noteq> ''-''"
  using int_text_digits [of i] by (cases i) auto

lemma number_of_valid:
  assumes "int_text i" and "list_all is_digit f" and "good_exp e"
  shows "valid_number (number_of neg i f e)"
proof -
  have sg: "(if take 1 (number_of neg i f e) = ''-'' then (''-'', drop 1 (number_of neg i f e)) else ([], number_of neg i f e))
      = (if neg then ''-'' else [], i @ frac_rest f @ exp_rest e)"
    using int_text_no_minus [OF assms(1), of "frac_rest f @ exp_rest e"] by (auto simp: number_of_eq)
  show ?thesis
    unfolding valid_number_def number_text_def sg
    by (simp add: int_part_rest [OF assms(1)] frac_part_rest [OF assms(2)] exp_part_rest [OF assms(3)] number_of_eq)
qed

definition exp_value :: "(string \<times> string) option \<Rightarrow> int" where
  "exp_value e = (case e of None \<Rightarrow> 0 | Some (sg, ds) \<Rightarrow> if sg = ''-'' then - digits_val ds else digits_val ds)"

lemma exponent_value_rest: "good_exp e \<Longrightarrow> exponent_value (exp_rest e) = exp_value e"
  by (auto simp: good_exp_def exp_rest_def exponent_value_def exp_text_def exp_value_def split: option.splits)

lemma number_of_value:
  assumes "int_text i" and "list_all is_digit f" and "good_exp e"
  shows "literal_value (number_of neg i f e) =
    (if neg then -1 else 1) * of_int (digits_val (i @ f)) * pow10 (exp_value e - int (length f))"
proof -
  let ?s = "i @ frac_rest f @ exp_rest e"
  note w = takeWhile_int [OF int_text_digits [OF assms(1), THEN conjunct1], of f e]
  note fr = takeWhile_frac [OF assms(2), of e]
  have head: "take 1 (exp_rest e) \<noteq> ''.''" using exp_rest_head [of e] by auto
  have frac: "(if take 1 (frac_rest f @ exp_rest e) = ''.'' then takeWhile is_digit (drop 1 (frac_rest f @ exp_rest e)) else []) = f"
    "(if take 1 (frac_rest f @ exp_rest e) = ''.'' then dropWhile is_digit (drop 1 (frac_rest f @ exp_rest e))
      else frac_rest f @ exp_rest e) = exp_rest e"
    using fr head by (auto simp: frac_rest_def)
  have sg: "take 1 (number_of neg i f e) = ''-'' \<longleftrightarrow> neg"
    "(if neg then drop 1 (number_of neg i f e) else number_of neg i f e) = ?s"
    using int_text_no_minus [OF assms(1), of "frac_rest f @ exp_rest e"] by (auto simp: number_of_eq)
  show ?thesis
    unfolding literal_value_def sg Let_def conjunct1 [OF w] conjunct2 [OF w] frac exponent_value_rest [OF assms(3)]
    by simp
qed

lemma digits_val_append: "digits_val (a @ b) = digits_val a * 10 ^ length b + digits_val b"
proof (induction b rule: rev_induct)
  case (snoc c b)
  have "digits_val (a @ b @ [c]) = 10 * digits_val (a @ b) + digit_val c"
    using digits_val_snoc [of "a @ b" c] by simp
  with snoc show ?case by (simp add: digits_val_snoc algebra_simps)
qed (simp add: digits_val_def)

lemma digits_val_zeros: "digits_val (replicate n CHR ''0'') = 0"
proof (induction n)
  case (Suc n)
  then show ?case
    using digits_val_snoc [of "replicate n CHR ''0''" "CHR ''0''"]
    by (simp add: replicate_append_same digit_val_def)
qed (simp add: digits_val_def)

lemma dec_nat_small: "n < 10 \<Longrightarrow> dec_nat n = [digit_char n]"
  by (subst dec_nat.simps) simp

lemma dec_nat_0: "dec_nat 0 = ''0''"
  by code_simp

lemma digit_char_zero: "n < 10 \<Longrightarrow> digit_char n = CHR ''0'' \<Longrightarrow> n = 0"
  using digit_char_simps(2) [of n] by (simp add: digit_val_def)

lemma dec_nat_leading: "0 < n \<Longrightarrow> hd (dec_nat n) \<noteq> CHR ''0''"
proof (induction n rule: dec_nat.induct)
  case (1 n)
  show ?case
  proof (cases "n < 10")
    case True
    with "1.prems" digit_char_zero [of n] show ?thesis by (auto simp: dec_nat_small)
  next
    case False
    then have "hd (dec_nat (n div 10)) \<noteq> CHR ''0''" using "1.IH" by simp
    with False show ?thesis by (subst dec_nat.simps) simp
  qed
qed

lemma int_text_dec_nat: "int_text (dec_nat n)"
proof (cases "n = 0")
  case True
  then show ?thesis by (simp add: int_text_def dec_nat_0)
next
  case False
  then show ?thesis using dec_nat_leading [of n] dec_nat_digits [of n] by (simp add: int_text_def)
qed

lemma int_text_FormatInt: "valid_number (FormatInt n)"
proof -
  have "FormatInt n = number_of (n < 0) (dec_nat (nat \<bar>n\<bar>)) [] None" by (simp add: FormatInt_def number_of_def)
  then show ?thesis using number_of_valid [OF int_text_dec_nat, of "[]" None] by (simp add: good_exp_def)
qed

definition number_reads :: "string \<Rightarrow> rat \<Rightarrow> bool" where
  "number_reads lit x \<longleftrightarrow> valid_number lit \<and> literal_value lit = x"

lemma number_of_reads:
  assumes "lit = number_of neg i f e" and "int_text i" and "list_all is_digit f" and "good_exp e"
    and "x = (if neg then -1 else 1) * of_int (digits_val (i @ f)) * pow10 (exp_value e - int (length f))"
  shows "number_reads lit x"
  using number_of_valid [OF assms(2-4)] number_of_value [OF assms(2-4)] assms(1,5) by (simp add: number_reads_def)

lemma signed_nat: "(if m < 0 then -1 else 1) * of_int (int (nat \<bar>m\<bar>)) = (of_int m :: rat)"
  by (cases "m < 0") simp_all

lemma zeros_digits: "list_all is_digit (replicate n CHR ''0'')"
  by (simp add: list_all_iff)

lemma format_f_whole:
  assumes "0 \<le> u"
  shows "number_reads (format_f m u) (of_int m * pow10 u)"
proof (cases "m = 0")
  case True
  then show ?thesis
    by (intro number_of_reads [where neg = False and i = "''0''" and f = "[]" and e = None])
      (simp_all add: assms format_f_def number_of_def good_exp_def int_text_def dec_nat_0
        digits_val_def digit_val_def)
next
  case False
  let ?D = "dec_nat (nat \<bar>m\<bar>)"
  have "int_text (?D @ replicate (nat u) CHR ''0'')"
    using False dec_nat_leading [of "nat \<bar>m\<bar>"] dec_nat_digits [of "nat \<bar>m\<bar>"] zeros_digits by (simp add: int_text_def)
  moreover have "format_f m u = number_of (m < 0) (?D @ replicate (nat u) CHR ''0'') [] None"
    using assms False by (simp add: format_f_def number_of_def Let_def)
  moreover have "(if m < 0 then -1 else 1) * of_int (digits_val (?D @ replicate (nat u) CHR ''0'')) * pow10 0 =
      (of_int m :: rat) * pow10 u"
    using signed_nat [of m] assms by (simp add: digits_val_append digits_val_zeros digits_val_dec_nat pow10_def)
  ultimately show ?thesis
    by (intro number_of_reads [where neg = "m < 0" and i = "?D @ replicate (nat u) CHR ''0''" and f = "[]" and e = None])
      (simp_all add: good_exp_def exp_value_def)
qed

lemma format_f_fraction:
  assumes "u < 0"
  shows "number_reads (format_f m u) (of_int m * pow10 u)"
proof -
  let ?D = "dec_nat (nat \<bar>m\<bar>)" and ?n = "nat (- u)"
  define P where "P = replicate (Suc ?n - length ?D) CHR ''0'' @ ?D"
  define i f where "i = take (length P - ?n) P" and "f = drop (length P - ?n) P"
  have P: "P = i @ f" unfolding i_def f_def by simp
  have all: "list_all is_digit P" using dec_nat_digits zeros_digits by (simp add: P_def)
  then have "list_all is_digit i" "list_all is_digit f" unfolding P by simp_all
  have len: "?n < length P" by (simp add: P_def)
  then have "P \<noteq> []" by auto
  with len have "length f = ?n" "i \<noteq> []" "f \<noteq> []" using assms by (simp_all add: i_def f_def)
  moreover have "int_text i"
  proof (cases "length ?D \<le> ?n")
    case True
    then have "length P = Suc ?n" by (simp add: P_def)
    moreover have "hd P = CHR ''0''" using True by (simp add: P_def Suc_diff_le)
    ultimately have "i = ''0''" using len by (cases P) (simp_all add: i_def)
    then show ?thesis by (simp add: int_text_def)
  next
    case False
    then have "P = ?D" by (simp add: P_def)
    have "nat \<bar>m\<bar> \<noteq> 0"
    proof
      assume "nat \<bar>m\<bar> = 0"
      then have "length ?D = 1" by (simp add: dec_nat_0)
      with False assms show False by simp
    qed
    then have "hd i \<noteq> CHR ''0''"
      using dec_nat_leading [of "nat \<bar>m\<bar>"] \<open>P = ?D\<close> \<open>i \<noteq> []\<close> P by (metis gr0I hd_append2)
    then show ?thesis using \<open>list_all is_digit i\<close> \<open>i \<noteq> []\<close> by (simp add: int_text_def)
  qed
  moreover have "format_f m u = number_of (m < 0) i f None"
    using assms \<open>f \<noteq> []\<close> by (simp add: format_f_def number_of_def Let_def i_def f_def P_def)
  moreover have "digits_val (i @ f) = int (nat \<bar>m\<bar>)"
    unfolding P [symmetric] by (simp add: P_def digits_val_append digits_val_zeros digits_val_dec_nat)
  ultimately show ?thesis
    using \<open>list_all is_digit f\<close> assms signed_nat [of m]
    by (intro number_of_reads [where neg = "m < 0" and i = i and f = f and e = None])
      (simp_all add: good_exp_def exp_value_def)
qed

lemma format_e_reads:
  assumes "m \<noteq> 0"
  shows "number_reads (format_e m u) (of_int m * pow10 u)"
proof -
  let ?D = "dec_nat (nat \<bar>m\<bar>)" and ?e = "u + int (length (dec_nat (nat \<bar>m\<bar>))) - 1"
  define i f where "i = take 1 ?D" and "f = drop 1 ?D"
  define sg where "sg = (if ?e < 0 then ''-'' else ''+'')"
  define ds where "ds = (if ?e \<ge> 0 \<and> ?e < 10 then ''0'' else '''') @ dec_nat (nat \<bar>?e\<bar>)"
  have D: "?D = i @ f" by (simp add: i_def f_def)
  have i: "i \<noteq> []" "hd i = hd ?D" by (simp_all add: i_def)
  have all: "list_all is_digit i" "list_all is_digit f" using dec_nat_digits [of "nat \<bar>m\<bar>"] by (simp_all add: D)
  have "int_text i" using all i dec_nat_leading [of "nat \<bar>m\<bar>"] assms by (simp add: int_text_def)
  moreover have "good_exp (Some (sg, ds))"
    using dec_nat_digits by (simp add: good_exp_def sg_def ds_def digits_def)
  moreover have "format_e m u = number_of (m < 0) i f (Some (sg, ds))"
  proof -
    have "length ?D = 1 \<longleftrightarrow> f = []" using dec_nat_nonempty [of "nat \<bar>m\<bar>"] by (cases ?D) (simp_all add: f_def)
    then show ?thesis by (simp add: format_e_def number_of_def Let_def sg_def ds_def exp_text_def) (simp add: i_def f_def)
  qed
  moreover have "length f = length ?D - 1" by (simp add: f_def)
  then have len: "int (length f) = int (length ?D) - 1" by (cases ?D) simp_all
  have zero: "digits_val (''0'' @ s) = digits_val s" for s
    using digits_val_append [of "''0''" s] digits_val_zeros [of 1] by simp
  have "digits_val ds = int (nat \<bar>?e\<bar>)"
  proof (cases "?e \<ge> 0 \<and> ?e < 10")
    case True
    then have "ds = ''0'' @ dec_nat (nat \<bar>?e\<bar>)" unfolding ds_def by (simp only: simp_thms if_True)
    then show ?thesis by (simp only: zero digits_val_dec_nat)
  next
    case False
    then have "ds = dec_nat (nat \<bar>?e\<bar>)" unfolding ds_def by (simp only: simp_thms if_False append_Nil)
    then show ?thesis by (simp only: digits_val_dec_nat)
  qed
  then have "exp_value (Some (sg, ds)) = ?e" by (simp add: exp_value_def sg_def)
  then have "exp_value (Some (sg, ds)) - int (length f) = u" using len by simp
  moreover have "digits_val (i @ f) = int (nat \<bar>m\<bar>)" using digits_val_dec_nat [of "nat \<bar>m\<bar>"] by (simp add: D)
  ultimately show ?thesis
    using all signed_nat [of m]
    by (intro number_of_reads [where neg = "m < 0" and i = i and f = f and e = "Some (sg, ds)"]) simp_all
qed

text \<open>The text of a \<open>float64\<close> reads back as that \<open>float64\<close>.\<close>

lemma json_float_text_reads:
  assumes "shortest x = Some (m, u)"
  shows "number_reads (json_float_text x) (of_int m * pow10 u)"
proof -
  have "m \<noteq> 0" if "x \<noteq> 0"
  proof
    assume "m = 0"
    with shortest_reads_back [OF assms] that show False by (simp add: fl_def)
  qed
  moreover have "number_reads (format_f m u) (of_int m * pow10 u)"
    using format_f_whole [of u m] format_f_fraction [of u m] by (cases "0 \<le> u") simp_all
  ultimately show ?thesis using assms format_e_reads [of m u] by (auto simp: json_float_text_def)
qed

lemma json_float_back:
  assumes "shortest x = Some (m, u)" and "\<bar>x\<bar> < pow2 1024"
  shows "valid_json (JFloat x)" and "json_float (JFloat x) = Some x"
  using json_float_text_reads [OF assms(1)] shortest_reads_back [OF assms(1)] assms(2)
  by (simp_all add: JFloat_def number_reads_def Let_def)

section \<open>The shortest text exists for what the column holds\<close>

lemma shortest_from_finds:
  "k < n \<Longrightarrow> fl (of_int (round_half_even (x / pow10 (v - int k))) * pow10 (v - int k)) = x \<Longrightarrow> shortest_from n x v \<noteq> None"
proof (induction n arbitrary: k v)
  case (Suc n)
  show ?case
  proof (cases k)
    case 0
    with Suc.prems show ?thesis by (simp add: Let_def)
  next
    case (Suc j)
    then have "v - int k = v - 1 - int j" by simp
    from Suc.prems(2) [unfolded this] Suc.IH [of j "v - 1"] Suc.prems(1) Suc
    have "shortest_from n x (v - 1) \<noteq> None" by simp
    then show ?thesis by (simp add: Let_def)
  qed
qed simp

lemma binary_exponent_less: "x \<noteq> 0 \<Longrightarrow> \<bar>x\<bar> < pow2 (binary_exponent x + 1)"
proof -
  assume x: "x \<noteq> 0"
  obtain a b where ab: "quotient_of \<bar>x\<bar> = (a, b)" by fastforce
  have b: "0 < b" and eq: "\<bar>x\<bar> = of_int a / of_int b"
    using quotient_of_denom_pos [OF ab] quotient_of_div [OF ab] by simp_all
  have "0 < (of_int a :: rat) / of_int b" using x eq by (metis zero_less_abs_iff)
  with b have a: "0 < a" by (simp add: zero_less_divide_iff)
  let ?m = "bit_length a" and ?n = "bit_length b"
  have "(of_int a :: rat) < of_int (2 ^ nat ?m)" "(of_int (2 ^ nat (?n - 1)) :: rat) \<le> of_int b"
    using bit_length_bounds [OF a] bit_length_bounds [OF b] by (simp_all only: of_int_less_iff of_int_le_iff)
  then have "(of_int a :: rat) / of_int b < 2 ^ nat ?m / 2 ^ nat (?n - 1)"
    by (intro frac_less) (use a in simp_all)
  also have "\<dots> = pow2 (?m - ?n + 1)"
  proof -
    have "pow2 ?m * pow2 (- (?n - 1)) = pow2 (?m - ?n + 1)" by (simp flip: pow2_add add: algebra_simps)
    moreover have "pow2 ?m = 2 ^ nat ?m" using bit_length_bounds [OF a] by (simp add: pow2_def)
    moreover have "pow2 (- (?n - 1)) = 1 / 2 ^ nat (?n - 1)" using bit_length_bounds [OF b] by (auto simp: pow2_def)
    ultimately show ?thesis by simp
  qed
  finally show ?thesis unfolding binary_exponent_def ab by (simp add: eq Let_def not_le)
qed

lemma exponent_bounds:
  assumes "pow2 j < \<bar>x\<bar>" and "\<bar>x\<bar> < pow2 k"
  shows "j \<le> binary_exponent x" and "binary_exponent x < k"
proof -
  have x: "x \<noteq> 0" using less_trans [OF pow2_pos assms(1)] by simp
  have "pow2 j < pow2 (binary_exponent x + 1)" using binary_exponent_less [OF x] assms(1) by simp
  then show "j \<le> binary_exponent x" using pow2_mono [of "binary_exponent x + 1" j] by (metis not_le zle_add1_eq_le)
  have "pow2 (binary_exponent x) < pow2 k" using binary_exponent_le [OF x] assms(2) by simp
  then show "binary_exponent x < k" using pow2_mono [of k "binary_exponent x"] by (metis not_le)
qed

lemma round_half_even_near: "\<bar>x - of_int c\<bar> < 1 / 2 \<Longrightarrow> round_half_even x = c"
proof -
  assume near: "\<bar>x - of_int c\<bar> < 1 / 2"
  have "\<bar>of_int (round_half_even x) - (of_int c :: rat)\<bar> < 1"
    using near round_half_even_error [of x] unfolding abs_less_iff abs_le_iff by linarith
  then have "\<bar>round_half_even x - c\<bar> < 1"
    by (metis of_int_abs of_int_diff of_int_less_1_iff)
  then show ?thesis by simp
qed

lemma load_size: "0 \<le> c \<Longrightarrow> c < 10 ^ 15 \<Longrightarrow> \<bar>load_numeric c\<bar> < pow2 44"
proof -
  assume c: "0 \<le> c" "c < 10 ^ 15"
  have "load_numeric c \<le> 10000000000001" using load_bounds(1) [OF c] cents_le [OF c(2)] by linarith
  moreover have "0 \<le> load_numeric c" using c by (simp add: load_nonneg)
  moreover have "pow2 44 = 17592186044416" by (simp add: pow2_def)
  ultimately show ?thesis by simp
qed

lemma shortest_load:
  assumes "0 \<le> c" and "c < 10 ^ 15"
  shows "shortest (load_numeric c) \<noteq> None"
proof (cases "c = 0")
  case True
  then show ?thesis by (simp add: shortest_def load_numeric_def fl_def)
next
  case False
  let ?x = "load_numeric c"
  have "(1 :: rat) \<le> of_int c" using assms False by (metis int_one_le_iff_zero_less less_le of_int_1_le_iff)
  then have low: "1 / 128 < ?x" using load_bounds(2) [OF assms] by simp
  have "pow2 (-7) = 1 / 128" by (simp add: pow2_def)
  with low have "pow2 (-7) < \<bar>?x\<bar>" by simp
  from exponent_bounds [OF this load_size [OF assms]] have e: "-7 \<le> binary_exponent ?x" "binary_exponent ?x < 44" .
  define v where "v = binary_exponent ?x * 30103 div 100000 + 2"
  have v: "-2 \<le> v" "v \<le> 15" using e unfolding v_def by linarith+
  have cent: "pow10 (-2) = 1 / 100" by (simp add: pow10_def)
  have "\<bar>?x * 100 - of_int c\<bar> < 1 / 2"
    using load_bounds [OF assms] unfolding abs_less_iff by linarith
  then have "round_half_even (?x / pow10 (-2)) = c" unfolding cent by (intro round_half_even_near) simp
  then have "fl (of_int (round_half_even (?x / pow10 (v - int (nat (v + 2))))) * pow10 (v - int (nat (v + 2)))) = ?x"
    using v(1) by (simp add: cent load_numeric_def)
  then have "shortest_from 22 ?x v \<noteq> None" using v by (intro shortest_from_finds [of "nat (v + 2)"]) simp_all
  then show ?thesis using low by (simp add: shortest_def v_def)
qed

lemma load_on_the_wire:
  assumes "0 \<le> c" and "c < 10 ^ 15"
  shows "valid_json (JFloat (load_numeric c))" and "json_float (JFloat (load_numeric c)) = Some (load_numeric c)"
proof -
  obtain m u where "shortest (load_numeric c) = Some (m, u)" using shortest_load [OF assms] by auto
  moreover have "pow2 44 \<le> pow2 1024" by (rule pow2_mono) simp
  with load_size [OF assms] have "\<bar>load_numeric c\<bar> < pow2 1024" by (rule less_le_trans)
  ultimately show "valid_json (JFloat (load_numeric c))" "json_float (JFloat (load_numeric c)) = Some (load_numeric c)"
    by (rule json_float_back)+
qed

section \<open>An account on the wire\<close>

definition ascii :: "string \<Rightarrow> bool" where
  "ascii s \<longleftrightarrow> list_all (\<lambda>c. byte c < 0x80) s"

lemma ascii_utf8: "ascii s \<Longrightarrow> valid_utf8 s"
  by (induction s) (simp_all add: ascii_def del: rune_len.simps)

lemma ascii_append [simp]: "ascii (s @ t) \<longleftrightarrow> ascii s \<and> ascii t"
  by (simp add: ascii_def)

lemma ascii_digits: "list_all is_digit s \<Longrightarrow> ascii s"
  by (auto simp: ascii_def list_all_iff is_digit_def byte_def)

lemma ascii_pad_int: "ascii (pad_int w n)"
  unfolding pad_int_def Let_def by (intro ascii_digits) (simp add: dec_nat_digits zeros_digits)

lemma ascii_marks: "ascii ''-''" "ascii ''T''" "ascii '':''" "ascii ''.''" "ascii ''Z''" "ascii ''''"
  by code_simp+

lemma ascii_seconds: "ascii (seconds_text t)"
  unfolding seconds_text_def by (simp only: Let_def ascii_append ascii_pad_int ascii_marks simp_thms split: prod.split)

lemma ascii_Nano: "ascii (RFC3339Nano t)"
proof -
  define f where "f = rev (dropWhile (\<lambda>c. c = CHR ''0'') (rev (pad_int 9 (t mod nanos_per_second))))"
  have "set f \<subseteq> set (pad_int 9 (t mod nanos_per_second))" unfolding f_def by (auto dest: set_dropWhileD)
  then have "ascii f" using ascii_pad_int [of 9 "t mod nanos_per_second"] by (auto simp: ascii_def list_all_iff)
  then show ?thesis
    unfolding RFC3339Nano_def Let_def f_def [symmetric]
    by (simp only: ascii_append ascii_seconds ascii_marks simp_thms split: if_split)
qed

lemma member_names: "valid_utf8 ''account_number''" "valid_utf8 ''owner_name''" "valid_utf8 ''balance''"
  "valid_utf8 ''created_at''" "valid_utf8 ''amount''"
  by code_simp+

lemma account_on_the_wire:
  assumes "bank_ok db" and "select_account db (BankAccountNumber cl) = Some r"
    and "valid_utf8 (row_number r)" and "valid_utf8 (row_owner r)"
  shows "\<exists>v ms x. GetAccount NoFault (Some cl) db = bank_respond 200 v \<and> first_value (Encode v) = Some (JObj ms) \<and>
    map_of ms ''account_number'' = Some (JStr (row_number r)) \<and> map_of ms ''owner_name'' = Some (JStr (row_owner r)) \<and>
    Option.bind (map_of ms ''balance'') json_float = Some x \<and> store_numeric x = Some (row_balance r)"
proof -
  have c: "0 \<le> row_balance r" "row_balance r < 10 ^ 15" using row_cents [OF assms(1,2)] by (auto simp: cents_ok_def)
  let ?ms = "[(''account_number'', JStr (row_number r)), (''owner_name'', JStr (row_owner r)),
    (''balance'', JFloat (load_numeric (row_balance r))), (''created_at'', JStr (RFC3339Nano (row_created r)))]"
  have get: "GetAccount NoFault (Some cl) db = bank_respond 200 (JObj ?ms)"
    using assms(2) by (simp add: GetAccount_def svc_GetAccount_def GetByAccountNumber_def scan_number_def scanAccount_def)
  have "valid_json (JObj ?ms)"
    using assms(3,4) member_names load_on_the_wire(1) [OF c] ascii_utf8 [OF ascii_Nano] by simp
  moreover have "json_depth (JObj ?ms) \<le> max_nesting" by (simp add: max_nesting_def JFloat_def)
  ultimately have "first_value (Encode (JObj ?ms)) = Some (JObj ?ms)" by (rule Encode_reads_back(1))
  moreover have "Option.bind (map_of ?ms ''balance'') json_float = Some (load_numeric (row_balance r))"
    using load_on_the_wire(2) [OF c] by simp
  ultimately show ?thesis
    using get store_load [OF c] by (intro exI [of _ "JObj ?ms"] exI [of _ ?ms] exI [of _ "load_numeric (row_balance r)"]) simp
qed

lemma amount_on_the_wire:
  assumes "0 \<le> a" and "a < 10 ^ 15"
  shows "decode_field json_float ''amount'' 0 (first_value (Encode (JObj [(''amount'', JFloat (load_numeric a))]))) =
    (True, load_numeric a)"
proof -
  let ?v = "JObj [(''amount'', JFloat (load_numeric a))]"
  have "valid_json ?v" using member_names load_on_the_wire(1) [OF assms] by simp
  moreover have "json_depth ?v \<le> max_nesting" by (simp add: max_nesting_def JFloat_def)
  ultimately have "first_value (Encode ?v) = Some ?v" by (rule Encode_reads_back(1))
  then show ?thesis
    using load_on_the_wire(2) [OF assms] by (simp add: decode_field_def field_matches_def JFloat_def)
qed

text \<open>
  C10: a client that posts the JSON text of a whole number of cents to the deposit handler and then
  reads its account finds, in the bytes of the answer, exactly that many cents more: nothing is
  lost in the decimal text of the number, in the JSON around it, in decoding it into binary
  floating point, in the service's addition, in the column, or on the way back.
\<close>

theorem cents_survive_the_wire:
  assumes "bank_ok db" and "select_account db (BankAccountNumber cl) = Some r"
    and "0 < a" and "row_balance r + a < 10 ^ 15"
    and "valid_utf8 (row_number r)" and "valid_utf8 (row_owner r)"
    and "db' = fst (Deposit NoFault (Some cl)
      (q\<lparr>req_body := first_value (Encode (JObj [(''amount'', JFloat (load_numeric a))]))\<rparr>) db)"
  shows "\<exists>v ms x. GetAccount NoFault (Some cl) db' = bank_respond 200 v \<and> first_value (Encode v) = Some (JObj ms) \<and>
    map_of ms ''account_number'' = Some (JStr (row_number r)) \<and> map_of ms ''owner_name'' = Some (JStr (row_owner r)) \<and>
    Option.bind (map_of ms ''balance'') json_float = Some x \<and> store_numeric x = Some (row_balance r + a)"
proof -
  have b: "0 \<le> row_balance r" using row_cents [OF assms(1,2)] by (simp add: cents_ok_def)
  then have a: "a < 10 ^ 15" using assms(4) by simp
  obtain acct where dep: "svc_Deposit NoFault (BankAccountNumber cl) (load_numeric a) db =
      (booked (row_id r) ''deposit'' a (row_balance r + a) db, Inr acct)"
    using Deposit_exact [OF assms(1-4)] by blast
  then have db': "db' = booked (row_id r) ''deposit'' a (row_balance r + a) db"
    using load_pos [OF assms(3) a] amount_on_the_wire [of a] assms(3) a by (simp add: assms(7) Deposit_def not_le)
  have ok: "bank_ok db'" using svc_Deposit_ok [OF dep assms(1)] by (simp add: db')
  let ?r = "r\<lparr>row_balance := row_balance r + a\<rparr>"
  have "select_account db' (BankAccountNumber cl) = Some ?r"
    using assms(2) unfolding db' booked_def select_account_def set_balance_def
    by (simp add: find_map_same)
  from account_on_the_wire [OF ok this] assms(5,6) show ?thesis by simp
qed

lemma demo_texts: "valid_utf8 (row_number alice_row)" "valid_utf8 (row_owner alice_row)"
  by code_simp+

theorem cents_survive_the_wire_witness:
  "\<exists>v ms x. GetAccount NoFault (Some \<lparr>Sub = ''u'', PreferredUsername = '''', Email = '''', BankAccountNumber = ''BANK-0001-2024''\<rparr>)
      (fst (Deposit NoFault (Some \<lparr>Sub = ''u'', PreferredUsername = '''', Email = '''', BankAccountNumber = ''BANK-0001-2024''\<rparr>)
        (\<lparr>req_method = ''POST'', req_path = '''', req_cookies = [], req_header = Map.empty, req_rawquery = '''', req_body = None\<rparr>
          \<lparr>req_body := first_value (Encode (JObj [(''amount'', JFloat (load_numeric 7))]))\<rparr>) demo_db)) = bank_respond 200 v \<and>
    first_value (Encode v) = Some (JObj ms) \<and> Option.bind (map_of ms ''balance'') json_float = Some x \<and>
    store_numeric x = Some 250007"
proof -
  let ?cl = "\<lparr>Sub = ''u'', PreferredUsername = '''', Email = '''', BankAccountNumber = ''BANK-0001-2024''\<rparr> :: claims"
  let ?q = "\<lparr>req_method = ''POST'', req_path = '''', req_cookies = [], req_header = Map.empty, req_rawquery = '''', req_body = None\<rparr> :: request"
  have row: "select_account demo_db (BankAccountNumber ?cl) = Some alice_row" using demo_alice by simp
  have "(0 :: int) < 7" "row_balance alice_row + 7 < 10 ^ 15" "row_balance alice_row + 7 = 250007"
    by (simp_all add: alice_row_def)
  with cents_survive_the_wire [where q = ?q and a = 7, OF demo_db_ok row _ _ demo_texts refl] show ?thesis
    by metis
qed

end
