(* ===== verification/Spec2Isabelle.thy ===== *)
theory Spec2Isabelle
  imports QueueProxy SecurityProperties ToolProperties BankConcurrency Responses BankWire
begin

text \<open>
  Verification of the Go programs of this repository. A definition has the name of the function,
  method or type it models; a suffix or prefix is added only where two programs use one name
  (\<open>svc_Deposit\<close>, \<open>sec_Load\<close>) or HOL has it already. Every theory imports \<open>Prelude\<close>, directly or
  through another.

  \<^bold>\<open>Common ground.\<close> \<open>Prelude\<close> has the rule collections, facts on lists and maps, and \<open>int64\<close>
  arithmetic with its wrap-around (\<open>wrap64\<close>); \<open>GoLib\<close> strings and numbers of Go's library;
  \<open>Http\<close> and \<open>Mux\<close> requests, headers, JSON values, responses and routing; \<open>Hmac\<close> and \<open>Base64\<close>
  SHA-256, HMAC and base64; \<open>Float64\<close> binary64 rounding and shortest decimals; \<open>GoTime\<close> the
  formats of times; \<open>JsonText\<close> JSON as bytes, what the encoder writes and what a decoder reads, with
  the proof that values come back. A Go string is a list of bytes, an \<open>int\<close> a HOL \<open>int\<close> kept in
  range by \<open>wrap64\<close> where the code can leave it. A request carries its query as written and its
  body as the JSON value a decoder reads (\<open>first_value\<close> of its bytes). What a handler ends with is
  a response, a proxied request or a panic. The clock, random numbers, environment variables and
  failing calls are arguments.

  \<^bold>\<open>The waiting room\<close> (\<open>queue-based-site-access/queue-service\<close>). \<open>Redis\<close> is the interface to the
  server: its commands, the laws they obey (locale \<open>redis_server\<close>), and an in-memory keyspace that
  obeys them. \<open>QueueScripts\<close> has the Lua scripts (\<open>internal/queue/scripts.go\<close>), \<open>WaitingRoom\<close> the
  abstract room with slots, a list and records, and \<open>QueueRefinement\<close> that each script implements
  one operation of the room. \<open>QueueStore\<close> has the store and the worker (\<open>store.go\<close>, \<open>worker.go\<close>)
  over a connection whose calls may fail or be repeated, \<open>QueueHandlers\<close> configuration, handlers,
  routes and start-up (\<open>internal/config\<close>, \<open>internal/handler\<close>, \<open>main.go\<close>). \<open>QueueSteps\<close> is the
  transition system of all interleavings, \<open>QueueGate\<close> shows that handlers move the server only by
  its steps and that only slot holders are proxied, \<open>QueueEffects\<close> what operations achieve on a
  healthy connection, and \<open>QueueProperties\<close> states the properties: the capacity is an invariant,
  nobody is moved back in the list, every request and worker turn returns. \<open>QueueProxy\<close> is the
  reverse proxy (\<open>newProxy\<close>) and the service with the target behind it.

  \<^bold>\<open>The bank\<close> (the shared packages of \<open>api-keycloak-mfa-email/api\<close> and
  \<open>api-keycloak-security/api\<close>, which differ only in import paths and in opening accounts). \<open>Money\<close>
  is the column type \<open>NUMERIC(15, 2)\<close> and the way a \<open>float64\<close> passes through it; \<open>Bank\<close> has the
  tables of \<open>database/init.sql\<close>, the statements of \<open>internal/repository\<close> and the service
  (\<open>internal/service/account.go\<close>); \<open>BankFacts\<close> its invariant and the exact effect of a booking;
  \<open>BankHandlers\<close> the handlers; \<open>BankProperties\<close> that whole cents are booked exactly although the
  service computes in binary floating point, that failing calls change nothing, and where the
  books break. There a booking is one step; \<open>BankSchedules\<close> has it statement by statement, with
  sessions that interleave and wait for each other's row lock, and \<open>BankConcurrency\<close> shows that
  every interleaving commits what the steps do in commit order, and that every call returns under
  a schedule that gives each call that can move its turns (\<open>fair_schedule\<close>).
  \<open>BankWire\<close> follows an amount from the bytes of a request to the bytes of the answer.
  \<open>BankServer\<close> is the contract of a server over these tables (locale \<open>bank_server\<close>: every request
  keeps them well formed and only adds to them), which both APIs below are shown to fulfil;
  \<open>Responses\<close> classifies what both can answer.

  \<^bold>\<open>The API with a second factor\<close> (\<open>api-keycloak-mfa-email/api\<close>). \<open>WrapSig\<close> is the signature on
  the identity headers (\<open>internal/wrapsig\<close>), \<open>Enrollment\<close> the one-time codes and step-up sessions
  (\<open>internal/enrollment\<close>) with the contract of a step-up checker as a locale, \<open>Keycloak\<close> and
  \<open>KeycloakFacts\<close> the admin client (\<open>internal/admin\<close>) over an arbitrary transport, \<open>MfaApi\<close>
  configuration, middleware, enrollment handlers, routes and start-up (\<open>internal/config\<close>,
  \<open>internal/auth\<close>, \<open>internal/handler\<close>, \<open>cmd/server\<close>). \<open>MfaFacts\<close> shows that money moves only past
  both gates, \<open>MfaRuns\<close> that a run of requests is a run of the enrollment store, so that a step-up
  session traces back to the two requests that made it; \<open>MfaProperties\<close> states the properties.

  \<^bold>\<open>The authorizer in front of it\<close> (\<open>api-keycloak-mfa-email/authz\<close>). \<open>Authz\<close> has configuration,
  token validation (\<open>internal/jws\<close>) and the handlers (\<open>cmd/server/main.go\<close>), \<open>WrapSigner\<close> what it
  uses of its own copy of the signature code (\<open>internal/wrapsig\<close>), \<open>Keys\<close> the key pair, the key
  sets and the fetched key (\<open>internal/jwe\<close>, \<open>internal/jwks\<close>), \<open>AuthzMain\<close> start-up.
  \<open>AuthzFacts\<close> and \<open>WrapperProperties\<close> show whom it vouches for, that the API reads the same
  identity back from its headers, and what a signature binds.

  \<^bold>\<open>The API without a wrapper\<close> (\<open>api-keycloak-security/api\<close>). \<open>SecurityBank\<close> has its own copy of
  the bank, repositories, service and handlers, as programs of statements on a connection, and shows
  that each does what the bank's one-step function says; \<open>SecurityApi\<close> has configuration, the
  middleware that validates tokens, roles, routes and start-up, \<open>SecurityFacts\<close> and
  \<open>SecurityProperties\<close> show that the tables change only with a valid token and the admin role for new
  accounts. \<open>DecodeToken\<close> is its command line tool.

  \<^bold>\<open>The users API\<close> (\<open>postgresql-db-replicas/client\<close>) and the demo web server
  (\<open>haproxy-http-loadbalancer/webserver\<close>) are in \<open>UsersApi\<close>; \<open>ToolProperties\<close> has the facts on
  them and on the tool.

  \<^bold>\<open>Bounds.\<close> The loops of the source with a fixed number of turns keep it: 50 entries in
  \<open>luaAdmitNext\<close>, 30 attempts to reach Redis and to fetch the API's key. \<open>admitPending_loop\<close> is a
  partial function whose return is proved. \<open>root_floor\<close> computes 40 bits, enough for roots below
  \<open>2 ^ 40\<close>; \<open>shortest\<close> tries 22 decimal places from above the leading digit downwards, more than
  the 17 digits that determine every binary64 number. The parser of \<open>JsonText\<close> takes twice the
  length of the text as fuel, which is proved to be as good as any more (\<open>parse_json_fuel\<close>), and
  stops at 10000 levels of nesting as Go's does.

  \<^bold>\<open>Parameters.\<close> Code that is not in the repository is an argument: the Redis commands, the token
  and JOSE libraries (\<open>token_lib\<close>, \<open>key_lib\<close>, \<open>jwk_cache_lib\<close>, \<open>sec_lib\<close>), the object mapper
  (\<open>gorm\<close>), the transports to Keycloak and to the target, and the parsing of the target's address.
  A token library is the library as it stands at one request: \<open>key_token_lib\<close> and \<open>server_lib\<close> take
  the time of the request, which decides what has expired. What is relied on of the parameters is
  named: \<open>redis_server\<close>, \<open>jwe_lawful\<close>, \<open>gorm_laws\<close> (of a failed call only that it made the whole
  change or none). \<open>forwarded\<close> states how nginx hands headers on.

  \<^bold>\<open>Not modelled.\<close> Listening, connection pools and logging (I/O); what the proxy library does to
  hop-by-hop and forwarding headers; paths that the multiplexer redirects to their clean form; the
  exhaustion of the tables' 32-bit \<open>SERIAL\<close> keys, whose sequences are unbounded here; constructors
  that only store their arguments and the lookup of claims in a context, which is an argument here;
  Compose, nginx, HAProxy and Keycloak settings, the Keycloak extension, front-end pages and the
  playgrounds without Go code.
\<close>

end
